(* ===== verification/Swagger_Ui.thy ===== *)
theory Swagger_Ui
  imports Main "HOL-Library.Word"
begin

text \<open>
  The only JavaScript of the repository is the Swagger UI distribution that the build copies beside
  the generated API documents (\<^verbatim>\<open>tools/swagger_codegen/ui-dist\<close>).  It is vendored and minified; three
  of its self-contained pieces, each introduced by its own banner comment, are modelled here: the
  recursive \<^verbatim>\<open>deep-extend\<close>, the JSON-pointer escapes of \<^verbatim>\<open>JSON-Patch\<close> and the cached loop of
  \<^verbatim>\<open>repeat-string\<close>.  A JavaScript string is a list of 16-bit code units.
\<close>

type_synonym jsstr = "16 word list"

definition js :: "string \<Rightarrow> jsstr" where
  "js s = map of_char s"

subsection \<open>deep-extend\<close>

text \<open>
  A value: \<open>Special\<close> is a \<^verbatim>\<open>Buffer\<close>, \<^verbatim>\<open>Date\<close> or \<^verbatim>\<open>RegExp\<close> (its content is opaque, its own properties are
  listed), \<open>Func\<close> a function.  The own properties of an object are listed under distinct names.
  Objects are trees: no object is reached twice, so the identity test \<^verbatim>\<open>e===a\<close> is always false.
\<close>

datatype jsval =
    Undefined
  | JNull
  | JBool bool
  | JNum int
  | JStr jsstr
  | Func nat
  | JArr "jsval list"
  | Special nat "(jsstr \<times> jsval) list"
  | JObj "(jsstr \<times> jsval) list"

type_synonym props = "(jsstr \<times> jsval) list"

definition proto :: jsstr where
  "proto = js ''__proto__''"

text \<open>Reading an own property; what is inherited from \<^verbatim>\<open>Object.prototype\<close> are functions, which the caller
  treats like \<open>Undefined\<close>.  The name \<^verbatim>\<open>__proto__\<close> is never read.\<close>

definition safeGetProperty :: "props \<Rightarrow> jsstr \<Rightarrow> jsval" where
  "safeGetProperty a s =
     (if s = proto then Undefined else case map_of a s of None \<Rightarrow> Undefined | Some v \<Rightarrow> v)"

text \<open>The assignment \<^verbatim>\<open>a[s] = v\<close>.  Under the name \<^verbatim>\<open>__proto__\<close> it reaches the accessor of
  \<^verbatim>\<open>Object.prototype\<close>, which ignores a value that is no object, unless the object has an own property of
  that name.\<close>

fun setOwn :: "props \<Rightarrow> jsstr \<Rightarrow> jsval \<Rightarrow> props" where
  "setOwn [] s v = [(s, v)]"
| "setOwn ((k, u) # a) s v = (if k = s then (k, v) # a else (k, u) # setOwn a s v)"

definition assign :: "props \<Rightarrow> jsstr \<Rightarrow> jsval \<Rightarrow> props" where
  "assign a s v = (if s = proto \<and> map_of a proto = None then a else setOwn a s v)"

text \<open>\<open>extendObj a us\<close> is the loop over the keys of one source, \<open>mergeValue t e\<close> the value that source value
  \<open>e\<close> gets where the target has \<open>t\<close>.\<close>

function (sequential) extendObj :: "props \<Rightarrow> props \<Rightarrow> props"
  and mergeValue :: "jsval \<Rightarrow> jsval \<Rightarrow> jsval"
  and deepCloneArray :: "jsval list \<Rightarrow> jsval list" where
  "extendObj a [] = a"
| "extendObj a ((s, v) # us) =
     extendObj (assign a s (mergeValue (safeGetProperty a s) (if s = proto then Undefined else v))) us"
| "mergeValue t (JArr xs) = JArr (deepCloneArray xs)"
| "mergeValue t (Special c ps) = Special c []"
| "mergeValue t (JObj us) =
     (case t of
        JObj a \<Rightarrow> JObj (extendObj a us)
      | Special c a \<Rightarrow> Special c (extendObj a us)
      | _ \<Rightarrow> JObj (extendObj [] us))"
| "mergeValue t e = e"
| "deepCloneArray [] = []"
| "deepCloneArray (x # xs) =
     (case x of
        JArr ys \<Rightarrow> JArr (deepCloneArray ys)
      | Special c ps \<Rightarrow> Special c []
      | JObj us \<Rightarrow> JObj (extendObj [] us)
      | _ \<Rightarrow> x) # deepCloneArray xs"
  by pat_completeness auto

termination
  by (relation "measure (\<lambda>x. case x of
        Inl (a, us) \<Rightarrow> size_list (size_prod (\<lambda>_. 0) size) us
      | Inr (Inl (t, e)) \<Rightarrow> size e
      | Inr (Inr xs) \<Rightarrow> size_list size xs)")
    auto

text \<open>The exported function, on a first argument that is a plain or special object with own properties
  \<open>a\<close>: sources that are no objects, null or arrays are skipped.\<close>

fun deepExtend :: "props \<Rightarrow> jsval list \<Rightarrow> props" where
  "deepExtend a [] = a"
| "deepExtend a (JObj us # rest) = deepExtend (extendObj a us) rest"
| "deepExtend a (Special c us # rest) = deepExtend (extendObj a us) rest"
| "deepExtend a (_ # rest) = deepExtend a rest"

text \<open>No object inside the value has an own property \<^verbatim>\<open>__proto__\<close>.\<close>

fun clean :: "jsval \<Rightarrow> bool" where
  "clean (JArr xs) \<longleftrightarrow> (\<forall>x \<in> set xs. clean x)"
| "clean (JObj ps) \<longleftrightarrow> (\<forall>p \<in> set ps. fst p \<noteq> proto \<and> clean (snd p))"
| "clean (Special c ps) \<longleftrightarrow> (\<forall>p \<in> set ps. fst p \<noteq> proto \<and> clean (snd p))"
| "clean _ \<longleftrightarrow> True"

lemma map_of_setOwn: "map_of (setOwn a s v) = (map_of a)(s \<mapsto> v)"
  by (induction a s v rule: setOwn.induct) (auto simp: fun_eq_iff)

lemma set_setOwn: "set (setOwn a s v) \<subseteq> insert (s, v) (set a)"
  by (induction a s v rule: setOwn.induct) auto

lemma clean_safeGet: "clean (JObj a) \<Longrightarrow> clean (safeGetProperty a s)"
  by (auto simp: safeGetProperty_def split: option.splits dest!: map_of_SomeD)

lemma clean_map_of: "clean (JObj a) \<Longrightarrow> map_of a proto = None"
  by (auto simp: map_of_eq_None_iff)

lemma clean_assign: "clean (JObj a) \<Longrightarrow> clean v \<Longrightarrow> clean (JObj (assign a s v))"
  using set_setOwn [of a s v] clean_map_of [of a] by (auto simp: assign_def)

lemma clean_Special: "clean (Special c ps) \<longleftrightarrow> clean (JObj ps)"
  by simp

lemma clean_Nil: "clean (JObj [])"
  by simp

lemmas clean_tree = clean_Special clean_Nil clean.simps(1) clean.simps(4-9)

lemma clean_extend:
  "clean (JObj a) \<Longrightarrow> clean (JObj (extendObj a us))"
  "clean t \<Longrightarrow> clean (mergeValue t e)"
  "clean (JArr (deepCloneArray xs))"
proof (induction a us and t e and xs rule: extendObj_mergeValue_deepCloneArray.induct)
  case (2 a s v us)
  show ?case
    unfolding extendObj.simps
    by (rule "2.IH"(2), rule clean_assign, rule "2.prems", rule "2.IH"(1), rule clean_safeGet, rule "2.prems")
next
  case (5 t us)
  then show ?case
    by (cases t) (simp_all only: mergeValue.simps jsval.case clean_tree simp_thms)
next
  case (8 x xs)
  then show ?case
    by (cases x) (simp_all only: deepCloneArray.simps jsval.case jsval.inject clean_tree simp_thms list.set ball_simps, blast)
qed (simp_all only: extendObj.simps mergeValue.simps deepCloneArray.simps clean_tree list.set ball_simps simp_thms)

lemma clean_deepExtend: "clean (JObj a) \<Longrightarrow> clean (JObj (deepExtend a us))"
  by (induction a us rule: deepExtend.induct) (simp_all only: deepExtend.simps clean_extend)



subsection \<open>JSON-pointer escapes (JSON-Patch)\<close>

definition replaceChar :: "16 word \<Rightarrow> jsstr \<Rightarrow> jsstr \<Rightarrow> jsstr" where
  "replaceChar c r s = concat (map (\<lambda>x. if x = c then r else [x]) s)"

text \<open>The global replacement of a pattern of two code units, from left to right.\<close>

fun replacePair :: "16 word \<Rightarrow> 16 word \<Rightarrow> jsstr \<Rightarrow> jsstr \<Rightarrow> jsstr" where
  "replacePair a b r (x # y # s) =
     (if x = a \<and> y = b then r @ replacePair a b r s else x # replacePair a b r (y # s))"
| "replacePair a b r s = s"

definition tilde :: "16 word" where "tilde = 126"
definition slash :: "16 word" where "slash = 47"

definition escapePathComponent :: "jsstr \<Rightarrow> jsstr" where
  "escapePathComponent e =
     (if slash \<notin> set e \<and> tilde \<notin> set e then e
      else replaceChar slash (js ''~1'') (replaceChar tilde (js ''~0'') e))"

definition unescapePathComponent :: "jsstr \<Rightarrow> jsstr" where
  "unescapePathComponent e = replacePair tilde 48 (js ''~'') (replacePair tilde 49 (js ''/'') e)"

lemma js_escapes:
  "js ''~0'' = [tilde, 48]" "js ''~1'' = [tilde, 49]" "js ''~'' = [tilde]" "js ''/'' = [slash]"
  by (simp_all add: js_def tilde_def slash_def of_char_def)

lemma replaceChar_simps [simp]:
  "replaceChar c r [] = []"
  "replaceChar c r (x # s) = (if x = c then r else [x]) @ replaceChar c r s"
  by (simp_all add: replaceChar_def)

lemma replaceChar_id: "c \<notin> set s \<Longrightarrow> replaceChar c r s = s"
  by (induction s) auto

lemma replacePair_other: "x \<noteq> a \<Longrightarrow> replacePair a b r (x # s) = x # replacePair a b r s"
  by (cases s) auto

lemma unescape_slash:
  "replacePair tilde 49 [slash] (replaceChar slash [tilde, 49] (replaceChar tilde [tilde, 48] e))
   = replaceChar tilde [tilde, 48] e"
  by (induction e) (auto simp: replacePair_other tilde_def slash_def)

lemma unescape_tilde: "replacePair tilde 48 [tilde] (replaceChar tilde [tilde, 48] e) = e"
  by (induction e) (auto simp: replacePair_other)

lemma escape_eq:
  "escapePathComponent e = replaceChar slash [tilde, 49] (replaceChar tilde [tilde, 48] e)"
  by (simp add: escapePathComponent_def js_escapes replaceChar_id)

text \<open>
  A path component survives the escapes: unescaping an escaped component returns it, whatever
  slashes, tildes and digits it holds, and the escaped component has no slash, so that it is one element
  of a JSON pointer.
\<close>

theorem pointer_roundtrip:
  "unescapePathComponent (escapePathComponent e) = e \<and> slash \<notin> set (escapePathComponent e)"
proof
  show "unescapePathComponent (escapePathComponent e) = e"
    by (simp add: unescapePathComponent_def escape_eq js_escapes unescape_slash unescape_tilde)
  show "slash \<notin> set (escapePathComponent e)"
    unfolding escape_eq by (induction e) (auto simp: tilde_def slash_def)
qed

subsection \<open>repeat-string\<close>

text \<open>The module variables \<^verbatim>\<open>r\<close> (undefined before the first call) and \<^verbatim>\<open>o\<close>: the last string and its longest
  repetition so far.\<close>

record repeatCache =
  rc_str :: "jsstr option"
  rc_res :: jsstr

definition repeatInit :: repeatCache where
  "repeatInit = \<lparr>rc_str = None, rc_res = []\<rparr>"

function repeatLoop :: "nat \<Rightarrow> jsstr \<Rightarrow> jsstr \<Rightarrow> nat \<Rightarrow> jsstr" where
  "repeatLoop n acc e t =
     (if n > length acc \<and> t > 1
      then repeatLoop n (if odd t then acc @ e else acc) (e @ e) (t div 2)
      else take n (acc @ e))"
  by auto
termination by (relation "measure (\<lambda>(n, acc, e, t). t)") auto

declare repeatLoop.simps [simp del]

definition repeatStr :: "repeatCache \<Rightarrow> jsstr \<Rightarrow> nat \<Rightarrow> jsstr \<times> repeatCache" where
  "repeatStr c e t =
     (if t = 1 then (e, c)
      else if t = 2 then (e @ e, c)
      else
        let n = length e * t;
            c1 = (if rc_str c \<noteq> Some e then \<lparr>rc_str = Some e, rc_res = []\<rparr> else c)
        in if rc_str c = Some e \<and> n \<le> length (rc_res c) then (take n (rc_res c), c)
           else let res = repeatLoop n (rc_res c1) e t in (res, c1\<lparr>rc_res := res\<rparr>))"

definition times :: "nat \<Rightarrow> jsstr \<Rightarrow> jsstr" where
  "times k e = concat (replicate k e)"

lemma length_times [simp]: "length (times k e) = k * length e"
  by (simp add: times_def length_concat sum_list_replicate)

lemma times_Nil [simp]: "times k [] = []"
  by (induction k) (simp_all add: times_def)

lemma times_add: "times (j + k) e = times j e @ times k e"
  by (simp add: times_def replicate_add)

lemma take_times: "j \<le> k \<Longrightarrow> take (length e * j) (times k e) = times j e"
  by (metis le_Suc_ex append_eq_conv_conj length_times times_add mult.commute)

lemma take_times': "j * length e \<le> k * length e \<Longrightarrow> take (j * length e) (times k e) = times j e"
  using take_times [of j k e] by (cases "e = []") (simp_all add: mult.commute)

lemma repeatLoop_times:
  "T \<le> k + a * t \<Longrightarrow> 1 \<le> t \<Longrightarrow> 1 \<le> a \<Longrightarrow>
   repeatLoop (length s * T) (times k s) (times a s) t = times T s"
proof (induction t arbitrary: k a rule: less_induct)
  case (less t)
  show ?case
  proof (cases "length s * T > length (times k s) \<and> t > 1")
    case True
    have odd: "k + a * t = (if odd t then k + a else k) + (a + a) * (t div 2)"
      by (cases "odd t") (auto elim!: oddE evenE simp: algebra_simps)
    have "repeatLoop (length s * T) (times (if odd t then k + a else k) s) (times (a + a) s) (t div 2) = times T s"
      by (rule less.IH) (use less.prems True odd in auto)
    then show ?thesis using True
      by (subst repeatLoop.simps) (simp add: times_add [symmetric] split: if_splits)
  next
    case False
    have "T \<le> k + a \<or> s = []"
      using False less.prems by (cases "t = 1") (auto simp: mult.commute)
    then show ?thesis using False
      by (subst repeatLoop.simps) (auto simp: times_add [symmetric] take_times)
  qed
qed

text \<open>What the cache holds between two calls.\<close>

definition cache_ok :: "repeatCache \<Rightarrow> bool" where
  "cache_ok c \<longleftrightarrow> (case rc_str c of None \<Rightarrow> rc_res c = [] | Some e \<Rightarrow> \<exists>k. rc_res c = times k e)"

lemma times_0 [simp]: "times 0 e = []" and times_1 [simp]: "times (Suc 0) e = e"
  by (simp_all add: times_def)

lemma repeat_step:
  assumes "cache_ok c"
  shows "fst (repeatStr c e t) = times t e \<and> cache_ok (snd (repeatStr c e t))"
proof -
  consider "t = 0" | "t = 1" | "t = 2" | "t > 2" by linarith
  then show ?thesis
  proof cases
    case 1
    have "repeatLoop 0 acc e 0 = []" for acc by (simp add: repeatLoop.simps)
    then show ?thesis using assms 1
      by (auto simp: repeatStr_def Let_def cache_ok_def split: option.splits intro: exI [of _ 0])
  next
    case 4
    have loop: "repeatLoop (length e * t) (times k e) e t = times t e" for k
      using repeatLoop_times [of t k 1 t e] 4 by simp
    show ?thesis
    proof (cases "rc_str c = Some e")
      case True
      then obtain k where k: "rc_res c = times k e" using assms by (auto simp: cache_ok_def)
      show ?thesis using 4 True assms loop [of k]
        by (auto simp: repeatStr_def Let_def cache_ok_def k take_times' mult.commute)
    next
      case False
      then show ?thesis using 4 loop [of 0]
        by (auto simp: repeatStr_def Let_def cache_ok_def)
    qed
  qed (use assms in \<open>auto simp: repeatStr_def times_def numeral_2_eq_2\<close>)
qed

fun repeatCalls :: "repeatCache \<Rightarrow> (jsstr \<times> nat) list \<Rightarrow> jsstr list" where
  "repeatCalls c [] = []"
| "repeatCalls c ((e, t) # cs) = (case repeatStr c e t of (r, c') \<Rightarrow> r # repeatCalls c' cs)"

lemma repeatCalls_ok: "cache_ok c \<Longrightarrow> repeatCalls c cs = map (\<lambda>(e, t). times t e) cs"
proof (induction c cs rule: repeatCalls.induct)
  case (2 c e t cs)
  then show ?case
    using repeat_step [OF "2.prems", of e t] by (cases "repeatStr c e t") simp
qed simp

text \<open>
  In any sequence of calls the cached doubling loop of \<^verbatim>\<open>repeat-string\<close> returns, for each call, the
  string repeated the given number of times: what earlier calls left in the cache is never visible.
  (The count is below \<open>2 ^ 31\<close>, where \<^verbatim>\<open>>>=\<close> is division by two.)
\<close>

theorem repeat_exact:
  "repeatCalls repeatInit cs = map (\<lambda>(e, t). concat (replicate t e)) cs"
  using repeatCalls_ok [of repeatInit cs] by (simp add: cache_ok_def repeatInit_def times_def)

end
