(* ===== verification/Swagger_Utf8.thy ===== *)
theory Swagger_Utf8
  imports Main "HOL-Library.Word"
begin

text \<open>
  The UTF-8 coding of the buffer module that the Swagger UI distribution carries (functions \<^verbatim>\<open>F\<close>,
  \<^verbatim>\<open>C\<close> of the module; \<^verbatim>\<open>utf8ToBytes\<close> and \<^verbatim>\<open>utf8Slice\<close> of the published package).  Code units and bytes are
  the numbers \<^verbatim>\<open>charCodeAt\<close> and the array elements give, below \<open>2 ^ 16\<close> and \<open>2 ^ 8\<close>.
\<close>

unbundle bit_operations_syntax

subsection \<open>Encoding\<close>

text \<open>\<open>units\<close> is the room that is left (\<^term>\<open>None\<close>: infinite), \<open>lead\<close> a pending high surrogate.\<close>

definition spend :: "int \<Rightarrow> int option \<Rightarrow> int option" where
  "spend k units = map_option (\<lambda>t. t - k) units"

definition fits :: "int option \<Rightarrow> bool" where
  "fits units = (case units of None \<Rightarrow> True | Some t \<Rightarrow> t > -1)"

definition replacement :: "nat list" where
  "replacement = [239, 191, 189]"

definition utf8Point :: "nat \<Rightarrow> nat list" where
  "utf8Point n =
     (if n < 128 then [n]
      else if n < 2048 then [drop_bit 6 n OR 192, (63 AND n) OR 128]
      else if n < 65536 then [drop_bit 12 n OR 224, (63 AND drop_bit 6 n) OR 128, (63 AND n) OR 128]
      else [drop_bit 18 n OR 240, (63 AND drop_bit 12 n) OR 128, (63 AND drop_bit 6 n) OR 128,
            (63 AND n) OR 128])"

fun utf8ToBytes :: "int option \<Rightarrow> nat option \<Rightarrow> nat list \<Rightarrow> nat list" where
  "utf8ToBytes units lead [] = []"
| "utf8ToBytes units lead (n # rest) =
     (if 55295 < n \<and> n < 57344
      then (case lead of
              None \<Rightarrow>
                (if n > 56319
                 then (let u = spend 3 units in (if fits u then replacement else []) @ utf8ToBytes u None rest)
                 else if rest = []
                 then (let u = spend 3 units in (if fits u then replacement else []) @ utf8ToBytes u None rest)
                 else utf8ToBytes units (Some n) rest)
            | Some l \<Rightarrow>
                (if n < 56320
                 then (let u = spend 3 units in (if fits u then replacement else []) @ utf8ToBytes u (Some n) rest)
                 else
                   let c = 65536 + (push_bit 10 (l - 55296) OR (n - 56320));
                       u = spend (int (length (utf8Point c))) units
                   in if fits u then utf8Point c @ utf8ToBytes u None rest else []))
      else
        let pre = (case lead of None \<Rightarrow> [] | Some _ \<Rightarrow> if fits (spend 3 units) then replacement else []);
            units1 = (case lead of None \<Rightarrow> units | Some _ \<Rightarrow> spend 3 units);
            u = spend (int (length (utf8Point n))) units1
        in if fits u then pre @ utf8Point n @ utf8ToBytes u None rest else pre)"

subsection \<open>Decoding\<close>

definition seqLen :: "nat \<Rightarrow> nat" where
  "seqLen l = (if l > 239 then 4 else if l > 223 then 3 else if l > 191 then 2 else 1)"

text \<open>The code point of a sequence that is completely there, if it is valid.\<close>

fun utf8Seq :: "nat list \<Rightarrow> nat option" where
  "utf8Seq [l] = (if l < 128 then Some l else None)"
| "utf8Seq [l, i] =
     (let s = push_bit 6 (31 AND l) OR (63 AND i)
      in if 192 AND i = 128 \<and> s > 127 then Some s else None)"
| "utf8Seq [l, i, a] =
     (let s = push_bit 12 (15 AND l) OR push_bit 6 (63 AND i) OR (63 AND a)
      in if 192 AND i = 128 \<and> 192 AND a = 128 \<and> s > 2047 \<and> (s < 55296 \<or> s > 57343) then Some s else None)"
| "utf8Seq [l, i, a, u] =
     (let s = push_bit 18 (15 AND l) OR push_bit 12 (63 AND i) OR push_bit 6 (63 AND a) OR (63 AND u)
      in if 192 AND i = 128 \<and> 192 AND a = 128 \<and> 192 AND u = 128 \<and> s > 65535 \<and> s < 1114112
         then Some s else None)"
| "utf8Seq _ = None"

definition utf16Units :: "nat \<Rightarrow> nat list" where
  "utf16Units c =
     (if c > 65535 then [(drop_bit 10 (c - 65536) AND 1023) OR 55296, 56320 OR (1023 AND (c - 65536))]
      else [c])"

function utf8Slice :: "nat list \<Rightarrow> nat list" where
  "utf8Slice [] = []"
| "utf8Slice (l # bs) =
     (let f = seqLen l
      in case (if f \<le> length (l # bs) then utf8Seq (take f (l # bs)) else None) of
           None \<Rightarrow> utf16Units 65533 @ utf8Slice bs
         | Some c \<Rightarrow> utf16Units c @ utf8Slice (drop (f - 1) bs))"
  by pat_completeness auto
termination by (relation "measure length") (auto simp: seqLen_def)

declare utf8Slice.simps(2) [simp del]

subsection \<open>Bits as arithmetic\<close>

lemma or_add: "b < 2 ^ k \<Longrightarrow> push_bit k a OR b = a * 2 ^ k + (b :: nat)"
proof -
  assume "b < 2 ^ k"
  then have "push_bit k a + b = push_bit k a OR b"
    by (intro disjunctive_add) (metis bit_push_bit_iff bit_take_bit_iff not_le take_bit_nat_eq_self)
  then show ?thesis by (simp add: push_bit_eq_mult)
qed

lemma and_mask_mod: "n AND (2 ^ k - 1) = n mod (2 ^ k :: nat)"
  by (metis mask_eq_exp_minus_1 take_bit_eq_mask take_bit_eq_mod)

lemma and_shift: "push_bit k (mask m) AND i = push_bit k (take_bit m (drop_bit k (i :: nat)))"
  by (rule bit_eqI) (auto simp: bit_simps)

lemma and192: "192 AND i = 64 * (i div 64 mod 4 :: nat)"
proof -
  have "push_bit 6 (mask 2) = (192 :: nat)" by (simp add: push_bit_eq_mult mask_eq_exp_minus_1)
  then show ?thesis using and_shift [of 6 2 i]
    by (simp add: push_bit_eq_mult take_bit_eq_mod drop_bit_eq_div)
qed

lemma masks:
  "63 AND n = n mod (64 :: nat)" "31 AND n = n mod (32 :: nat)" "15 AND n = n mod (16 :: nat)"
  "1023 AND n = n mod (1024 :: nat)" "n AND 1023 = n mod (1024 :: nat)"
  using and_mask_mod [of n 6] and_mask_mod [of n 5] and_mask_mod [of n 4] and_mask_mod [of n 10]
  by (simp_all add: and.commute)

lemma ors:
  "x < 64 \<Longrightarrow> x OR 128 = x + (128 :: nat)" "x < 64 \<Longrightarrow> x OR 192 = x + (192 :: nat)"
  "x < 32 \<Longrightarrow> x OR 224 = x + (224 :: nat)" "x < 16 \<Longrightarrow> x OR 240 = x + (240 :: nat)"
  "x < 1024 \<Longrightarrow> x OR 55296 = x + (55296 :: nat)" "x < 1024 \<Longrightarrow> 56320 OR x = x + (56320 :: nat)"
  using or_add [of x 7 1] or_add [of x 6 3] or_add [of x 5 7] or_add [of x 4 15] or_add [of x 10 54]
    or_add [of x 10 55]
  by (simp_all add: push_bit_eq_mult or.commute)

lemmas bits = masks ors and192 drop_bit_eq_div

lemma parts:
  "b < 64 \<Longrightarrow> push_bit 6 a OR b = a * 64 + (b :: nat)"
  "b < 4096 \<Longrightarrow> push_bit 12 a OR b = a * 4096 + (b :: nat)"
  "b < 262144 \<Longrightarrow> push_bit 18 a OR b = a * 262144 + (b :: nat)"
  using or_add [of b 6 a] or_add [of b 12 a] or_add [of b 18 a] by simp_all

lemma low_parts:
  fixes a b c l :: nat
  shows "a mod 64 * 64 + b mod 64 < 4096"
    and "a mod 64 * 4096 + (b mod 64 * 64 + c mod 64) < 262144"
    and "l mod 32 * 64 + a mod 64 < 1114112"
    and "l mod 16 * 4096 + (a mod 64 * 64 + b mod 64) < 1114112"
    and "l mod 32 * 64 + a mod 64 < 55296"
  using mod_less_divisor [of 64 a] mod_less_divisor [of 64 b] mod_less_divisor [of 64 c]
    mod_less_divisor [of 32 l] mod_less_divisor [of 16 l]
  by linarith+

lemma continuation:
  "(n mod 64 + 128) mod 64 = n mod (64 :: nat)" "(n mod 64 + 128) div 64 = (2 :: nat)"
  using mod_mult_self1 [of "n mod 64" 2 64] div_mult_self1 [of 64 "n mod 64" 2] by simp_all

text \<open>A number is put together from its groups of six bits.\<close>

lemma groups:
  fixes n :: nat
  shows "n div 4096 * 4096 + (n div 64 mod 64 * 64 + n mod 64) = n"
    and "n div 262144 * 262144 + (n div 4096 mod 64 * 4096 + (n div 64 mod 64 * 64 + n mod 64)) = n"
proof -
  have d: "n div 4096 = n div 64 div 64" "n div 262144 = n div 64 div 64 div 64"
    using div_mult2_eq [of n 64 64] div_mult2_eq [of n "64 * 64" 64] by simp_all
  note m = div_mult_mod_eq [of n 64] div_mult_mod_eq [of "n div 64" 64] div_mult_mod_eq [of "n div 64 div 64" 64]
  show "n div 4096 * 4096 + (n div 64 mod 64 * 64 + n mod 64) = n" unfolding d using m by linarith
  show "n div 262144 * 262144 + (n div 4096 mod 64 * 4096 + (n div 64 mod 64 * 64 + n mod 64)) = n"
    unfolding d using m by linarith
qed

lemmas seq_arith = bits parts low_parts continuation Let_def

subsection \<open>One code point\<close>

definition isScalar :: "nat \<Rightarrow> bool" where
  "isScalar n \<longleftrightarrow> n < 1114112 \<and> \<not> (55295 < n \<and> n < 57344)"

lemma utf8Point_bytes:
  "utf8Point n =
     (if n < 128 then [n]
      else if n < 2048 then [n div 64 + 192, n mod 64 + 128]
      else if n < 65536 then [n div 4096 + 224, n div 64 mod 64 + 128, n mod 64 + 128]
      else [drop_bit 18 n OR 240, n div 4096 mod 64 + 128, n div 64 mod 64 + 128, n mod 64 + 128])"
  by (simp add: utf8Point_def bits)

lemma slice_seq:
  assumes "seqLen l = Suc (length ys)" "utf8Seq (l # ys) = Some c"
  shows "utf8Slice ((l # ys) @ bs) = utf16Units c @ utf8Slice bs"
  using assms by (simp add: utf8Slice.simps(2) Let_def del: utf8Seq.simps)

text \<open>The bytes of a code point are a sequence of the length its first byte announces.\<close>

lemma point_seq:
  assumes "isScalar n"
  obtains l ys where "utf8Point n = l # ys" "seqLen l = Suc (length ys)" "utf8Seq (l # ys) = Some n"
proof -
  consider "n < 128" | "128 \<le> n" "n < 2048" | "2048 \<le> n" "n < 65536" | "65536 \<le> n" "n < 1114112"
    using assms unfolding isScalar_def by linarith
  then show ?thesis
  proof cases
    case 1
    then show ?thesis by (intro that [of n "[]"]) (simp_all add: utf8Point_def seqLen_def)
  next
    case 2
    have "n div 64 < 32" using 2 by simp
    then have "(n div 64 + 192) mod 32 = n div 64" by (simp add: mod_add_eq [symmetric])
    then have "utf8Seq [n div 64 + 192, n mod 64 + 128] = Some n" using 2 by (simp add: seq_arith)
    then show ?thesis
      using 2 by (intro that [of "n div 64 + 192" "[n mod 64 + 128]"]) (simp_all add: utf8Point_bytes seqLen_def)
  next
    case 3
    have "n div 4096 < 16" using 3 by simp
    then have "(n div 4096 + 224) mod 16 = n div 4096" by (simp add: mod_add_eq [symmetric])
    moreover have "n < 55296 \<or> 57343 < n" using assms unfolding isScalar_def by linarith
    ultimately have "utf8Seq [n div 4096 + 224, n div 64 mod 64 + 128, n mod 64 + 128] = Some n"
      using 3 groups(1) [of n] by (simp add: seq_arith)
    then show ?thesis
      using 3 by (intro that [of "n div 4096 + 224" "[n div 64 mod 64 + 128, n mod 64 + 128]"])
        (simp_all add: utf8Point_bytes seqLen_def del: utf8Seq.simps)
  next
    case 4
    have lt: "n div 262144 < 5" using 4 by simp
    then have first: "drop_bit 18 n OR 240 = n div 262144 + 240" by (simp add: bits)
    have "(n div 262144 + 240) mod 16 = n div 262144" using lt by (simp add: mod_add_eq [symmetric])
    then have "utf8Seq [n div 262144 + 240, n div 4096 mod 64 + 128, n div 64 mod 64 + 128, n mod 64 + 128] = Some n"
      using 4 groups(2) [of n] by (simp add: seq_arith)
    then show ?thesis
      using 4 lt first
      by (intro that [of "n div 262144 + 240" "[n div 4096 mod 64 + 128, n div 64 mod 64 + 128, n mod 64 + 128]"])
        (simp_all add: utf8Point_bytes seqLen_def del: utf8Seq.simps)
  qed
qed

lemma decode_point:
  assumes "isScalar n"
  shows "utf8Slice (utf8Point n @ bs) = utf16Units n @ utf8Slice bs"
  using point_seq [OF assms] slice_seq by metis

text \<open>Numbers below 256.\<close>

lemma point_bytes:
  assumes "isScalar n"
  shows "list_all (\<lambda>b. b < 256) (utf8Point n)"
proof -
  have m: "x mod 64 + 128 < 256" for x :: nat using mod_less_divisor [of 64 x] by linarith
  have "n < 1114112" using assms unfolding isScalar_def by blast
  then have "n div 262144 < 5" by simp
  then have "drop_bit 18 n OR 240 = n div 262144 + 240" "n div 262144 + 240 < 256" by (simp_all add: bits)
  then have d: "drop_bit 18 n OR 240 < 256" by simp
  have "n < 2048 \<Longrightarrow> n div 64 + 192 < 256" "n < 65536 \<Longrightarrow> n div 4096 + 224 < 256" by simp_all
  then show ?thesis using m d unfolding utf8Point_bytes by (auto simp del: mod_add_eq)
qed

subsection \<open>Strings\<close>

text \<open>Well-formed UTF-16: every surrogate is part of a pair, high before low.\<close>

fun wf16 :: "nat list \<Rightarrow> bool" where
  "wf16 [] \<longleftrightarrow> True"
| "wf16 (n # rest) \<longleftrightarrow>
     (if 55296 \<le> n \<and> n \<le> 56319
      then (case rest of [] \<Rightarrow> False | m # rest' \<Rightarrow> 56320 \<le> m \<and> m \<le> 57343 \<and> wf16 rest')
      else n < 65536 \<and> \<not> (56320 \<le> n \<and> n \<le> 57343) \<and> wf16 rest)"

lemma wf16_append: "wf16 xs \<Longrightarrow> wf16 ys \<Longrightarrow> wf16 (xs @ ys)"
  by (induction xs rule: wf16.induct) (auto split: list.splits if_splits)

lemma wf16_units:
  assumes "isScalar n"
  shows "wf16 (utf16Units n)"
proof (cases "n > 65535")
  case True
  then have "(n - 65536) div 1024 < 1024" using assms by (simp add: isScalar_def)
  then show ?thesis using True by (simp add: utf16Units_def bits)
next
  case False
  then show ?thesis using assms by (auto simp: utf16Units_def isScalar_def)
qed

lemma utf8Seq_scalar: "utf8Seq bs = Some c \<Longrightarrow> isScalar c"
  by (cases bs rule: utf8Seq.cases)
     (use low_parts(5) in \<open>auto simp: isScalar_def seq_arith split: if_splits\<close>)

lemma wf16_decode: "wf16 (utf8Slice bs)"
proof (induction bs rule: utf8Slice.induct)
  case (2 l bs)
  have "isScalar 65533" by (simp add: isScalar_def)
  then show ?case
    using 2 by (auto simp: utf8Slice.simps(2) Let_def intro!: wf16_append wf16_units utf8Seq_scalar split: option.split)
qed simp

text \<open>A pair and the code point it stands for.\<close>

lemma pair_scalar:
  assumes "55296 \<le> l" "l \<le> 56319" "56320 \<le> n" "n \<le> 57343"
  shows "isScalar (65536 + (push_bit 10 (l - 55296) OR (n - 56320)))"
    and "utf16Units (65536 + (push_bit 10 (l - 55296) OR (n - 56320))) = [l, n]"
proof -
  have c: "push_bit 10 (l - 55296) OR (n - 56320) = (l - 55296) * 1024 + (n - 56320)"
    using or_add [of "n - 56320" 10 "l - 55296"] assms by simp
  show "isScalar (65536 + (push_bit 10 (l - 55296) OR (n - 56320)))"
    using assms unfolding c isScalar_def by simp
  have "(x * 1024 + y) div 1024 = x" "(x * 1024 + y) mod 1024 = y" if "y < 1024" for x y :: nat
    using that by simp_all
  from this [of "n - 56320" "l - 55296"]
  have "((l - 55296) * 1024 + (n - 56320)) div 1024 = l - 55296"
    "((l - 55296) * 1024 + (n - 56320)) mod 1024 = n - 56320"
    using assms by auto
  then show "utf16Units (65536 + (push_bit 10 (l - 55296) OR (n - 56320))) = [l, n]"
    using assms unfolding c utf16Units_def by (simp add: bits)
qed

lemma decode_encode: "wf16 s \<Longrightarrow> utf8Slice (utf8ToBytes None None s) = s"
proof (induction s rule: wf16.induct)
  case (2 n rest)
  show ?case
  proof (cases "55296 \<le> n \<and> n \<le> 56319")
    case True
    then obtain m rest' where r: "rest = m # rest'" "56320 \<le> m" "m \<le> 57343" "wf16 rest'"
      using "2.prems" by (auto split: list.splits)
    let ?c = "65536 + (push_bit 10 (n - 55296) OR (m - 56320))"
    have "utf8ToBytes None None (n # rest) = utf8Point ?c @ utf8ToBytes None None rest'"
      using True r by (simp add: Let_def fits_def spend_def)
    then show ?thesis
      using pair_scalar [of n m] True r "2.IH"(1) [OF True r(1,4)] by (simp only: decode_point append.simps)
  next
    case False
    then have n: "isScalar n" "n < 65536" "wf16 rest" using "2.prems" by (auto simp: isScalar_def)
    then have "\<not> (55295 < n \<and> n < 57344)" by (simp add: isScalar_def)
    then have "utf8ToBytes None None (n # rest) = utf8Point n @ utf8ToBytes None None rest"
      by (simp only: utf8ToBytes.simps if_False Let_def fits_def spend_def option.map option.case append_Nil if_True)
    then show ?thesis
      using decode_point [OF n(1)] "2.IH"(2) [OF False] n by (simp add: utf16Units_def)
  qed
qed simp

text \<open>
  C35. UTF-8 coding in the buffer module: encoding a well-formed string and decoding the bytes gives the
  string back, and decoding any bytes at all, truncated or overlong sequences and encoded surrogates
  included, gives a well-formed string.
\<close>

theorem utf8_roundtrip:
  "(wf16 s \<longrightarrow> utf8Slice (utf8ToBytes None None s) = s) \<and> wf16 (utf8Slice bs)"
  using decode_encode wf16_decode by blast

theorem utf8_roundtrip_witness:
  "utf8Slice (utf8ToBytes None None [104, 233, 8364, 55357, 56832]) = [104, 233, 8364, 55357, 56832] \<and>
   wf16 (utf8Slice [255, 237, 160, 128, 226, 130])"
proof -
  have "wf16 [104, 233, 8364, 55357, 56832]" by simp
  with utf8_roundtrip [of "[104, 233, 8364, 55357, 56832]" "[255, 237, 160, 128, 226, 130]"] show ?thesis by blast
qed

end
