(* ===== verification/Swagger_Buffer.thy ===== *)
theory Swagger_Buffer
  imports Swagger_Ui
begin

text \<open>
  Numbers in a buffer (\<^verbatim>\<open>readUIntLE\<close>, \<^verbatim>\<open>readIntBE\<close>, \<^verbatim>\<open>writeIntLE\<close> and the like of the buffer module the
  Swagger UI distribution carries).  A buffer is the list of its bytes; numbers are integers within
  the range that a double represents exactly, so \<^verbatim>\<open>e / a\<close> by a power of 256 is exact and \<open>>> 0\<close> cuts it
  towards zero.  The two byte orders share one definition over the position of the byte of weight
  \<open>256 ^ k\<close>, which is where their loops differ.
\<close>

type_synonym buffer = "nat list"

datatype js_error = JsTypeError string | JsRangeError string

definition bytes_ok :: "buffer \<Rightarrow> bool" where
  "bytes_ok b \<longleftrightarrow> (\<forall>x \<in> set b. x < 256)"

definition bytePos :: "bool \<Rightarrow> nat \<Rightarrow> nat \<Rightarrow> nat \<Rightarrow> nat" where
  "bytePos be off n k = (if be then off + (n - 1 - k) else off + k)"

subsection \<open>Reading\<close>

definition checkOffset :: "nat \<Rightarrow> nat \<Rightarrow> nat \<Rightarrow> js_error option" where
  "checkOffset off ext len =
     (if off + ext > len then Some (JsRangeError ''Trying to access beyond buffer length'') else None)"

text \<open>The state of the loop: the weight \<open>256 ^ i\<close> and the sum so far.\<close>

function readLoop :: "bool \<Rightarrow> buffer \<Rightarrow> nat \<Rightarrow> nat \<Rightarrow> nat \<Rightarrow> int \<Rightarrow> int \<Rightarrow> int \<times> int" where
  "readLoop be b off n i a r =
     (if Suc i < n
      then readLoop be b off n (Suc i) (a * 256) (r + int (b ! bytePos be off n (Suc i)) * (a * 256))
      else (a, r))"
  by auto
termination by (relation "measure (\<lambda>(be, b, off, n, i, a, r). n - i)") auto

declare readLoop.simps [simp del]

definition readUInt :: "bool \<Rightarrow> buffer \<Rightarrow> nat \<Rightarrow> nat \<Rightarrow> js_error + int" where
  "readUInt be b off n =
     (case checkOffset off n (length b) of
        Some e \<Rightarrow> Inl e
      | None \<Rightarrow> Inr (snd (readLoop be b off n 0 1 (int (b ! bytePos be off n 0)))))"

definition readInt :: "bool \<Rightarrow> buffer \<Rightarrow> nat \<Rightarrow> nat \<Rightarrow> js_error + int" where
  "readInt be b off n =
     (case checkOffset off n (length b) of
        Some e \<Rightarrow> Inl e
      | None \<Rightarrow>
          (let (a, r) = readLoop be b off n 0 1 (int (b ! bytePos be off n 0))
           in Inr (if r \<ge> a * 128 then r - 2 ^ (8 * n) else r)))"

subsection \<open>Writing\<close>

text \<open>\<^verbatim>\<open>x & 255\<close> of an integer.\<close>

definition lowByte :: "int \<Rightarrow> nat" where
  "lowByte x = nat (x mod 256)"

definition truncDiv :: "int \<Rightarrow> int \<Rightarrow> int" where
  "truncDiv e a = (if e < 0 then - ((- e) div a) else e div a)"

definition checkInt :: "buffer \<Rightarrow> int \<Rightarrow> nat \<Rightarrow> nat \<Rightarrow> int \<Rightarrow> int \<Rightarrow> js_error option" where
  "checkInt b v off ext hi lo =
     (if v > hi \<or> v < lo then Some (JsRangeError ''\"value\" argument is out of bounds'')
      else if off + ext > length b then Some (JsRangeError ''Index out of range'') else None)"

function writeUIntLoop :: "bool \<Rightarrow> int \<Rightarrow> nat \<Rightarrow> nat \<Rightarrow> nat \<Rightarrow> int \<Rightarrow> buffer \<Rightarrow> buffer" where
  "writeUIntLoop be v off n i a b =
     (if Suc i < n
      then writeUIntLoop be v off n (Suc i) (a * 256)
             (b[bytePos be off n (Suc i) := lowByte (truncDiv v (a * 256))])
      else b)"
  by auto
termination by (relation "measure (\<lambda>(be, v, off, n, i, a, b). n - i)") auto

text \<open>The signed loop subtracts \<open>u\<close>, which is 1 from the first nonzero byte of a negative number on.\<close>

function writeIntLoop :: "bool \<Rightarrow> int \<Rightarrow> nat \<Rightarrow> nat \<Rightarrow> nat \<Rightarrow> int \<Rightarrow> int \<Rightarrow> buffer \<Rightarrow> buffer" where
  "writeIntLoop be v off n i a u b =
     (if Suc i < n
      then
        let u' = (if v < 0 \<and> u = 0 \<and> b ! bytePos be off n i \<noteq> 0 then 1 else u)
        in writeIntLoop be v off n (Suc i) (a * 256) u'
             (b[bytePos be off n (Suc i) := lowByte (truncDiv v (a * 256) - u')])
      else b)"
  by auto
termination by (relation "measure (\<lambda>(be, v, off, n, i, a, u, b). n - i)") auto

declare writeUIntLoop.simps [simp del] writeIntLoop.simps [simp del]

definition writeUInt :: "bool \<Rightarrow> buffer \<Rightarrow> int \<Rightarrow> nat \<Rightarrow> nat \<Rightarrow> js_error + buffer \<times> nat" where
  "writeUInt be b v off n =
     (case checkInt b v off n (2 ^ (8 * n) - 1) 0 of
        Some e \<Rightarrow> Inl e
      | None \<Rightarrow> Inr (writeUIntLoop be v off n 0 1 (b[bytePos be off n 0 := lowByte v]), off + n))"

definition writeInt :: "bool \<Rightarrow> buffer \<Rightarrow> int \<Rightarrow> nat \<Rightarrow> nat \<Rightarrow> js_error + buffer \<times> nat" where
  "writeInt be b v off n =
     (let lim = 2 ^ (8 * n - 1)
      in case checkInt b v off n (lim - 1) (- lim) of
           Some e \<Rightarrow> Inl e
         | None \<Rightarrow> Inr (writeIntLoop be v off n 0 1 0 (b[bytePos be off n 0 := lowByte v]), off + n))"

subsection \<open>Digits to base 256\<close>

text \<open>The byte of weight \<open>256 ^ k\<close> in two's complement.\<close>

definition digit :: "int \<Rightarrow> nat \<Rightarrow> nat" where
  "digit v k = lowByte (v div 256 ^ k)"

lemma digit_int: "int (digit v k) = v div 256 ^ k mod 256"
  by (simp add: digit_def lowByte_def)

lemma mod_digit: "v mod 256 ^ Suc k = v mod 256 ^ k + int (digit v k) * 256 ^ k"
  using zmod_zmult2_eq [of 256 v "256 ^ k"] by (simp add: digit_int algebra_simps)

text \<open>Cutting towards zero misses the floor by one exactly for a negative number that does not divide.\<close>

lemma truncDiv_floor:
  assumes "a > 0"
  shows "truncDiv v a - (if v < 0 \<and> v mod a \<noteq> 0 then 1 else 0) = v div a"
proof (cases "v < 0")
  case True
  have "- v = a * (- v div a) + (- v mod a)" "0 \<le> - v mod a" "- v mod a < a"
    using assms by simp_all
  then show ?thesis
    using True zdiv_zminus1_eq_if [of a "- v"] zmod_zminus1_eq_if [of "- v" a] assms
    by (auto simp: truncDiv_def split: if_splits)
qed (simp add: truncDiv_def)

lemma bytePos_inj: "k < n \<Longrightarrow> j < n \<Longrightarrow> bytePos be off n k = bytePos be off n j \<longleftrightarrow> k = j"
  by (auto simp: bytePos_def)

lemma bytePos_range: "k < n \<Longrightarrow> off \<le> bytePos be off n k \<and> bytePos be off n k < off + n"
  by (auto simp: bytePos_def)

text \<open>The first \<open>m\<close> bytes of the number at \<open>off\<close> are its digits, and nothing else has changed.\<close>

definition holds :: "bool \<Rightarrow> buffer \<Rightarrow> int \<Rightarrow> nat \<Rightarrow> nat \<Rightarrow> nat \<Rightarrow> buffer \<Rightarrow> bool" where
  "holds be b0 v off n m b \<longleftrightarrow>
     length b = length b0 \<and> (\<forall>k < m. b ! bytePos be off n k = digit v k) \<and>
     (\<forall>j. j < off \<or> off + n \<le> j \<longrightarrow> b ! j = b0 ! j)"

lemma holds_step:
  assumes "holds be b0 v off n m b" "m < n" "off + n \<le> length b0" "x = digit v m"
  shows "holds be b0 v off n (Suc m) (b[bytePos be off n m := x])"
proof -
  have "bytePos be off n m \<noteq> bytePos be off n k" if "k < m" for k
    using bytePos_inj [of m n k be off] that assms(2) by simp
  then show ?thesis
    using assms bytePos_range [of m n off be] by (auto simp: holds_def nth_list_update less_Suc_eq)
qed

lemma writeUIntLoop_holds:
  "holds be b0 v off n (Suc i) b \<Longrightarrow> off + n \<le> length b0 \<Longrightarrow> i < n \<Longrightarrow> 0 \<le> v \<Longrightarrow> a = 256 ^ i \<Longrightarrow>
   holds be b0 v off n n (writeUIntLoop be v off n i a b)"
proof (induction be v off n i a b rule: writeUIntLoop.induct)
  case (1 be v off n i a b)
  show ?case
  proof (cases "Suc i < n")
    case True
    have "lowByte (truncDiv v (a * 256)) = digit v (Suc i)"
      using "1.prems" by (simp add: truncDiv_def digit_def mult.commute)
    from holds_step [OF "1.prems"(1) True "1.prems"(2) this] "1.IH" [OF True] "1.prems" True show ?thesis
      by (subst writeUIntLoop.simps) simp
  next
    case False
    then have "n = Suc i" using "1.prems" by simp
    then show ?thesis using "1.prems" by (subst writeUIntLoop.simps) simp
  qed
qed

lemma writeIntLoop_holds:
  "holds be b0 v off n (Suc i) b \<Longrightarrow> off + n \<le> length b0 \<Longrightarrow> i < n \<Longrightarrow> a = 256 ^ i \<Longrightarrow>
   u = (if v < 0 \<and> v mod 256 ^ i \<noteq> 0 then 1 else 0) \<Longrightarrow>
   holds be b0 v off n n (writeIntLoop be v off n i a u b)"
proof (induction be v off n i a u b rule: writeIntLoop.induct)
  case (1 be v off n i a u b)
  show ?case
  proof (cases "Suc i < n")
    case True
    define u' where "u' = (if v < 0 \<and> u = 0 \<and> b ! bytePos be off n i \<noteq> 0 then 1 else u)"
    have byte: "b ! bytePos be off n i = digit v i" using "1.prems"(1) by (simp add: holds_def)
    have "0 \<le> v mod 256 ^ i" "0 \<le> int (digit v i) * 256 ^ i" by simp_all
    then have "v mod 256 ^ Suc i = 0 \<longleftrightarrow> v mod 256 ^ i = 0 \<and> digit v i = 0"
      unfolding mod_digit by (auto simp: add_nonneg_eq_0_iff)
    then have u': "u' = (if v < 0 \<and> v mod 256 ^ Suc i \<noteq> 0 then 1 else 0)"
      using "1.prems"(5) byte by (auto simp: u'_def)
    have "lowByte (truncDiv v (a * 256) - u') = digit v (Suc i)"
      using truncDiv_floor [of "256 ^ Suc i" v] "1.prems"(4) unfolding u' digit_def
      by (simp add: mult.commute)
    note step = holds_step [OF "1.prems"(1) True "1.prems"(2) this]
    have "writeIntLoop be v off n i a u b = writeIntLoop be v off n (Suc i) (a * 256) u'
        (b[bytePos be off n (Suc i) := lowByte (truncDiv v (a * 256) - u')])"
      using True by (subst writeIntLoop.simps) (simp add: u'_def Let_def)
    moreover have "holds be b0 v off n n (writeIntLoop be v off n (Suc i) (a * 256) u'
        (b[bytePos be off n (Suc i) := lowByte (truncDiv v (a * 256) - u')]))"
      by (rule "1.IH" [OF True u'_def step "1.prems"(2) True _ u']) (simp add: "1.prems"(4))
    ultimately show ?thesis by simp
  next
    case False
    then have "n = Suc i" using "1.prems" by simp
    then show ?thesis using "1.prems" by (subst writeIntLoop.simps) simp
  qed
qed

lemma readLoop_value:
  "(\<forall>k < n. b ! bytePos be off n k = digit v k) \<Longrightarrow> i < n \<Longrightarrow> a = 256 ^ i \<Longrightarrow> r = v mod 256 ^ Suc i \<Longrightarrow>
   readLoop be b off n i a r = (256 ^ (n - 1), v mod 256 ^ n)"
proof (induction be b off n i a r rule: readLoop.induct)
  case (1 be b off n i a r)
  show ?case
  proof (cases "Suc i < n")
    case True
    have "r + int (b ! bytePos be off n (Suc i)) * (a * 256) = v mod 256 ^ Suc (Suc i)"
      using "1.prems" True mod_digit [of v "Suc i"] by (simp add: mult.commute)
    with "1.IH" [OF True] "1.prems" True show ?thesis by (subst readLoop.simps) simp
  next
    case False
    then have "n = Suc i" using "1.prems" by simp
    then show ?thesis using "1.prems" by (subst readLoop.simps) simp
  qed
qed

lemma pow256: "(2 :: int) ^ (8 * n) = 256 ^ n"
  by (simp add: power_mult)

lemma half256: "n > 0 \<Longrightarrow> (256 :: int) ^ n = 2 * 2 ^ (8 * n - 1) \<and> 256 ^ (n - 1) * 128 = (2 :: int) ^ (8 * n - 1)"
  by (cases n) (simp_all add: pow256 [symmetric] power_add power_Suc [symmetric])

text \<open>
  C36. Numbers survive the buffer, in both byte orders and any length \<open>n\<close> up to 6, the largest the package
  admits (doubles are exact there): a signed number in the range of \<open>n\<close>
  bytes is written in two's complement and read back, an unsigned one likewise, no byte outside the
  \<open>n\<close> bytes changes; a number out of range is refused and nothing is written.  (The loop that writes
  a negative number divides towards zero and corrects with a flag; that is exact.)
\<close>

theorem int_roundtrip:
  assumes "0 < n" "n \<le> 6" "off + n \<le> length b"
  shows "(if - (2 ^ (8 * n - 1)) \<le> v \<and> v < 2 ^ (8 * n - 1)
          then \<exists>b'. writeInt be b v off n = Inr (b', off + n) \<and> readInt be b' off n = Inr v \<and>
                 length b' = length b \<and> (\<forall>j. j < off \<or> off + n \<le> j \<longrightarrow> b' ! j = b ! j)
          else \<exists>e. writeInt be b v off n = Inl e) \<and>
    (if 0 \<le> v \<and> v < 2 ^ (8 * n)
     then \<exists>b'. writeUInt be b v off n = Inr (b', off + n) \<and> readUInt be b' off n = Inr v \<and>
            length b' = length b \<and> (\<forall>j. j < off \<or> off + n \<le> j \<longrightarrow> b' ! j = b ! j)
     else \<exists>e. writeUInt be b v off n = Inl e)"
proof -
  let ?b1 = "b[bytePos be off n 0 := lowByte v]"
  have "holds be b v off n 0 b" by (simp add: holds_def)
  then have h1: "holds be b v off n (Suc 0) ?b1"
    by (rule holds_step) (use assms in \<open>simp_all add: digit_def\<close>)
  have read: "readLoop be b' off n 0 1 (int (b' ! bytePos be off n 0)) = (256 ^ (n - 1), v mod 256 ^ n)"
    if "holds be b v off n n b'" for b'
    using readLoop_value [of n b' be off v 0 1 "int (b' ! bytePos be off n 0)"] that assms(1)
    by (simp add: holds_def digit_int)
  define b' where "b' = writeIntLoop be v off n 0 1 0 ?b1"
  have h': "holds be b v off n n b'"
    unfolding b'_def by (rule writeIntLoop_holds [OF h1]) (use assms in auto)
  have signed: "readInt be b' off n = Inr v" if "- (2 ^ (8 * n - 1)) \<le> v" "v < 2 ^ (8 * n - 1)"
  proof -
    have "v mod 256 ^ n = (if v < 0 then v + 256 ^ n else v)"
    proof (cases "v < 0")
      case True
      then have "(v + 256 ^ n) mod 256 ^ n = v + 256 ^ n"
        using half256 [OF assms(1)] that by (intro mod_pos_pos_trivial) simp_all
      then show ?thesis using True by simp
    next
      case False
      then show ?thesis using half256 [OF assms(1)] that by (simp add: mod_pos_pos_trivial)
    qed
    then show ?thesis
      using read [OF h'] h' assms half256 [OF assms(1)] that
      by (auto simp: readInt_def checkOffset_def holds_def pow256)
  qed
  define c' where "c' = writeUIntLoop be v off n 0 1 ?b1"
  have c: "holds be b v off n n c'" if "0 \<le> v"
    unfolding c'_def by (rule writeUIntLoop_holds [OF h1]) (use assms that in auto)
  have unsigned: "readUInt be c' off n = Inr v" if "0 \<le> v" "v < 2 ^ (8 * n)"
    using read [OF c [OF that(1)]] c [OF that(1)] assms that
    by (auto simp: readUInt_def checkOffset_def holds_def pow256 mod_pos_pos_trivial)
  have "writeInt be b v off n = Inr (b', off + n)" if "- (2 ^ (8 * n - 1)) \<le> v" "v < 2 ^ (8 * n - 1)"
    using that assms by (simp add: writeInt_def checkInt_def b'_def Let_def)
  moreover have "writeUInt be b v off n = Inr (c', off + n)" if "0 \<le> v" "v < 2 ^ (8 * n)"
    using that assms by (simp add: writeUInt_def checkInt_def c'_def)
  moreover have "\<exists>e. writeInt be b v off n = Inl e" if "\<not> (- (2 ^ (8 * n - 1)) \<le> v \<and> v < 2 ^ (8 * n - 1))"
    using that by (auto simp: writeInt_def checkInt_def Let_def)
  moreover have "\<exists>e. writeUInt be b v off n = Inl e" if "\<not> (0 \<le> v \<and> v < 2 ^ (8 * n))"
    using that by (auto simp: writeUInt_def checkInt_def)
  ultimately show ?thesis
    using signed unsigned h' c by (auto simp: holds_def)
qed

theorem int_roundtrip_witness:
  "(\<exists>b'. writeInt True [1, 2, 3, 4] (- 300) 1 2 = Inr (b', 3) \<and> readInt True b' 1 2 = Inr (- 300)) \<and>
   writeInt True [1, 2, 3, 4] (- 300) 1 2 = Inr ([1, 254, 212, 4], 3)"
proof
  show "\<exists>b'. writeInt True [1, 2, 3, 4] (- 300) 1 2 = Inr (b', 3) \<and> readInt True b' 1 2 = Inr (- 300)"
    using int_roundtrip [of 2 1 "[1, 2, 3, 4]" "- 300" True] by auto
  show "writeInt True [1, 2, 3, 4] (- 300) 1 2 = Inr ([1, 254, 212, 4], 3)"
    by code_simp
qed

end
