(* ===== verification/Swagger_Runtime.thy ===== *)
theory Swagger_Runtime
  imports Swagger_Buffer
begin

text \<open>
  The module loader of webpack (\<^verbatim>\<open>__webpack_require__\<close>), which opens each of the Swagger UI files.
\<close>

text \<open>
  What a module factory does, as far as the loader sees it: it sets its exports, requires other
  modules and goes on with what it got, throws, or is done.  An exception of a required module ends
  the factory as well.
\<close>

datatype 'x factory =
    Finish
  | Throw js_error
  | SetExports 'x "'x factory"
  | Require nat "'x \<Rightarrow> 'x factory"

text \<open>The state: \<open>installedModules\<close> (loaded flag and exports), and the factories called, in order.\<close>

record 'x loader =
  installed :: "nat \<Rightarrow> (bool \<times> 'x) option"
  called :: "nat list"

primrec runFactory ::
  "(nat \<Rightarrow> 'x loader \<Rightarrow> ((js_error + 'x) \<times> 'x loader) option) \<Rightarrow> nat \<Rightarrow> 'x factory \<Rightarrow> 'x loader \<Rightarrow>
   (js_error option \<times> 'x loader) option" where
  "runFactory req self Finish st = Some (None, st)"
| "runFactory req self (Throw e) st = Some (Some e, st)"
| "runFactory req self (SetExports x p) st =
     runFactory req self p (st\<lparr>installed := (installed st)(self \<mapsto> (False, x))\<rparr>)"
| "runFactory req self (Require r k) st =
     (case req r st of
        None \<Rightarrow> None
      | Some (Inl e, st') \<Rightarrow> Some (Some e, st')
      | Some (Inr x, st') \<Rightarrow> runFactory req self (k x) st')"

text \<open>
  \<open>E\<close> is the list of factories, \<open>x0\<close> the empty exports object.  The entry is made before the factory is
  called, so a module that is being loaded is already installed; a number without factory leaves an
  entry behind as well.  The fuel bounds the depth of nested loads; \<^term>\<open>None\<close>: it was not enough.
\<close>

fun webpackRequire ::
  "nat \<Rightarrow> 'x factory list \<Rightarrow> 'x \<Rightarrow> nat \<Rightarrow> 'x loader \<Rightarrow> ((js_error + 'x) \<times> 'x loader) option" where
  "webpackRequire 0 E x0 r st = None"
| "webpackRequire (Suc fuel) E x0 r st =
     (case installed st r of
        Some (l, x) \<Rightarrow> Some (Inr x, st)
      | None \<Rightarrow>
          (let st1 = st\<lparr>installed := (installed st)(r \<mapsto> (False, x0))\<rparr>
           in if r \<ge> length E then Some (Inl (JsTypeError ''modules[moduleId] is undefined''), st1)
              else case runFactory (webpackRequire fuel E x0) r (E ! r) (st1\<lparr>called := called st1 @ [r]\<rparr>) of
                     None \<Rightarrow> None
                   | Some (Some e, st2) \<Rightarrow> Some (Inl e, st2)
                   | Some (None, st2) \<Rightarrow>
                       (let x = snd (the (installed st2 r))
                        in Some (Inr x, st2\<lparr>installed := (installed st2)(r \<mapsto> (True, x))\<rparr>))))"

definition loader_inv :: "'x factory list \<Rightarrow> 'x loader \<Rightarrow> bool" where
  "loader_inv E st \<longleftrightarrow> distinct (called st) \<and> set (called st) = dom (installed st) \<inter> {..<length E}"

text \<open>The modules that are not installed yet.\<close>

definition missing :: "'x factory list \<Rightarrow> 'x loader \<Rightarrow> nat set" where
  "missing E st = {..<length E} - dom (installed st)"

lemma finite_missing [simp]: "finite (missing E st)"
  by (simp add: missing_def)

definition grows :: "'x loader \<Rightarrow> 'x loader \<Rightarrow> bool" where
  "grows st st' \<longleftrightarrow> dom (installed st) \<subseteq> dom (installed st') \<and> (\<exists>more. called st' = called st @ more)"

lemma grows_trans: "grows a b \<Longrightarrow> grows b c \<Longrightarrow> grows a c"
  by (auto simp: grows_def)

lemma grows_missing: "grows st st' \<Longrightarrow> card (missing E st') \<le> card (missing E st)"
  by (intro card_mono) (auto simp: grows_def missing_def)

lemma runFactory_ok:
  assumes req: "\<And>r st. loader_inv E st \<Longrightarrow> card (missing E st) \<le> n \<Longrightarrow>
      \<exists>res st'. req r st = Some (res, st') \<and> loader_inv E st' \<and> grows st st'"
    and "loader_inv E st" "card (missing E st) \<le> n" "self \<in> dom (installed st)"
  shows "\<exists>res st'. runFactory req self p st = Some (res, st') \<and> loader_inv E st' \<and> grows st st'"
  using assms(2-4)
proof (induction p arbitrary: st)
  case (SetExports x p)
  let ?st = "st\<lparr>installed := (installed st)(self \<mapsto> (False, x))\<rparr>"
  have same: "dom (installed ?st) = dom (installed st)" "called ?st = called st" using SetExports.prems(3) by auto
  then have st: "loader_inv E ?st" "card (missing E ?st) \<le> n"
    using SetExports.prems unfolding loader_inv_def missing_def by simp_all
  have "self \<in> dom (installed ?st)" by simp
  from SetExports.IH [OF st this]
  obtain res st' where "runFactory req self p ?st = Some (res, st')" "loader_inv E st'" "grows ?st st'" by blast
  then show ?case using same by (auto simp: grows_def)
next
  case (Require r k)
  obtain res st' where r: "req r st = Some (res, st')" "loader_inv E st'" "grows st st'"
    using req [OF Require.prems(1,2), of r] by blast
  show ?case
  proof (cases res)
    case (Inr x)
    have "card (missing E st') \<le> n" "self \<in> dom (installed st')"
      using grows_missing [OF r(3), of E] Require.prems(2,3) r(3) by (auto simp: grows_def)
    then show ?thesis using Require.IH [of "k x" st'] r Inr grows_trans by fastforce
  qed (use r in auto)
qed (simp_all add: grows_def)

lemma webpackRequire_ok:
  "loader_inv E st \<Longrightarrow> card (missing E st) < fuel \<Longrightarrow>
   \<exists>res st'. webpackRequire fuel E x0 r st = Some (res, st') \<and> loader_inv E st' \<and> grows st st'"
proof (induction fuel arbitrary: r st)
  case (Suc fuel)
  show ?case
  proof (cases "installed st r")
    case (Some lx)
    then show ?thesis using Suc.prems by (cases lx) (auto simp: grows_def)
  next
    case None
    let ?st1 = "st\<lparr>installed := (installed st)(r \<mapsto> (False, x0))\<rparr>"
    show ?thesis
    proof (cases "r \<ge> length E")
      case True
      then show ?thesis using None Suc.prems(1) by (auto simp: Let_def loader_inv_def grows_def)
    next
      case False
      let ?st2 = "?st1\<lparr>called := called ?st1 @ [r]\<rparr>"
      have "r \<notin> set (called st)" using None Suc.prems(1) by (auto simp: loader_inv_def)
      then have inv: "loader_inv E ?st2" using Suc.prems(1) False by (auto simp: loader_inv_def)
      have m: "missing E ?st2 = missing E st - {r}" "r \<in> missing E st"
        using None False by (auto simp: missing_def)
      then have "card (missing E ?st2) < card (missing E st)"
        by (simp only: m card_Diff1_less finite_missing)
      then have le: "card (missing E ?st2) \<le> fuel - 1" "fuel > 0" using Suc.prems(2) by linarith+
      have "\<exists>res st'. runFactory (webpackRequire fuel E x0) r (E ! r) ?st2 = Some (res, st') \<and>
          loader_inv E st' \<and> grows ?st2 st'"
      proof (rule runFactory_ok [OF _ inv le(1)])
        show "\<exists>res st'. webpackRequire fuel E x0 r st = Some (res, st') \<and> loader_inv E st' \<and> grows st st'"
          if "loader_inv E st" "card (missing E st) \<le> fuel - 1" for r st
          by (rule Suc.IH [OF that(1)]) (use that(2) le(2) in linarith)
      qed simp
      then obtain e st' where f: "runFactory (webpackRequire fuel E x0) r (E ! r) ?st2 = Some (e, st')"
        "loader_inv E st'" "grows ?st2 st'" by blast
      have "grows st st'" using f(3) by (auto simp: grows_def)
      moreover have "r \<in> dom (installed st')" using f(3) by (auto simp: grows_def)
      ultimately show ?thesis
        using None False f by (cases e) (auto simp: Let_def loader_inv_def grows_def insert_absorb)
    qed
  qed
qed simp

text \<open>A run: the modules required one after the other by scripts of the page.\<close>

fun requireAll ::
  "nat \<Rightarrow> 'x factory list \<Rightarrow> 'x \<Rightarrow> nat list \<Rightarrow> 'x loader \<Rightarrow> 'x loader option" where
  "requireAll fuel E x0 [] st = Some st"
| "requireAll fuel E x0 (r # rs) st =
     (case webpackRequire fuel E x0 r st of None \<Rightarrow> None | Some (_, st') \<Rightarrow> requireAll fuel E x0 rs st')"

definition newLoader :: "'x loader" where
  "newLoader = \<lparr>installed = (\<lambda>_. None), called = []\<rparr>"

lemma requireAll_ok:
  "loader_inv E st \<Longrightarrow> card (missing E st) < fuel \<Longrightarrow>
   \<exists>st'. requireAll fuel E x0 rs st = Some st' \<and> loader_inv E st' \<and> grows st st'"
proof (induction rs arbitrary: st)
  case (Cons r rs)
  obtain res st1 where w: "webpackRequire fuel E x0 r st = Some (res, st1)" "loader_inv E st1" "grows st st1"
    using webpackRequire_ok [OF Cons.prems] by blast
  then have "card (missing E st1) < fuel" using grows_missing [OF w(3), of E] Cons.prems(2) by linarith
  then show ?case using Cons.IH [OF w(2)] w grows_trans by fastforce
qed (simp add: grows_def)

text \<open>
  C37. The loader terminates and calls every factory at most once.  For any modules, cyclic imports and
  factories that throw included, one more unit of fuel than there are modules is enough for any
  sequence of requires; no factory is called twice, and what is called is what is installed.
\<close>

theorem require_once:
  assumes "length E < fuel"
  shows "\<exists>st. requireAll fuel E x0 rs newLoader = Some st \<and> distinct (called st) \<and>
     set (called st) = dom (installed st) \<inter> {..<length E}"
proof -
  have "loader_inv E newLoader" "missing E newLoader = {..<length E}"
    by (simp_all add: loader_inv_def newLoader_def missing_def)
  then show ?thesis using requireAll_ok [of E newLoader fuel x0 rs] assms by (auto simp: loader_inv_def)
qed

text \<open>Two modules that require each other, the second sees the unfinished exports of the first.\<close>

definition cyclicModules :: "nat factory list" where
  "cyclicModules = [SetExports 1 (Require 1 (\<lambda>x. SetExports (10 + x) Finish)), Require 0 (\<lambda>x. SetExports (100 + x) Finish)]"

theorem require_once_witness:
  "(\<exists>st. requireAll 3 cyclicModules 0 [0, 1] newLoader = Some st \<and> distinct (called st)) \<and>
   map_option (\<lambda>st. (called st, installed st 0, installed st 1)) (requireAll 3 cyclicModules 0 [0, 1] newLoader)
     = Some ([0, 1], Some (True, 111), Some (True, 101))"
proof
  have "length cyclicModules < 3" by (simp add: cyclicModules_def)
  from require_once [OF this, of 0 "[0, 1]"]
  show "\<exists>st. requireAll 3 cyclicModules 0 [0, 1] newLoader = Some st \<and> distinct (called st)" by blast
  show "map_option (\<lambda>st. (called st, installed st 0, installed st 1)) (requireAll 3 cyclicModules 0 [0, 1] newLoader)
     = Some ([0, 1], Some (True, 111), Some (True, 101))"
    by (simp add: cyclicModules_def newLoader_def numeral_3_eq_3)
qed

end
