(* ===== verification/Prelude.thy ===== *)
theory Prelude
  imports Main "HOL-Library.AList" "HOL-Library.Char_ord" "HOL-Library.List_Lexorder"
begin

text \<open>
  Shared vocabulary of the development: the lemma collections, Go maps, and the part of Go's
  package \<^verbatim>\<open>strings\<close> that the sources use.

  A Go \<^verbatim>\<open>string\<close> is a byte sequence, here a \<^typ>\<open>string\<close>.  A Go
  \<^verbatim>\<open>map[K]V\<close> is an association list with distinct keys: \<^term>\<open>map_of\<close> is the lookup and the
  order of the list is the order in which one \<^verbatim>\<open>range\<close> loop visits the entries.  Go leaves that
  order open, so every theorem that mentions a map holds for each of its orders.
\<close>

named_theorems go_string \<comment> \<open>rewrite rules of the string library\<close>
named_theorems go_map \<comment> \<open>rewrite rules of Go maps\<close>

subsection \<open>Go maps\<close>

type_synonym ('k, 'v) gomap = "('k \<times> 'v) list"
type_synonym fields = "(string, string) gomap"

abbreviation gomap_wf :: "('k, 'v) gomap \<Rightarrow> bool" where
  "gomap_wf m \<equiv> distinct (map fst m)"

definition mapGet :: "('k, 'v) gomap \<Rightarrow> 'k \<Rightarrow> 'v option" where
  "mapGet m k = map_of m k"

definition mapPut :: "'k \<Rightarrow> 'v \<Rightarrow> ('k, 'v) gomap \<Rightarrow> ('k, 'v) gomap" where
  "mapPut k v m = AList.update k v m"

definition mapDel :: "'k \<Rightarrow> ('k, 'v) gomap \<Rightarrow> ('k, 'v) gomap" where
  "mapDel k m = AList.delete k m"

definition mapHas :: "('k, 'v) gomap \<Rightarrow> 'k \<Rightarrow> bool" where
  "mapHas m k \<longleftrightarrow> mapGet m k \<noteq> None"

text \<open>Reading a missing key of a \<^verbatim>\<open>map[K]string\<close> gives the zero value, the empty string.\<close>

definition mapStr :: "('k, string) gomap \<Rightarrow> 'k \<Rightarrow> string" where
  "mapStr m k = (case mapGet m k of None \<Rightarrow> [] | Some v \<Rightarrow> v)"

lemma mapGet_put [simp, go_map]: "mapGet (mapPut k v m) k' = (if k' = k then Some v else mapGet m k')"
  by (simp add: mapGet_def mapPut_def update_conv')

lemma mapGet_del [simp, go_map]: "mapGet (mapDel k m) k' = (if k' = k then None else mapGet m k')"
  by (simp add: mapGet_def mapDel_def delete_conv')

lemma mapGet_Nil [simp, go_map]: "mapGet [] k = None"
  by (simp add: mapGet_def)

lemma mapGet_Cons [simp, go_map]: "mapGet ((k', v) # m) k = (if k = k' then Some v else mapGet m k)"
  by (simp add: mapGet_def)

lemma gomap_wf_put [intro, simp]: "gomap_wf m \<Longrightarrow> gomap_wf (mapPut k v m)"
  by (simp add: mapPut_def distinct_update)

lemma gomap_wf_del [intro, simp]: "gomap_wf m \<Longrightarrow> gomap_wf (mapDel k m)"
  by (simp add: mapDel_def distinct_delete)

lemma mapHas_iff [go_map]: "mapHas m k \<longleftrightarrow> k \<in> fst ` set m"
  by (simp add: mapHas_def mapGet_def map_of_eq_None_iff)

lemma mapGet_None_iff [go_map]: "mapGet m k = None \<longleftrightarrow> k \<notin> fst ` set m"
  by (simp add: mapGet_def map_of_eq_None_iff)

lemma mapGet_SomeD: "mapGet m k = Some v \<Longrightarrow> (k, v) \<in> set m"
  by (simp add: mapGet_def map_of_SomeD)

lemma mapGet_Some_iff: "gomap_wf m \<Longrightarrow> mapGet m k = Some v \<longleftrightarrow> (k, v) \<in> set m"
  by (simp add: mapGet_def)

lemma mapGet_perm:
  assumes "gomap_wf m" "gomap_wf m'" "set m = set m'"
  shows "mapGet m = mapGet m'"
proof
  fix k
  show "mapGet m k = mapGet m' k"
  proof (cases "mapGet m k")
    case None
    with assms(3) have "mapGet m' k = None" by (simp add: mapGet_None_iff)
    with None show ?thesis by simp
  next
    case (Some v)
    with assms have "mapGet m' k = Some v" by (metis mapGet_Some_iff)
    with Some show ?thesis by simp
  qed
qed

lemma mapPut_keys [simp, go_map]: "fst ` set (mapPut k v m) = insert k (fst ` set m)"
  by (auto simp: mapPut_def dom_update)

lemma mapHas_put: "mapHas (mapPut k v m) k' \<longleftrightarrow> k' = k \<or> mapHas m k'"
  by (auto simp: mapHas_iff)

lemma mapDel_keys [simp, go_map]: "fst ` set (mapDel k m) = fst ` set m - {k}"
  by (metis delete_keys list.set_map mapDel_def set_removeAll)

text \<open>A loop that stores every entry of one map into another (\<^verbatim>\<open>for k, v := range src\<close>).\<close>

fun mapPutAll :: "('k, 'v) gomap \<Rightarrow> ('k, 'v) gomap \<Rightarrow> ('k, 'v) gomap" where
  "mapPutAll dest [] = dest"
| "mapPutAll dest ((k, v) # src) = mapPutAll (mapPut k v dest) src"

lemma mapPutAll_get:
  "gomap_wf src \<Longrightarrow>
   mapGet (mapPutAll dest src) k = (case mapGet src k of None \<Rightarrow> mapGet dest k | Some v \<Rightarrow> Some v)"
proof (induction dest src rule: mapPutAll.induct)
  case (2 dest k' v src)
  then have "mapGet src k' = None" by (simp add: mapGet_None_iff)
  with 2 show ?case by (auto split: option.splits)
qed simp

lemma mapPutAll_wf: "gomap_wf dest \<Longrightarrow> gomap_wf (mapPutAll dest src)"
  by (induction dest src rule: mapPutAll.induct) auto

definition toLowerChar :: "char \<Rightarrow> char" where
  "toLowerChar c = (if CHR ''A'' \<le> c \<and> c \<le> CHR ''Z'' then char_of (of_char c + 32 :: nat) else c)"

subsection \<open>Prefixes and positions\<close>

definition hasPrefix :: "string \<Rightarrow> string \<Rightarrow> bool" where
  "hasPrefix s p \<longleftrightarrow> take (length p) s = p"

definition hasSuffix :: "string \<Rightarrow> string \<Rightarrow> bool" where
  "hasSuffix s p \<longleftrightarrow> length p \<le> length s \<and> drop (length s - length p) s = p"

text \<open>\<^verbatim>\<open>strings.Index\<close>: the first position of \<open>sub\<close>; \<open>None\<close> stands for \<open>-1\<close>.\<close>

fun index :: "string \<Rightarrow> string \<Rightarrow> nat option" where
  "index [] sub = (if sub = [] then Some 0 else None)"
| "index (c # cs) sub = (if hasPrefix (c # cs) sub then Some 0 else map_option Suc (index cs sub))"

definition containsStr :: "string \<Rightarrow> string \<Rightarrow> bool" where
  "containsStr s sub \<longleftrightarrow> index s sub \<noteq> None"

text \<open>\<^verbatim>\<open>strings.LastIndex\<close>.\<close>

fun lastIndex :: "string \<Rightarrow> string \<Rightarrow> nat option" where
  "lastIndex [] sub = (if sub = [] then Some 0 else None)"
| "lastIndex (c # cs) sub =
     (case lastIndex cs sub of
        Some k \<Rightarrow> Some (Suc k)
      | None \<Rightarrow> if hasPrefix (c # cs) sub then Some 0 else None)"

lemma hasPrefix_append [simp, go_string]: "hasPrefix (p @ s) p"
  by (simp add: hasPrefix_def)

lemma hasPrefix_iff: "hasPrefix s p \<longleftrightarrow> (\<exists>t. s = p @ t)"
  by (metis append_eq_conv_conj append_take_drop_id hasPrefix_def)

lemma hasPrefix_Nil [simp, go_string]: "hasPrefix s []"
  by (simp add: hasPrefix_def)

lemma hasPrefix_Cons [simp, go_string]: "hasPrefix (c # s) (d # p) \<longleftrightarrow> c = d \<and> hasPrefix s p"
  by (auto simp: hasPrefix_def)

lemma hasPrefix_empty [simp, go_string]: "hasPrefix [] p \<longleftrightarrow> p = []"
  by (auto simp: hasPrefix_def)

lemma hasSuffix_append [simp, go_string]: "hasSuffix (s @ p) p"
  by (simp add: hasSuffix_def)

lemma hasPrefix_trans: "hasPrefix s p \<Longrightarrow> hasPrefix p q \<Longrightarrow> hasPrefix s q"
  by (auto simp: hasPrefix_iff)

lemma index_SomeD:
  "index s sub = Some k \<Longrightarrow> k + length sub \<le> length s \<and> take (length sub) (drop k s) = sub"
proof (induction s arbitrary: k)
  case Nil
  then show ?case by (auto split: if_splits)
next
  case (Cons c cs)
  show ?case
  proof (cases "hasPrefix (c # cs) sub")
    case True
    then have "length sub \<le> length (c # cs)" by (metis hasPrefix_def length_take min.cobounded1)
    with True Cons.prems show ?thesis by (auto simp: hasPrefix_def)
  next
    case False
    with Cons show ?thesis by auto
  qed
qed

lemma index_Some_split: "index s sub = Some k \<Longrightarrow> s = take k s @ sub @ drop (k + length sub) s"
  by (metis (no_types, lifting) add.commute append_take_drop_id drop_drop index_SomeD)

lemma index_le: "index s sub = Some k \<Longrightarrow> k + length sub \<le> length s"
  using index_SomeD by blast

text \<open>
  The workhorse of all splitting and replacing: if the separator has a character \<open>c\<close> that occurs
  neither before the separator nor earlier in it, then the first match is where we see it.
\<close>

lemma index_first:
  assumes "c \<notin> set a" "c \<notin> set u"
  shows "index (a @ (u @ c # w) @ b) (u @ c # w) = Some (length a)"
  using assms(1)
proof (induction a)
  case Nil
  show ?case by (cases "u @ c # w") (auto simp: hasPrefix_def)
next
  case (Cons x a)
  have "\<not> hasPrefix ((x # a) @ (u @ c # w) @ b) (u @ c # w)"
  proof
    assume "hasPrefix ((x # a) @ (u @ c # w) @ b) (u @ c # w)"
    then obtain t where t: "(x # a) @ (u @ c # w) @ b = (u @ c # w) @ t"
      by (auto simp: hasPrefix_iff)
    then have "((x # a) @ u @ c # w @ b) ! length u = c"
      by (simp add: nth_append)
    moreover have "((x # a) @ u @ c # w @ b) ! length u = ((x # a) @ u) ! length u"
      by (metis append.assoc append_Cons length_Cons length_append less_add_same_cancel2
          nth_append zero_less_Suc)
    moreover have "((x # a) @ u) ! length u \<in> set ((x # a) @ u)"
      by (intro nth_mem) simp
    ultimately show False using Cons.prems assms(2) by auto
  qed
  with Cons show ?case by simp
qed

lemma index_None:
  assumes "c \<in> set sub" "c \<notin> set s"
  shows "index s sub = None"
proof (cases "index s sub")
  case (Some k)
  then have "set sub \<subseteq> set s"
    by (metis index_SomeD set_drop_subset set_take_subset subset_trans)
  with assms show ?thesis by blast
qed simp

lemma containsStr_char: "containsStr s [c] \<longleftrightarrow> c \<in> set s"
  by (induction s) (auto simp: containsStr_def)

subsection \<open>Split, join, replace\<close>

text \<open>
  \<open>gensplit n s sep\<close> makes at most \<open>n\<close> cuts.  \<^verbatim>\<open>strings.Split\<close> makes all of them,
  \<^verbatim>\<open>strings.SplitN(s, sep, n)\<close> with \<open>n > 0\<close> makes at most \<open>n - 1\<close>.  The sources only
  split at non-empty separators.
\<close>

fun gensplit :: "nat \<Rightarrow> string \<Rightarrow> string \<Rightarrow> string list" where
  "gensplit 0 s sep = [s]"
| "gensplit (Suc n) s sep =
     (case index s sep of
        None \<Rightarrow> [s]
      | Some k \<Rightarrow> take k s # gensplit n (drop (k + length sep) s) sep)"

definition splitStr :: "string \<Rightarrow> string \<Rightarrow> string list" where
  "splitStr s sep = gensplit (length s) s sep"

definition splitN :: "string \<Rightarrow> string \<Rightarrow> nat \<Rightarrow> string list" where
  "splitN s sep n = (if n = 0 then [] else gensplit (n - 1) s sep)"

fun joinStr :: "string list \<Rightarrow> string \<Rightarrow> string" where
  "joinStr [] sep = []"
| "joinStr [x] sep = x"
| "joinStr (x # y # ys) sep = x @ sep @ joinStr (y # ys) sep"

text \<open>\<^verbatim>\<open>strings.Replace(s, old, new, n)\<close> for \<open>n \<ge> 0\<close> and for \<open>n = -1\<close>.\<close>

definition replaceN :: "string \<Rightarrow> string \<Rightarrow> string \<Rightarrow> nat \<Rightarrow> string" where
  "replaceN s old new n = joinStr (gensplit n s old) new"

definition replaceAll :: "string \<Rightarrow> string \<Rightarrow> string \<Rightarrow> string" where
  "replaceAll s old new = joinStr (splitStr s old) new"

lemma gensplit_nonempty [simp]: "gensplit n s sep \<noteq> []"
  by (cases n) (auto split: option.splits)

lemma splitStr_nonempty [simp]: "splitStr s sep \<noteq> []"
  by (simp add: splitStr_def)

lemma joinStr_Cons: "xs \<noteq> [] \<Longrightarrow> joinStr (x # xs) sep = x @ sep @ joinStr xs sep"
  by (cases xs) auto

lemma join_gensplit: "joinStr (gensplit n s sep) sep = s"
proof (induction n s sep rule: gensplit.induct)
  case (2 n s sep)
  show ?case
  proof (cases "index s sep")
    case (Some k)
    with 2 index_Some_split [OF Some] show ?thesis
      by (simp add: joinStr_Cons)
  qed simp
qed simp

text \<open>\<^verbatim>\<open>Join\<close> undoes \<^verbatim>\<open>Split\<close>, whatever the separator.\<close>

lemma join_split [simp, go_string]: "joinStr (splitStr s sep) sep = s"
  by (simp add: splitStr_def join_gensplit)

lemma gensplit_length: "length (gensplit n s sep) \<le> Suc n"
  by (induction n s sep rule: gensplit.induct) (auto split: option.splits)

text \<open>With a non-empty separator, \<open>length s\<close> cuts are as good as any larger number.\<close>

lemma gensplit_enough:
  assumes "sep \<noteq> []" "length s \<le> n" "length s \<le> m"
  shows "gensplit n s sep = gensplit m s sep"
  using assms(2,3)
proof (induction n arbitrary: m s)
  case 0
  with assms(1) show ?case by (cases m) auto
next
  case (Suc n)
  show ?case
  proof (cases m)
    case 0
    with Suc.prems assms(1) show ?thesis by auto
  next
    case (Suc m')
    have "gensplit n (drop (k + length sep) s) sep = gensplit m' (drop (k + length sep) s) sep"
      if "index s sep = Some k" for k
    proof -
      have "0 < length sep" using assms(1) by simp
      then have "length s - (k + length sep) \<le> n" "length s - (k + length sep) \<le> m'"
        using Suc.prems Suc by linarith+
      then show ?thesis by (intro Suc.IH) auto
    qed
    with Suc show ?thesis by (auto split: option.splits)
  qed
qed

lemma splitStr_None [go_string]: "index s sep = None \<Longrightarrow> splitStr s sep = [s]"
  by (cases "length s") (auto simp: splitStr_def)

lemma splitStr_Some:
  assumes "sep \<noteq> []" "index s sep = Some k"
  shows "splitStr s sep = take k s # splitStr (drop (k + length sep) s) sep"
proof -
  obtain n where n: "length s = Suc n"
    using assms index_le [OF assms(2)] by (cases "length s") auto
  have "gensplit n (drop (k + length sep) s) sep = splitStr (drop (k + length sep) s) sep"
    unfolding splitStr_def using assms(1) n
    by (intro gensplit_enough) (auto simp: Suc_le_eq diff_le_mono2 neq_Nil_conv)
  with assms(2) n show ?thesis by (simp add: splitStr_def)
qed

text \<open>\<^verbatim>\<open>Split\<close> undoes \<^verbatim>\<open>Join\<close> when no part has the separator's mark character.\<close>

lemma splitStr_first:
  assumes "c \<notin> set a" "c \<notin> set u"
  shows "splitStr (a @ (u @ c # w) @ b) (u @ c # w) = a # splitStr b (u @ c # w)"
  by (subst splitStr_Some [OF _ index_first [OF assms]]) auto

lemma split_join:
  assumes "c \<notin> set u" "\<forall>x \<in> set xs. c \<notin> set x" "xs \<noteq> []"
  shows "splitStr (joinStr xs (u @ c # w)) (u @ c # w) = xs"
  using assms(2,3)
proof (induction xs rule: induct_list012)
  case (2 x)
  then show ?case by (simp add: splitStr_None index_None [of c])
next
  case (3 x y zs)
  then show ?case using splitStr_first [of c x u w] assms(1) by simp
qed simp

lemma split_join_char:
  "\<forall>x \<in> set xs. c \<notin> set x \<Longrightarrow> xs \<noteq> [] \<Longrightarrow> splitStr (joinStr xs [c]) [c] = xs"
  using split_join [of c "[]" xs "[]"] by simp

lemma splitN_Suc_join:
  assumes "xs \<noteq> []" "\<forall>x \<in> set (butlast xs). c \<notin> set x"
  shows "splitN (joinStr xs [c]) [c] (length xs) = xs"
  using assms
proof (induction xs rule: induct_list012)
  case (2 x)
  then show ?case by (simp add: splitN_def)
next
  case (3 x y zs)
  have "index (x @ [c] @ joinStr (y # zs) [c]) [c] = Some (length x)"
    using index_first [of c x "[]" "[]"] 3 by simp
  with 3 show ?case by (simp add: splitN_def)
qed simp

lemma splitStr_chars: "\<forall>x \<in> set (splitStr s sep). set x \<subseteq> set s"
proof -
  have "x \<in> set (gensplit n s sep) \<Longrightarrow> set x \<subseteq> set s" for x n
    by (induction n s sep rule: gensplit.induct)
       (auto split: option.splits dest: in_set_takeD in_set_dropD)
  then show ?thesis by (simp add: splitStr_def)
qed

lemma splitStr_char_free: "\<forall>x \<in> set (splitStr s [c]). c \<notin> set x"
proof (induction "length s" arbitrary: s rule: less_induct)
  case less
  show ?case
  proof (cases "index s [c]")
    case None
    then have "c \<notin> set s" using containsStr_char [of s c] by (simp add: containsStr_def)
    with None show ?thesis by (simp add: splitStr_None)
  next
    case (Some k)
    have "c \<notin> set (take k s)"
    proof -
      have "index s [c] = Some k \<Longrightarrow> c \<notin> set (take k s)" for k
        by (induction s arbitrary: k) (auto split: if_splits)
      with Some show ?thesis by blast
    qed
    moreover have "length (drop (k + length [c]) s) < length s"
      using index_le [OF Some] by simp
    then have "\<forall>x \<in> set (splitStr (drop (k + length [c]) s) [c]). c \<notin> set x"
      by (rule less)
    ultimately show ?thesis using splitStr_Some [OF _ Some] by simp
  qed
qed

lemma joinStr_append_chars: "c \<in> set (joinStr xs sep) \<Longrightarrow> c \<in> set sep \<or> (\<exists>x \<in> set xs. c \<in> set x)"
  by (induction xs sep rule: joinStr.induct) auto

lemma replaceAll_None: "index s old = None \<Longrightarrow> replaceAll s old new = s"
  by (simp add: replaceAll_def splitStr_None)

lemma replaceAll_first:
  assumes "c \<notin> set a" "c \<notin> set u"
  shows "replaceAll (a @ (u @ c # w) @ b) (u @ c # w) new = a @ new @ replaceAll b (u @ c # w) new"
  using splitStr_first [OF assms, of w b] by (simp add: replaceAll_def joinStr_Cons)

lemma replaceAll_id: "c \<in> set old \<Longrightarrow> c \<notin> set s \<Longrightarrow> replaceAll s old new = s"
  by (simp add: replaceAll_None index_None)

text \<open>Replacing one character by a string is a character-wise translation.\<close>

lemma replaceAll_char:
  "replaceAll s [c] new = concat (map (\<lambda>d. if d = c then new else [d]) s)"
proof -
  have *: "c \<notin> set a \<Longrightarrow> replaceAll (a @ s) [c] new =
           a @ concat (map (\<lambda>d. if d = c then new else [d]) s)" for a
  proof (induction s arbitrary: a)
    case Nil
    then show ?case by (simp add: replaceAll_id)
  next
    case (Cons d s)
    show ?case
    proof (cases "d = c")
      case True
      have "replaceAll (a @ [c] @ s) [c] new = a @ new @ replaceAll ([] @ s) [c] new"
        using replaceAll_first [of c a "[]" "[]" s new] Cons.prems by simp
      also have "replaceAll ([] @ s) [c] new = [] @ concat (map (\<lambda>d. if d = c then new else [d]) s)"
        by (rule Cons.IH) simp
      finally show ?thesis using True by simp
    next
      case False
      then have "replaceAll ((a @ [d]) @ s) [c] new =
        (a @ [d]) @ concat (map (\<lambda>d. if d = c then new else [d]) s)"
        using Cons.prems by (intro Cons.IH) auto
      with False show ?thesis by simp
    qed
  qed
  from * [of "[]"] show ?thesis by simp
qed

lemma replaceN_0 [simp]: "replaceN s old new 0 = s"
  by (simp add: replaceN_def)

lemma replaceN_Some:
  "index s old = Some k \<Longrightarrow>
   replaceN s old new (Suc n) = take k s @ new @ replaceN (drop (k + length old) s) old new n"
  by (simp add: replaceN_def joinStr_Cons)

lemma replaceN_None: "index s old = None \<Longrightarrow> replaceN s old new n = s"
  by (cases n) (auto simp: replaceN_def)

subsection \<open>Loops over slices\<close>

text \<open>\<^verbatim>\<open>for ... { ...; if err != nil { return } }\<close>: run \<open>f\<close> over a list, stopping at the first error.\<close>

fun foldErr :: "('s \<Rightarrow> 'a \<Rightarrow> 'e option \<times> 's) \<Rightarrow> 's \<Rightarrow> 'a list \<Rightarrow> 'e option \<times> 's" where
  "foldErr f s [] = (None, s)"
| "foldErr f s (x # xs) =
     (case f s x of (None, s') \<Rightarrow> foldErr f s' xs | (Some e, s') \<Rightarrow> (Some e, s'))"

lemma foldErr_invariant:
  assumes "I s" "\<And>s x. I s \<Longrightarrow> x \<in> set xs \<Longrightarrow> I (snd (f s x))"
  shows "I (snd (foldErr f s xs))"
  using assms
proof (induction xs arbitrary: s)
  case (Cons x xs)
  then have "I (snd (f s x))" by simp
  with Cons show ?case by (cases "f s x") (auto split: option.splits)
qed simp

lemma fold_invariant_set:
  assumes "I s" "\<And>x s. x \<in> set xs \<Longrightarrow> I s \<Longrightarrow> I (f x s)"
  shows "I (fold f xs s)"
  using assms by (induction xs arbitrary: s) auto

subsection \<open>Invariants of transition systems\<close>

text \<open>
  The contract under which every component's invariant is lifted from single operations to whole
  runs: the initial states have it and every step keeps it.
\<close>

locale invariant_system =
  fixes initial :: "'s \<Rightarrow> bool"
    and step :: "'s \<Rightarrow> 's \<Rightarrow> bool"
    and inv :: "'s \<Rightarrow> bool"
  assumes inv_initial: "initial s \<Longrightarrow> inv s"
    and inv_step: "inv s \<Longrightarrow> step s t \<Longrightarrow> inv t"
begin

lemma inv_steps: "step\<^sup>*\<^sup>* s t \<Longrightarrow> inv s \<Longrightarrow> inv t"
  by (induction rule: rtranclp_induct) (auto intro: inv_step)

lemma inv_reachable: "initial s \<Longrightarrow> step\<^sup>*\<^sup>* s t \<Longrightarrow> inv t"
  by (blast intro: inv_initial inv_steps)

end

end
