(* ===== verification/Swagger_Tick.thy ===== *)
theory Swagger_Tick
  imports Prelude
begin

text \<open>
  The task queue behind \<^verbatim>\<open>process.nextTick\<close> in the Swagger UI files: a batch of tasks is run in one timer
  event; a task may queue further tasks, and may throw, which ends the event.  A second timer, set when
  a batch is started and cleared when the queue is empty, takes up the rest after a throw.
\<close>

datatype timer = DrainTimer | CleanupTimer

text \<open>Where the running event is: none, or inside the loop over a batch of the given length.\<close>

datatype drain_pc = Idle | Inner nat

text \<open>
  The variables \<^verbatim>\<open>l\<close>, \<^verbatim>\<open>s\<close>, \<^verbatim>\<open>c\<close>, \<^verbatim>\<open>f\<close> of the module and the timers of the page; the last two fields record
  the tasks queued and the tasks run so far.
\<close>

record 'a ticker =
  tk_queue :: "'a list"
  tk_current :: "'a list option"
  tk_draining :: bool
  tk_index :: int
  tk_timers :: "timer list"
  tk_pc :: drain_pc
  tk_pushed :: "'a list"
  tk_ran :: "'a list"

definition tk_init :: "'a ticker" where
  "tk_init = \<lparr>tk_queue = [], tk_current = None, tk_draining = False, tk_index = -1, tk_timers = [],
     tk_pc = Idle, tk_pushed = [], tk_ran = []\<rparr>"

definition nextTick :: "'a \<Rightarrow> 'a ticker \<Rightarrow> 'a ticker" where
  "nextTick x st =
     (let l = tk_queue st @ [x];
          st1 = st\<lparr>tk_queue := l, tk_pushed := tk_pushed st @ [x]\<rparr>
      in if length l = 1 \<and> \<not> tk_draining st then st1\<lparr>tk_timers := tk_timers st1 @ [DrainTimer]\<rparr> else st1)"

text \<open>The head of the outer loop of \<^verbatim>\<open>drainQueue\<close>: take the queue as the next batch, or finish.\<close>

definition drainOuter :: "'a ticker \<Rightarrow> 'a ticker" where
  "drainOuter st =
     (if length (tk_queue st) \<noteq> 0
      then st\<lparr>tk_current := Some (tk_queue st), tk_queue := [], tk_pc := Inner (length (tk_queue st))\<rparr>
      else st\<lparr>tk_current := None, tk_draining := False, tk_timers := remove1 CleanupTimer (tk_timers st),
              tk_pc := Idle\<rparr>)"

definition drainQueue :: "'a ticker \<Rightarrow> 'a ticker" where
  "drainQueue st =
     (if tk_draining st then st
      else drainOuter (st\<lparr>tk_timers := tk_timers st @ [CleanupTimer], tk_draining := True\<rparr>))"

definition cleanUpNextTick :: "'a ticker \<Rightarrow> 'a ticker" where
  "cleanUpNextTick st =
     (if tk_draining st
      then (case tk_current st of
              None \<Rightarrow> st
            | Some s \<Rightarrow>
                (let st1 = st\<lparr>tk_draining := False\<rparr>;
                     st2 = (if length s \<noteq> 0 then st1\<lparr>tk_queue := s @ tk_queue st1\<rparr> else st1\<lparr>tk_index := -1\<rparr>)
                 in if length (tk_queue st2) \<noteq> 0 then drainQueue st2 else st2))
      else st)"

text \<open>One round of the inner loop whose task queues \<open>pushes\<close> and then returns or throws.\<close>

definition runTick :: "'a list \<Rightarrow> bool \<Rightarrow> 'a ticker \<Rightarrow> 'a ticker" where
  "runTick pushes throws st =
     (let f = tk_index st + 1;
          st1 = fold nextTick pushes
                  (st\<lparr>tk_index := f,
                     tk_ran := tk_ran st @ (case tk_current st of None \<Rightarrow> [] | Some s \<Rightarrow> [s ! nat f])\<rparr>)
      in if throws then st1\<lparr>tk_pc := Idle\<rparr> else st1)"

text \<open>Steps: another script queues a task, a timer fires, a task is run, a batch ends.\<close>

inductive tk_step :: "'a ticker \<Rightarrow> 'a ticker \<Rightarrow> bool" where
  call: "tk_pc st = Idle \<Longrightarrow> tk_step st (nextTick x st)"
| fire_drain: "tk_pc st = Idle \<Longrightarrow> DrainTimer \<in> set (tk_timers st) \<Longrightarrow>
     tk_step st (drainQueue (st\<lparr>tk_timers := remove1 DrainTimer (tk_timers st)\<rparr>))"
| fire_cleanup: "tk_pc st = Idle \<Longrightarrow> CleanupTimer \<in> set (tk_timers st) \<Longrightarrow>
     tk_step st (cleanUpNextTick (st\<lparr>tk_timers := remove1 CleanupTimer (tk_timers st)\<rparr>))"
| run: "tk_pc st = Inner t \<Longrightarrow> tk_index st + 1 < int t \<Longrightarrow> tk_step st (runTick pushes throws st)"
| batch_end: "tk_pc st = Inner t \<Longrightarrow> \<not> tk_index st + 1 < int t \<Longrightarrow> tk_step st (drainOuter (st\<lparr>tk_index := -1\<rparr>))"

text \<open>The tasks that are queued and not run: the rest of the batch, if one is open, and the queue.\<close>

definition tk_pending :: "'a ticker \<Rightarrow> 'a list" where
  "tk_pending st =
     (if tk_draining st then drop (nat (tk_index st + 1)) (the (tk_current st)) else []) @ tk_queue st"

definition tk_inv :: "'a ticker \<Rightarrow> bool" where
  "tk_inv st \<longleftrightarrow>
     tk_pushed st = tk_ran st @ tk_pending st \<and> -1 \<le> tk_index st \<and>
     (if tk_draining st
      then CleanupTimer \<in> set (tk_timers st) \<and>
           (\<exists>s. tk_current st = Some s \<and> s \<noteq> [] \<and> tk_index st < int (length s) \<and>
                (case tk_pc st of Idle \<Rightarrow> True | Inner t \<Rightarrow> t = length s))
      else tk_pc st = Idle \<and> tk_index st = -1 \<and> (tk_queue st \<noteq> [] \<longrightarrow> DrainTimer \<in> set (tk_timers st)))"

lemma tk_inv_init: "tk_inv tk_init"
  by (simp add: tk_inv_def tk_init_def tk_pending_def)

lemma nextTick_inv: "tk_inv st \<Longrightarrow> tk_inv (nextTick x st)"
  by (cases "tk_queue st") (auto simp: tk_inv_def nextTick_def tk_pending_def Let_def split: if_splits)

lemma nextTick_frame:
  "tk_pc (nextTick x st) = tk_pc st" "tk_draining (nextTick x st) = tk_draining st"
  by (simp_all add: nextTick_def Let_def)

lemma nextTicks_inv:
  "tk_inv st \<Longrightarrow> tk_inv (fold nextTick xs st) \<and> tk_pc (fold nextTick xs st) = tk_pc st \<and>
     tk_draining (fold nextTick xs st) = tk_draining st"
  by (induction xs arbitrary: st) (simp_all add: nextTick_inv nextTick_frame)

lemma runTick_inv:
  assumes "tk_inv st" "tk_pc st = Inner t" "tk_index st + 1 < int t"
  shows "tk_inv (runTick pushes throws st)"
proof -
  have d: "tk_draining st" using assms(1,2) by (auto simp: tk_inv_def split: if_splits)
  then obtain s where s: "tk_current st = Some s" "t = length s" "s \<noteq> []" "-1 \<le> tk_index st"
    using assms(1,2) by (auto simp: tk_inv_def)
  let ?f = "tk_index st + 1"
  have "nat (?f + 1) = Suc (nat ?f)" "nat ?f < length s" using s assms(3) by auto
  then have "drop (nat ?f) s = s ! nat ?f # drop (nat (?f + 1)) s"
    by (simp add: Cons_nth_drop_Suc)
  then have "tk_inv (st\<lparr>tk_index := ?f, tk_ran := tk_ran st @ [s ! nat ?f]\<rparr>)"
    using assms d s by (auto simp: tk_inv_def tk_pending_def)
  from nextTicks_inv [OF this, of pushes] d s show ?thesis
    by (auto simp: runTick_def Let_def tk_inv_def tk_pending_def)
qed

lemma drainOuter_inv:
  assumes "tk_pushed st = tk_ran st @ drop (nat (tk_index st + 1)) (tk_queue st)"
    and "-1 \<le> tk_index st" "tk_index st < int (length (tk_queue st))" "tk_draining st" "CleanupTimer \<in> set (tk_timers st)"
  shows "tk_inv (drainOuter st)"
  using assms by (auto simp: drainOuter_def tk_inv_def tk_pending_def)

lemma drainQueue_inv:
  assumes "tk_pushed st = tk_ran st @ drop (nat (tk_index st + 1)) (tk_queue st)"
    and "-1 \<le> tk_index st" "tk_index st < int (length (tk_queue st))" "\<not> tk_draining st"
  shows "tk_inv (drainQueue st)"
  using assms by (simp add: drainQueue_def) (rule drainOuter_inv; simp)

lemma tk_step_inv:
  assumes "tk_step st st'" "tk_inv st"
  shows "tk_inv st'"
  using assms(1)
proof (cases rule: tk_step.cases)
  case (call x)
  then show ?thesis using assms(2) nextTick_inv by simp
next
  case fire_drain
  show ?thesis
  proof (cases "tk_draining st")
    case True
    then show ?thesis using fire_drain assms(2)
      by (auto simp: drainQueue_def tk_inv_def tk_pending_def)
  next
    case False
    then show ?thesis unfolding fire_drain(1)
      using assms(2) by (intro drainQueue_inv) (auto simp: tk_inv_def tk_pending_def)
  qed
next
  case fire_cleanup
  show ?thesis
  proof (cases "tk_draining st")
    case True
    then obtain s where s: "tk_current st = Some s" "s \<noteq> []" "tk_index st < int (length s)" "-1 \<le> tk_index st"
      "tk_pushed st = tk_ran st @ drop (nat (tk_index st + 1)) s @ tk_queue st"
      using assms(2) by (auto simp: tk_inv_def tk_pending_def)
    then show ?thesis unfolding fire_cleanup(1)
      using True by (simp add: cleanUpNextTick_def Let_def) (rule drainQueue_inv; simp)
  next
    case False
    then show ?thesis using fire_cleanup assms(2)
      by (auto simp: cleanUpNextTick_def tk_inv_def tk_pending_def)
  qed
next
  case (run t pushes throws)
  then show ?thesis using runTick_inv [OF assms(2)] by simp
next
  case (batch_end t)
  have d: "tk_draining st" using assms(2) batch_end by (auto simp: tk_inv_def split: if_splits)
  then have "tk_pushed st = tk_ran st @ tk_queue st" "CleanupTimer \<in> set (tk_timers st)"
    using assms(2) batch_end by (auto simp: tk_inv_def tk_pending_def)
  then show ?thesis unfolding batch_end(1)
    using d by (auto simp: drainOuter_def tk_inv_def tk_pending_def)
qed

interpretation tick: invariant_system "\<lambda>st. st = tk_init" tk_step tk_inv
  by unfold_locales (auto simp: tk_inv_init intro: tk_step_inv)

text \<open>
  C38. Tasks are run in the order they were queued, each exactly once, even when tasks throw: at any
  time the tasks queued so far are the tasks run, followed by those still pending, and as long as
  some are pending and no event is running, a timer is set that takes them up.
\<close>

theorem nextTick_fifo:
  assumes "tk_step\<^sup>*\<^sup>* tk_init st"
  shows "tk_pushed st = tk_ran st @ tk_pending st \<and>
    (tk_pc st = Idle \<and> tk_pending st \<noteq> [] \<longrightarrow> tk_timers st \<noteq> [])"
  using tick.inv_reachable [OF refl assms] by (auto simp: tk_inv_def tk_pending_def split: if_splits)

text \<open>Three tasks; the second throws after queueing a fourth; the second timer takes up the rest.\<close>

definition throwRun :: "nat ticker" where
  "throwRun =
     (let st = fold nextTick [1, 2, 3] tk_init;
          st1 = drainQueue (st\<lparr>tk_timers := remove1 DrainTimer (tk_timers st)\<rparr>);
          st2 = runTick [4] True (runTick [] False st1)
      in runTick [] False (cleanUpNextTick (st2\<lparr>tk_timers := remove1 CleanupTimer (tk_timers st2)\<rparr>)))"

lemma throwRun_reachable: "tk_step\<^sup>*\<^sup>* tk_init throwRun"
proof -
  let ?s1 = "nextTick 1 tk_init :: nat ticker" and ?s3 = "fold nextTick [1, 2, 3] tk_init :: nat ticker"
  let ?d = "drainQueue (?s3\<lparr>tk_timers := remove1 DrainTimer (tk_timers ?s3)\<rparr>)"
  let ?t = "runTick [4] True (runTick [] False ?d)"
  let ?c = "cleanUpNextTick (?t\<lparr>tk_timers := remove1 CleanupTimer (tk_timers ?t)\<rparr>)"
  note defs = nextTick_def tk_init_def drainQueue_def drainOuter_def runTick_def cleanUpNextTick_def Let_def
  have "tk_step tk_init ?s1" "tk_step ?s1 (nextTick 2 ?s1)" "tk_step (nextTick 2 ?s1) ?s3"
    by (auto intro!: tk_step.call simp: nextTick_frame) (simp_all add: tk_init_def)
  moreover have "tk_step ?s3 ?d" by (rule tk_step.fire_drain) (simp_all add: defs)
  moreover have "tk_step ?d (runTick [] False ?d)" by (rule tk_step.run [where t = 3]) (simp_all add: defs)
  moreover have "tk_step (runTick [] False ?d) ?t" by (rule tk_step.run [where t = 3]) (simp_all add: defs)
  moreover have "tk_step ?t ?c" by (rule tk_step.fire_cleanup) (simp_all add: defs)
  moreover have "tk_step ?c (runTick [] False ?c)" by (rule tk_step.run [where t = 4]) (simp_all add: defs)
  ultimately show ?thesis
    unfolding throwRun_def Let_def by (meson converse_rtranclp_into_rtranclp rtranclp.rtrancl_refl)
qed

theorem nextTick_fifo_witness:
  "tk_pushed throwRun = tk_ran throwRun @ tk_pending throwRun \<and> tk_ran throwRun = [1, 2, 3] \<and> tk_pending throwRun = [4]"
  using nextTick_fifo [OF throwRun_reachable]
  by (simp add: throwRun_def tk_pending_def nextTick_def tk_init_def drainQueue_def drainOuter_def runTick_def
      cleanUpNextTick_def Let_def)

end
