(* ===== verification/Go_Strconv.thy ===== *)
theory Go_Strconv
  imports Prelude
begin

text \<open>
  Decimal numbers of Go's packages \<^verbatim>\<open>strconv\<close> and \<^verbatim>\<open>fmt\<close>, as far as the sources use them:
  \<^verbatim>\<open>strconv.Itoa\<close> (and the \<^verbatim>\<open>%d\<close> verb), \<^verbatim>\<open>strconv.Atoi\<close>, and \<^verbatim>\<open>strconv.ParseUint\<close>
  with base 10.  Parse failures are \<^term>\<open>None\<close>.
\<close>

definition digitChar :: "nat \<Rightarrow> char" where
  "digitChar d = char_of (48 + d)"

definition digitVal :: "char \<Rightarrow> nat" where
  "digitVal c = of_char c - 48"

definition isDigit :: "char \<Rightarrow> bool" where
  "isDigit c \<longleftrightarrow> 48 \<le> (of_char c :: nat) \<and> (of_char c :: nat) \<le> 57"

fun natStr :: "nat \<Rightarrow> string" where
  "natStr n = (if n < 10 then [digitChar n] else natStr (n div 10) @ [digitChar (n mod 10)])"

declare natStr.simps [simp del]

definition itoa :: "int \<Rightarrow> string" where
  "itoa i = (if i < 0 then CHR ''-'' # natStr (nat (- i)) else natStr (nat i))"

definition digitsVal :: "string \<Rightarrow> nat" where
  "digitsVal s = foldl (\<lambda>a c. 10 * a + digitVal c) 0 s"

definition parseUint :: "string \<Rightarrow> nat \<Rightarrow> nat option" where
  "parseUint s bits =
     (if s \<noteq> [] \<and> list_all isDigit s \<and> digitsVal s < 2 ^ bits then Some (digitsVal s) else None)"

text \<open>\<^verbatim>\<open>int\<close> is 64 bits wide on the targets of the program.\<close>

definition atoi :: "string \<Rightarrow> int option" where
  "atoi s =
     (let (neg, ds) = (case s of
           c # cs \<Rightarrow> if c = CHR ''-'' then (True, cs) else if c = CHR ''+'' then (False, cs) else (False, s)
         | [] \<Rightarrow> (False, s));
          v = int (digitsVal ds);
          i = (if neg then - v else v)
      in if ds \<noteq> [] \<and> list_all isDigit ds \<and> - (2 ^ 63) \<le> i \<and> i < 2 ^ 63 then Some i else None)"

lemma digitVal_char [simp]: "d < 10 \<Longrightarrow> digitVal (digitChar d) = d"
  by (simp add: digitVal_def digitChar_def)

lemma isDigit_char [simp]: "d < 10 \<Longrightarrow> isDigit (digitChar d)"
  by (simp add: isDigit_def digitChar_def)

lemma digitsVal_snoc: "digitsVal (s @ [c]) = 10 * digitsVal s + digitVal c"
  by (simp add: digitsVal_def)

lemma natStr_digits: "list_all isDigit (natStr n)"
proof (induction n rule: natStr.induct)
  case (1 n)
  show ?case
    using 1 by (cases "n < 10") (simp_all add: natStr.simps [of n])
qed

lemma natStr_nonempty [simp]: "natStr n \<noteq> []"
  by (subst natStr.simps) simp

lemma digitsVal_natStr [simp]: "digitsVal (natStr n) = n"
proof (induction n rule: natStr.induct)
  case (1 n)
  show ?case
  proof (cases "n < 10")
    case True
    then show ?thesis by (simp add: natStr.simps [of n] digitsVal_def)
  next
    case False
    with 1 show ?thesis by (simp add: natStr.simps [of n] digitsVal_snoc)
  qed
qed

lemma natStr_inj: "natStr n = natStr m \<Longrightarrow> n = m"
  by (metis digitsVal_natStr)

lemma natStr_chars: "c \<in> set (natStr n) \<Longrightarrow> isDigit c"
  using natStr_digits by (simp add: list_all_iff)

lemma parseUint_natStr: "n < 2 ^ bits \<Longrightarrow> parseUint (natStr n) bits = Some n"
  by (simp add: parseUint_def natStr_digits)

lemma parseUint_bound: "parseUint s bits = Some n \<Longrightarrow> n < 2 ^ bits"
  by (auto simp: parseUint_def split: if_splits)

lemma natStr_hd: "hd (natStr n) \<noteq> CHR ''-'' \<and> hd (natStr n) \<noteq> CHR ''+''"
proof -
  have "isDigit (hd (natStr n))" by (rule natStr_chars [of _ n]) simp
  then show ?thesis by (auto simp: isDigit_def)
qed

lemma atoi_itoa:
  assumes "- (2 ^ 63) \<le> i" "i < 2 ^ 63"
  shows "atoi (itoa i) = Some i"
proof (cases "i < 0")
  case True
  with assms show ?thesis by (simp add: atoi_def itoa_def natStr_digits)
next
  case False
  obtain c cs where c: "natStr (nat i) = c # cs" by (cases "natStr (nat i)") auto
  with natStr_hd [of "nat i"] have "c \<noteq> CHR ''-''" "c \<noteq> CHR ''+''" by auto
  moreover have "digitsVal (c # cs) = nat i" using c by (metis digitsVal_natStr)
  moreover have "list_all isDigit (c # cs)" using c natStr_digits by metis
  ultimately show ?thesis using False assms c by (simp add: atoi_def itoa_def)
qed

end
