(* ===== verification/Swagger_Cookie.thy ===== *)
theory Swagger_Cookie
  imports Swagger_Utf8 Go_Strconv
begin

text \<open>
  The module \<^verbatim>\<open>cookie\<close> of the Swagger UI distribution: \<^verbatim>\<open>parse\<close> of a Cookie header and \<^verbatim>\<open>serialize\<close> of a
  name and a value, with the URI coding of the standard library that they use by default.  Strings are
  lists of code units.
\<close>

subsection \<open>Strings\<close>

definition cu :: "string \<Rightarrow> nat list" where
  "cu s = map of_char s"

text \<open>The white space that \<^verbatim>\<open>trim\<close> removes.\<close>

definition isSpace :: "nat \<Rightarrow> bool" where
  "isSpace n \<longleftrightarrow>
     9 \<le> n \<and> n \<le> 13 \<or> 8192 \<le> n \<and> n \<le> 8202 \<or> n \<in> {32, 160, 5760, 8232, 8233, 8239, 8287, 12288, 65279}"

definition trimUnits :: "nat list \<Rightarrow> nat list" where
  "trimUnits s = rev (dropWhile isSpace (rev (dropWhile isSpace s)))"

text \<open>\<^verbatim>\<open>split(/; */)\<close>.\<close>

function splitPairs :: "nat list \<Rightarrow> nat list list" where
  "splitPairs [] = [[]]"
| "splitPairs (c # cs) =
     (if c = 59 then [] # splitPairs (dropWhile (\<lambda>x. x = 32) cs)
      else case splitPairs cs of [] \<Rightarrow> [[c]] | p # ps \<Rightarrow> (c # p) # ps)"
  by pat_completeness auto
termination
  by (relation "measure length") (auto simp: le_imp_less_Suc length_dropWhile_le)

subsection \<open>URI coding\<close>

definition unreserved :: "nat \<Rightarrow> bool" where
  "unreserved n \<longleftrightarrow>
     97 \<le> n \<and> n \<le> 122 \<or> 65 \<le> n \<and> n \<le> 90 \<or> 48 \<le> n \<and> n \<le> 57 \<or> n \<in> {45, 95, 46, 33, 126, 42, 39, 40, 41}"

definition hexDigit :: "nat \<Rightarrow> nat" where
  "hexDigit d = (if d < 10 then 48 + d else 55 + d)"

definition hexVal :: "nat \<Rightarrow> nat option" where
  "hexVal c =
     (if 48 \<le> c \<and> c \<le> 57 then Some (c - 48)
      else if 65 \<le> c \<and> c \<le> 70 then Some (c - 55)
      else if 97 \<le> c \<and> c \<le> 102 then Some (c - 87) else None)"

definition pct :: "nat list \<Rightarrow> nat list" where
  "pct bs = concat (map (\<lambda>b. [37, hexDigit (b div 16), hexDigit (b mod 16)]) bs)"

text \<open>\<^term>\<open>None\<close>: an unpaired surrogate (\<^verbatim>\<open>URIError\<close>).\<close>

fun encodeURIComponent :: "nat list \<Rightarrow> nat list option" where
  "encodeURIComponent [] = Some []"
| "encodeURIComponent (n # rest) =
     (if unreserved n then map_option (\<lambda>e. n # e) (encodeURIComponent rest)
      else if 56320 \<le> n \<and> n \<le> 57343 then None
      else if 55296 \<le> n \<and> n \<le> 56319
      then (case rest of
              [] \<Rightarrow> None
            | m # rest' \<Rightarrow>
                (if 56320 \<le> m \<and> m \<le> 57343
                 then map_option (\<lambda>e. pct (utf8Point ((n - 55296) * 1024 + (m - 56320) + 65536)) @ e) (encodeURIComponent rest')
                 else None))
      else map_option (\<lambda>e. pct (utf8Point n) @ e) (encodeURIComponent rest))"

fun readByte :: "nat list \<Rightarrow> (nat \<times> nat list) option" where
  "readByte (p # a # b # rest) =
     (if p \<noteq> 37 then None
      else case hexVal a of
             None \<Rightarrow> None
           | Some x \<Rightarrow> (case hexVal b of None \<Rightarrow> None | Some y \<Rightarrow> Some (16 * x + y, rest)))"
| "readByte _ = None"

fun readBytes :: "nat \<Rightarrow> nat list \<Rightarrow> (nat list \<times> nat list) option" where
  "readBytes 0 s = Some ([], s)"
| "readBytes (Suc n) s =
     (case readByte s of
        None \<Rightarrow> None
      | Some (b, r) \<Rightarrow> (case readBytes n r of None \<Rightarrow> None | Some (bs, r') \<Rightarrow> Some (b # bs, r')))"

lemma readByte_length: "readByte s = Some (b, r) \<Longrightarrow> length r < length s"
  by (induction s rule: readByte.induct) (auto split: option.splits if_splits)

lemma readBytes_length: "readBytes n s = Some (bs, r) \<Longrightarrow> length r \<le> length s"
proof (induction n arbitrary: s bs)
  case (Suc n)
  then show ?case using readByte_length by (fastforce split: option.splits)
qed simp

text \<open>Malformed escapes and byte sequences that are no UTF-8 are a \<^verbatim>\<open>URIError\<close>, \<^term>\<open>None\<close>.\<close>

function decodeURIComponent :: "nat list \<Rightarrow> nat list option" where
  "decodeURIComponent [] = Some []"
| "decodeURIComponent (n # rest) =
     (if n \<noteq> 37 then map_option (\<lambda>d. n # d) (decodeURIComponent rest)
      else case readByte (n # rest) of
             None \<Rightarrow> None
           | Some (b, r1) \<Rightarrow>
               (case readBytes (seqLen b - 1) r1 of
                  None \<Rightarrow> None
                | Some (bs, r2) \<Rightarrow>
                    (case utf8Seq (b # bs) of
                       None \<Rightarrow> None
                     | Some c \<Rightarrow> map_option (\<lambda>d. utf16Units c @ d) (decodeURIComponent r2))))"
  by pat_completeness auto
termination
  by (relation "measure length") (auto dest!: readByte_length readBytes_length)

declare decodeURIComponent.simps(2) [simp del]

subsection \<open>parse\<close>

text \<open>The names every object inherits from \<^verbatim>\<open>Object.prototype\<close>: reading them does not give \<^verbatim>\<open>undefined\<close>.\<close>

definition inherited :: "nat list list" where
  "inherited =
     map cu [''constructor'', ''__defineGetter__'', ''__defineSetter__'', ''hasOwnProperty'', ''__lookupGetter__'',
             ''__lookupSetter__'', ''isPrototypeOf'', ''propertyIsEnumerable'', ''toString'', ''valueOf'',
             ''__proto__'', ''toLocaleString'']"

definition tryDecode :: "(nat list \<Rightarrow> nat list option) \<Rightarrow> nat list \<Rightarrow> nat list" where
  "tryDecode decode s = (case decode s of Some d \<Rightarrow> d | None \<Rightarrow> s)"

definition parsePair ::
  "(nat list \<Rightarrow> nat list option) \<Rightarrow> nat list \<Rightarrow> (nat list \<times> nat list) list \<Rightarrow> (nat list \<times> nat list) list" where
  "parsePair decode c obj =
     (if 61 \<notin> set c then obj
      else
        let key = trimUnits (takeWhile (\<lambda>x. x \<noteq> 61) c);
            val0 = trimUnits (tl (dropWhile (\<lambda>x. x \<noteq> 61) c));
            val = (if val0 \<noteq> [] \<and> hd val0 = 34 then butlast (tl val0) else val0)
        in if key \<in> fst ` set obj \<or> key \<in> set inherited then obj
           else obj @ [(key, tryDecode decode val)])"

definition parseCookies :: "(nat list \<Rightarrow> nat list option) \<Rightarrow> nat list \<Rightarrow> (nat list \<times> nat list) list" where
  "parseCookies decode s = fold (parsePair decode) (splitPairs s) []"

subsection \<open>serialize\<close>

text \<open>
  The options.  \<open>maxAge\<close>: absent or null, not a number (\<open>Some None\<close>), or a whole number below \<open>10 ^ 21\<close>;
  \<open>expires\<close>: absent, a value without \<^verbatim>\<open>toUTCString\<close> (\<open>Some None\<close>), or what that function returns; the
  empty \<open>domain\<close> and \<open>path\<close> stand for absent ones too, both are false.
\<close>

datatype same_site = NoSite | SiteTrue | SiteStr "nat list" | SiteOther

record cookie_opts =
  co_encode :: "nat list \<Rightarrow> nat list option"
  co_maxAge :: "int option option"
  co_domain :: "nat list"
  co_path :: "nat list"
  co_expires :: "nat list option option"
  co_httpOnly :: bool
  co_secure :: bool
  co_sameSite :: same_site

definition noOptions :: cookie_opts where
  "noOptions =
     \<lparr>co_encode = encodeURIComponent, co_maxAge = None, co_domain = [], co_path = [], co_expires = None,
      co_httpOnly = False, co_secure = False, co_sameSite = NoSite\<rparr>"

text \<open>\<^verbatim>\<open>/^[\u0009\u0020-\u007e\u0080-\u00ff]+$/\<close>.\<close>

definition fieldChar :: "nat \<Rightarrow> bool" where
  "fieldChar n \<longleftrightarrow> n = 9 \<or> 32 \<le> n \<and> n \<le> 126 \<or> 128 \<le> n \<and> n \<le> 255"

definition fieldContent :: "nat list \<Rightarrow> bool" where
  "fieldContent s \<longleftrightarrow> s \<noteq> [] \<and> list_all fieldChar s"

text \<open>\<^verbatim>\<open>toLowerCase\<close>, as far as the comparison with \<open>lax\<close> and \<open>strict\<close> can tell.\<close>

definition lowerUnits :: "nat list \<Rightarrow> nat list" where
  "lowerUnits s = map (\<lambda>n. if 65 \<le> n \<and> n \<le> 90 then n + 32 else n) s"

datatype cookie_error =
  EncodeFails | NameInvalid | ValInvalid | MaxAgeNaN | DomainInvalid | PathInvalid | ExpiresInvalid | SameSiteInvalid

type_synonym cookie_result = "cookie_error + nat list"

definition andThen :: "cookie_result \<Rightarrow> (nat list \<Rightarrow> cookie_result) \<Rightarrow> cookie_result" where
  "andThen r k = (case r of Inl e \<Rightarrow> Inl e | Inr s \<Rightarrow> k s)"

definition addNameVal :: "nat list \<Rightarrow> nat list \<Rightarrow> cookie_opts \<Rightarrow> cookie_result" where
  "addNameVal name val opt =
     (if \<not> fieldContent name then Inl NameInvalid
      else case co_encode opt val of
             None \<Rightarrow> Inl EncodeFails
           | Some v \<Rightarrow>
               (if v \<noteq> [] \<and> \<not> fieldContent v then Inl ValInvalid else Inr (name @ [61] @ v)))"

definition addMaxAge :: "cookie_opts \<Rightarrow> nat list \<Rightarrow> cookie_result" where
  "addMaxAge opt s =
     (case co_maxAge opt of
        None \<Rightarrow> Inr s
      | Some None \<Rightarrow> Inl MaxAgeNaN
      | Some (Some i) \<Rightarrow> Inr (s @ cu ''; Max-Age='' @ cu (itoa i)))"

definition addDomain :: "cookie_opts \<Rightarrow> nat list \<Rightarrow> cookie_result" where
  "addDomain opt s =
     (if co_domain opt = [] then Inr s
      else if \<not> fieldContent (co_domain opt) then Inl DomainInvalid
      else Inr (s @ cu ''; Domain='' @ co_domain opt))"

definition addPath :: "cookie_opts \<Rightarrow> nat list \<Rightarrow> cookie_result" where
  "addPath opt s =
     (if co_path opt = [] then Inr s
      else if \<not> fieldContent (co_path opt) then Inl PathInvalid
      else Inr (s @ cu ''; Path='' @ co_path opt))"

definition addExpires :: "cookie_opts \<Rightarrow> nat list \<Rightarrow> cookie_result" where
  "addExpires opt s =
     (case co_expires opt of
        None \<Rightarrow> Inr s
      | Some None \<Rightarrow> Inl ExpiresInvalid
      | Some (Some d) \<Rightarrow> Inr (s @ cu ''; Expires='' @ d))"

definition addFlags :: "cookie_opts \<Rightarrow> nat list \<Rightarrow> cookie_result" where
  "addFlags opt s =
     Inr (s @ (if co_httpOnly opt then cu ''; HttpOnly'' else []) @ (if co_secure opt then cu ''; Secure'' else []))"

definition addSameSite :: "cookie_opts \<Rightarrow> nat list \<Rightarrow> cookie_result" where
  "addSameSite opt s =
     (case co_sameSite opt of
        NoSite \<Rightarrow> Inr s
      | SiteTrue \<Rightarrow> Inr (s @ cu ''; SameSite=Strict'')
      | SiteStr w \<Rightarrow>
          (if w = [] then Inr s
           else if lowerUnits w = cu ''lax'' then Inr (s @ cu ''; SameSite=Lax'')
           else if lowerUnits w = cu ''strict'' then Inr (s @ cu ''; SameSite=Strict'')
           else Inl SameSiteInvalid)
      | SiteOther \<Rightarrow> Inl SameSiteInvalid)"

definition serialize :: "nat list \<Rightarrow> nat list \<Rightarrow> cookie_opts \<Rightarrow> cookie_result" where
  "serialize name val opt =
     fold (\<lambda>f r. andThen r (f opt)) [addMaxAge, addDomain, addPath, addExpires, addFlags, addSameSite]
       (addNameVal name val opt)"

subsection \<open>Coding and decoding a value\<close>

lemma hexVal_digit [simp]: "d < 16 \<Longrightarrow> hexVal (hexDigit d) = Some d"
  by (auto simp: hexVal_def hexDigit_def)

lemma readByte_pct:
  "b < 256 \<Longrightarrow> readByte (37 # hexDigit (b div 16) # hexDigit (b mod 16) # r) = Some (b, r)"
  by (simp add: less_mult_imp_div_less)

lemma readBytes_pct: "list_all (\<lambda>b. b < 256) bs \<Longrightarrow> readBytes (length bs) (pct bs @ r) = Some (bs, r)"
proof (induction bs)
  case (Cons b bs)
  then show ?case using readByte_pct by (simp add: pct_def del: readByte.simps)
qed (simp add: pct_def)

lemma decode_pct:
  assumes "isScalar n"
  shows "decodeURIComponent (pct (utf8Point n) @ r) = map_option (\<lambda>d. utf16Units n @ d) (decodeURIComponent r)"
proof -
  obtain l ys where p: "utf8Point n = l # ys" "seqLen l = Suc (length ys)" "utf8Seq (l # ys) = Some n"
    using point_seq [OF assms] .
  then have b: "l < 256" "list_all (\<lambda>b. b < 256) ys" using point_bytes [OF assms] by simp_all
  have c: "pct (l # ys) @ r = 37 # hexDigit (l div 16) # hexDigit (l mod 16) # (pct ys @ r)" by (simp add: pct_def)
  show ?thesis
    unfolding p(1) c decodeURIComponent.simps(2) readByte_pct [OF b(1)]
    using p(2,3) readBytes_pct [OF b(2)] by (simp del: utf8Seq.simps)
qed

text \<open>What \<^const>\<open>encodeURIComponent\<close> writes, and that reading it gives the string back.\<close>

definition plain :: "nat \<Rightarrow> bool" where
  "plain n \<longleftrightarrow> unreserved n \<or> n = 37"

lemma plain_chars:
  "plain n \<Longrightarrow> fieldChar n \<and> \<not> isSpace n \<and> n \<noteq> 34 \<and> n \<noteq> 59 \<and> n \<noteq> 61"
  unfolding plain_def unreserved_def fieldChar_def isSpace_def by auto

lemma plain_pct: "list_all (\<lambda>b. b < 256) bs \<Longrightarrow> list_all plain (pct bs)"
proof (induction bs)
  case (Cons b bs)
  have "plain (hexDigit d)" if "d < 16" for d
    using that unfolding plain_def unreserved_def hexDigit_def by auto
  then show ?case using Cons by (simp add: pct_def less_mult_imp_div_less) (simp add: plain_def)
qed (simp add: pct_def)

lemma not_wf_escape: "unreserved n \<Longrightarrow> n \<noteq> 37 \<and> \<not> (55296 \<le> n \<and> n \<le> 57343)"
  unfolding unreserved_def by auto

lemma encode_value:
  "wf16 s \<Longrightarrow> \<exists>e. encodeURIComponent s = Some e \<and> decodeURIComponent e = Some s \<and> list_all plain e"
proof (induction s rule: wf16.induct)
  case (2 n rest)
  show ?case
  proof (cases "55296 \<le> n \<and> n \<le> 56319")
    case True
    then obtain m rest' where r: "rest = m # rest'" "56320 \<le> m" "m \<le> 57343" "wf16 rest'"
      using "2.prems" by (auto split: list.splits)
    from "2.IH"(1) [OF True r(1,4)] obtain e where
      e: "encodeURIComponent rest' = Some e" "decodeURIComponent e = Some rest'" "list_all plain e" by blast
    let ?c = "65536 + (push_bit 10 (n - 55296) OR (m - 56320))"
    have c: "(n - 55296) * 1024 + (m - 56320) + 65536 = ?c"
      using or_add [of "m - 56320" 10 "n - 55296"] r by simp
    have "\<not> unreserved n" using True not_wf_escape by fastforce
    then have "encodeURIComponent (n # rest) = Some (pct (utf8Point ?c) @ e)"
      using True r e(1) unfolding c [symmetric] by simp
    moreover have "isScalar ?c" "utf16Units ?c = [n, m]" using pair_scalar [of n m] True r by blast+
    ultimately show ?thesis
      using e r(1) decode_pct [of ?c e] plain_pct [OF point_bytes [of ?c]] by simp
  next
    case False
    then have n: "isScalar n" "n < 65536" "wf16 rest" "\<not> (56320 \<le> n \<and> n \<le> 57343)"
      using "2.prems" by (auto simp: isScalar_def)
    from "2.IH"(2) [OF False n(3)] obtain e where
      e: "encodeURIComponent rest = Some e" "decodeURIComponent e = Some rest" "list_all plain e" by blast
    show ?thesis
    proof (cases "unreserved n")
      case True
      then show ?thesis
        using e not_wf_escape [OF True] by (simp add: decodeURIComponent.simps(2) plain_def [of n])
    next
      case nu: False
      then have "encodeURIComponent (n # rest) = Some (pct (utf8Point n) @ e)" using False n(4) e(1) by auto
      moreover have "utf16Units n = [n]" using n(2) by (simp add: utf16Units_def)
      ultimately show ?thesis
        using e n(1) decode_pct [of n e] plain_pct [OF point_bytes [of n]] by simp
    qed
  qed
qed simp

subsection \<open>A header of cookies\<close>

text \<open>How a client sends its cookies back.\<close>

fun cookieHeader :: "nat list list \<Rightarrow> nat list" where
  "cookieHeader [] = []"
| "cookieHeader [p] = p"
| "cookieHeader (p # q # ps) = p @ [59, 32] @ cookieHeader (q # ps)"

definition okName :: "nat list \<Rightarrow> bool" where
  "okName k \<longleftrightarrow> fieldContent k \<and> 59 \<notin> set k \<and> 61 \<notin> set k \<and> trimUnits k = k \<and> k \<notin> set inherited"

definition okPair :: "nat list \<Rightarrow> bool" where
  "okPair p \<longleftrightarrow> p \<noteq> [] \<and> hd p \<noteq> 32 \<and> 59 \<notin> set p"

lemma split_one: "59 \<notin> set p \<Longrightarrow> splitPairs p = [p]"
  by (induction p) auto

lemma split_sep: "59 \<notin> set p \<Longrightarrow> splitPairs (p @ 59 # s) = p # splitPairs (dropWhile (\<lambda>x. x = 32) s)"
  by (induction p) auto

lemma hd_header: "okPair p \<Longrightarrow> \<exists>c cs. cookieHeader (p # ps) = c # cs \<and> c \<noteq> 32"
  by (cases ps; cases p) (auto simp: okPair_def)

lemma split_header: "list_all okPair ps \<Longrightarrow> ps \<noteq> [] \<Longrightarrow> splitPairs (cookieHeader ps) = ps"
proof (induction ps rule: cookieHeader.induct)
  case (3 p q ps)
  obtain c cs where c: "cookieHeader (q # ps) = c # cs" "c \<noteq> 32" using hd_header [of q ps] 3(2) by auto
  then have "dropWhile (\<lambda>x. x = 32) (32 # cookieHeader (q # ps)) = cookieHeader (q # ps)" by simp
  then show ?case
    using 3 split_sep [of p "32 # cookieHeader (q # ps)"] by (simp add: okPair_def)
qed (auto simp: okPair_def split_one)

lemma trim_hd:
  assumes "trimUnits k = k" "k \<noteq> []"
  shows "\<not> isSpace (hd k)"
proof -
  have "length (trimUnits k) \<le> length (dropWhile isSpace k)"
    unfolding trimUnits_def length_rev
    using length_dropWhile_le [of isSpace "rev (dropWhile isSpace k)"] by simp
  moreover have "isSpace (hd k) \<Longrightarrow> length (dropWhile isSpace k) < length k"
    using assms(2) length_dropWhile_le [of isSpace "tl k"] by (cases k) auto
  ultimately show ?thesis using assms(1) by auto
qed

lemma trim_id: "list_all (\<lambda>n. \<not> isSpace n) v \<Longrightarrow> trimUnits v = v"
proof -
  assume "list_all (\<lambda>n. \<not> isSpace n) v"
  then have v: "\<forall>n\<in>set v. \<not> isSpace n" by (simp add: list_all_iff)
  have d: "dropWhile isSpace w = w" if "\<forall>n\<in>set w. \<not> isSpace n" for w using that by (cases w) auto
  show ?thesis unfolding trimUnits_def using d [of v] d [of "rev v"] v by simp
qed

lemma cut_pair:
  "61 \<notin> set k \<Longrightarrow> takeWhile (\<lambda>x. x \<noteq> 61) (k @ 61 # e) = k \<and> dropWhile (\<lambda>x. x \<noteq> 61) (k @ 61 # e) = 61 # e"
  by (induction k) auto

lemma parse_pair:
  assumes "okName k" "list_all plain e" "k \<notin> fst ` set obj"
  shows "parsePair dec (k @ 61 # e) obj = obj @ [(k, tryDecode dec e)]"
proof -
  have "trimUnits e = e" using assms(2) plain_chars by (auto intro!: trim_id simp: list_all_iff)
  moreover have "e \<noteq> [] \<Longrightarrow> hd e \<noteq> 34" using assms(2) plain_chars by (cases e) auto
  ultimately show ?thesis
    using assms(1,3) cut_pair [of k e] by (auto simp: parsePair_def Let_def okName_def)
qed

lemma serialize_default:
  assumes "okName k" "wf16 v"
  obtains e where "serialize k v noOptions = Inr (k @ 61 # e)" "okPair (k @ 61 # e)"
    "list_all plain e" "decodeURIComponent e = Some v"
proof -
  obtain e where e: "encodeURIComponent v = Some e" "decodeURIComponent e = Some v" "list_all plain e"
    using encode_value [OF assms(2)] by blast
  have f: "list_all fieldChar e" "59 \<notin> set e" using e(3) plain_chars by (auto simp: list_all_iff)
  have k: "fieldContent k" "k \<noteq> []" "59 \<notin> set k" "\<not> isSpace (hd k)"
    using assms(1) trim_hd by (auto simp: okName_def fieldContent_def)
  have "serialize k v noOptions = Inr (k @ 61 # e)"
    using k(1) e(1) f(1)
    by (simp add: serialize_def addNameVal_def addMaxAge_def addDomain_def addPath_def addExpires_def addFlags_def
        addSameSite_def andThen_def noOptions_def fieldContent_def [of e])
  moreover have "hd k \<noteq> 32" using k(4) by (auto simp: isSpace_def)
  then have "okPair (k @ 61 # e)" using k f(2) by (auto simp: okPair_def)
  ultimately show ?thesis using e that by blast
qed

lemma serialize_all:
  assumes "\<forall>(k, v) \<in> set cs. okName k \<and> wf16 v" "distinct (map fst cs)" "fst ` set cs \<inter> fst ` set obj = {}"
  shows "\<exists>ps. map (\<lambda>(k, v). serialize k v noOptions) cs = map Inr ps \<and> list_all okPair ps \<and>
              fold (parsePair decodeURIComponent) ps obj = obj @ cs"
  using assms
proof (induction cs arbitrary: obj)
  case (Cons c cs)
  obtain k v where c: "c = (k, v)" by fastforce
  then have kv: "okName k" "wf16 v" using Cons.prems(1) by auto
  obtain e where e: "serialize k v noOptions = Inr (k @ 61 # e)" "okPair (k @ 61 # e)" "list_all plain e"
    "decodeURIComponent e = Some v" using serialize_default [OF kv] .
  have "fst ` set cs \<inter> fst ` set (obj @ [(k, v)]) = {}" using Cons.prems(2,3) c by (auto simp: image_iff)
  from Cons.IH [OF _ _ this] Cons.prems(1,2) obtain ps where
    ps: "map (\<lambda>(k, v). serialize k v noOptions) cs = map Inr ps" "list_all okPair ps"
      "fold (parsePair decodeURIComponent) ps (obj @ [(k, v)]) = (obj @ [(k, v)]) @ cs" by auto
  have "k \<notin> fst ` set obj" using Cons.prems(3) c by auto
  from parse_pair [OF kv(1) e(3) this]
  have "parsePair decodeURIComponent (k @ 61 # e) obj = obj @ [(k, v)]" by (simp add: tryDecode_def e(4))
  then show ?case
    using c e(1,2) ps by (intro exI [of _ "(k @ 61 # e) # ps"]) simp
qed simp

text \<open>
  C39. Cookies with distinct valid names and well-formed values, whatever characters the values hold,
  serialize without an error, and a header of the serialized pairs parses back to exactly these cookies,
  in order.
\<close>

theorem cookie_roundtrip:
  assumes "\<forall>(k, v) \<in> set cs. okName k \<and> wf16 v" "distinct (map fst cs)"
  shows "\<exists>ps. map (\<lambda>(k, v). serialize k v noOptions) cs = map Inr ps \<and>
              parseCookies decodeURIComponent (cookieHeader ps) = cs"
proof -
  obtain ps where ps: "map (\<lambda>(k, v). serialize k v noOptions) cs = map Inr ps" "list_all okPair ps"
    "fold (parsePair decodeURIComponent) ps [] = cs"
    using serialize_all [OF assms, of "[]"] by auto
  have "parseCookies decodeURIComponent (cookieHeader ps) = cs"
  proof (cases "ps = []")
    case True
    then show ?thesis using ps(3) by (simp add: parseCookies_def parsePair_def)
  next
    case False
    then show ?thesis using ps split_header by (simp add: parseCookies_def)
  qed
  then show ?thesis using ps(1) by blast
qed

theorem cookie_roundtrip_witness:
  "\<exists>ps. map (\<lambda>(k, v). serialize k v noOptions) [(cu ''sid'', cu ''a;b=\"c\"''), (cu ''lang'', [228, 55357, 56832])] = map Inr ps \<and>
        parseCookies decodeURIComponent (cookieHeader ps) =
          [(cu ''sid'', cu ''a;b=\"c\"''), (cu ''lang'', [228, 55357, 56832])]"
  by (rule cookie_roundtrip)
     (simp_all add: okName_def fieldContent_def fieldChar_def trimUnits_def isSpace_def inherited_def cu_def)

subsection \<open>What serialize can return\<close>

text \<open>
  \<^const>\<open>serialize\<close> fails exactly for an invalid argument, and a cookie it returns has no control character
  but the tabulator, provided \<^verbatim>\<open>toUTCString\<close> returns none: no caller can end the header line.
\<close>

definition siteOk :: "same_site \<Rightarrow> bool" where
  "siteOk x \<longleftrightarrow> (case x of NoSite \<Rightarrow> True | SiteTrue \<Rightarrow> True
     | SiteStr w \<Rightarrow> w = [] \<or> lowerUnits w = cu ''lax'' \<or> lowerUnits w = cu ''strict'' | SiteOther \<Rightarrow> False)"

lemma andThen_Inr: "andThen r k = Inr s \<longleftrightarrow> (\<exists>t. r = Inr t \<and> k t = Inr s)"
  by (auto simp: andThen_def split: sum.splits)

lemma andThen_ok:
  "(\<And>t. (\<exists>u. k t = Inr u) \<longleftrightarrow> P) \<Longrightarrow> (\<exists>s. andThen r k = Inr s) \<longleftrightarrow> (\<exists>t. r = Inr t) \<and> P"
  by (auto simp: andThen_Inr)

lemma add_ok:
  "(\<exists>u. addNameVal name val opt = Inr u) \<longleftrightarrow>
     fieldContent name \<and> (\<exists>v. co_encode opt val = Some v \<and> (v = [] \<or> fieldContent v))"
  "(\<exists>u. addMaxAge opt t = Inr u) \<longleftrightarrow> co_maxAge opt \<noteq> Some None"
  "(\<exists>u. addDomain opt t = Inr u) \<longleftrightarrow> co_domain opt = [] \<or> fieldContent (co_domain opt)"
  "(\<exists>u. addPath opt t = Inr u) \<longleftrightarrow> co_path opt = [] \<or> fieldContent (co_path opt)"
  "(\<exists>u. addExpires opt t = Inr u) \<longleftrightarrow> co_expires opt \<noteq> Some None"
  "(\<exists>u. addFlags opt t = Inr u) \<longleftrightarrow> True"
  "(\<exists>u. addSameSite opt t = Inr u) \<longleftrightarrow> siteOk (co_sameSite opt)"
  by (simp_all add: addNameVal_def addMaxAge_def addDomain_def addPath_def addExpires_def addFlags_def
      addSameSite_def siteOk_def split: option.splits same_site.splits)

lemma serialize_defined:
  "(\<exists>s. serialize name val opt = Inr s) \<longleftrightarrow>
     fieldContent name \<and> (\<exists>v. co_encode opt val = Some v \<and> (v = [] \<or> fieldContent v)) \<and>
     co_maxAge opt \<noteq> Some None \<and> (co_domain opt = [] \<or> fieldContent (co_domain opt)) \<and>
     (co_path opt = [] \<or> fieldContent (co_path opt)) \<and> co_expires opt \<noteq> Some None \<and> siteOk (co_sameSite opt)"
  unfolding serialize_def fold_simps comp_apply id_apply
  by (subst andThen_ok, rule add_ok)+ (simp only: add_ok(1) conj_assoc simp_thms)

lemma fieldChar_itoa: "list_all fieldChar (cu (itoa i))"
  by (auto simp: cu_def itoa_def list_all_iff isDigit_def fieldChar_def dest!: natStr_chars)

lemma fieldChar_attributes:
  "list_all (\<lambda>t. list_all fieldChar (cu t))
     [''; Max-Age='', ''; Domain='', ''; Path='', ''; Expires='', ''; HttpOnly'', ''; Secure'', ''; SameSite=Strict'',
      ''; SameSite=Lax'']"
  by (simp add: cu_def fieldChar_def)

lemma add_content:
  "addNameVal name val opt = Inr u \<Longrightarrow> fieldContent u"
  "addMaxAge opt t = Inr u \<Longrightarrow> fieldContent t \<Longrightarrow> fieldContent u"
  "addDomain opt t = Inr u \<Longrightarrow> fieldContent t \<Longrightarrow> fieldContent u"
  "addPath opt t = Inr u \<Longrightarrow> fieldContent t \<Longrightarrow> fieldContent u"
  "addFlags opt t = Inr u \<Longrightarrow> fieldContent t \<Longrightarrow> fieldContent u"
  "addSameSite opt t = Inr u \<Longrightarrow> fieldContent t \<Longrightarrow> fieldContent u"
  using fieldChar_itoa fieldChar_attributes
  by (auto simp: addNameVal_def addMaxAge_def addDomain_def addPath_def addFlags_def addSameSite_def fieldContent_def
      fieldChar_def [of 61] split: option.splits if_splits same_site.splits)

lemma serialize_content:
  assumes "serialize name val opt = Inr s" "\<And>d. co_expires opt = Some (Some d) \<Longrightarrow> list_all fieldChar d"
  shows "fieldContent s"
proof -
  have "addExpires opt t = Inr u \<Longrightarrow> fieldContent t \<Longrightarrow> fieldContent u" for t u
    using assms(2) fieldChar_attributes by (auto simp: addExpires_def fieldContent_def split: option.splits)
  note keep = add_content this
  have "\<exists>t1 t2 t3 t4 t5 t6. addNameVal name val opt = Inr t1 \<and> addMaxAge opt t1 = Inr t2 \<and> addDomain opt t2 = Inr t3 \<and>
      addPath opt t3 = Inr t4 \<and> addExpires opt t4 = Inr t5 \<and> addFlags opt t5 = Inr t6 \<and> addSameSite opt t6 = Inr s"
    using assms(1) unfolding serialize_def fold_simps comp_apply id_apply andThen_Inr by metis
  then show ?thesis using keep by metis
qed

end
