(* ===== verification/Swagger_Autolink.thy ===== *)
theory Swagger_Autolink
  imports Swagger_Cookie Swagger_Buffer
begin

text \<open>
  The link finder Autolinker of the Swagger UI distribution: what it makes of one candidate that its regular
  expression found (\<^verbatim>\<open>processCandidateMatch\<close> with its validator), the three kinds of match, and the HTML
  written for a match.  The regular expression is a parameter: its groups are the fields of a record, the
  empty list where a group did not take part.  Strings are lists of code units.
\<close>

subsection \<open>Characters and the small regular expressions\<close>

definition isAlpha :: "nat \<Rightarrow> bool" where
  "isAlpha n \<longleftrightarrow> 65 \<le> n \<and> n \<le> 90 \<or> 97 \<le> n \<and> n \<le> 122"

definition isWordChar :: "nat \<Rightarrow> bool" where
  "isWordChar n \<longleftrightarrow> isAlpha n \<or> 48 \<le> n \<and> n \<le> 57 \<or> n = 95"

text \<open>\<^verbatim>\<open>[-.+A-Za-z0-9]\<close>\<close>

definition schemeChar :: "nat \<Rightarrow> bool" where
  "schemeChar n \<longleftrightarrow> isAlpha n \<or> 48 \<le> n \<and> n \<le> 57 \<or> n \<in> {43, 45, 46}"

text \<open>\<^verbatim>\<open>uriSchemeRegex\<close>, \<^verbatim>\<open>/^[A-Za-z][-.+A-Za-z0-9]+:/\<close>: what it matches.\<close>

definition uriScheme :: "nat list \<Rightarrow> nat list option" where
  "uriScheme s =
     (let p = takeWhile schemeChar s; r = dropWhile schemeChar s
      in if 2 \<le> length p \<and> isAlpha (hd p) \<and> r \<noteq> [] \<and> hd r = 58 then Some (p @ [58]) else None)"

definition hasFullProtocol :: "nat list \<Rightarrow> bool" where
  "hasFullProtocol s = (case uriScheme s of None \<Rightarrow> False | Some p \<Rightarrow> take 2 (drop (length p) s) = [47, 47])"

text \<open>\<^verbatim>\<open>hasWordCharAfterProtocolRegex\<close>, \<^verbatim>\<open>/:[^\s]*?[A-Za-z]/\<close>.\<close>

fun hasWordCharAfterProtocol :: "nat list \<Rightarrow> bool" where
  "hasWordCharAfterProtocol [] \<longleftrightarrow> False"
| "hasWordCharAfterProtocol (c # cs) \<longleftrightarrow>
     c = 58 \<and> list_ex isAlpha (takeWhile (\<lambda>x. \<not> isSpace x) cs) \<or> hasWordCharAfterProtocol cs"

text \<open>\<^verbatim>\<open>charBeforeProtocolRelMatchRegex\<close>, \<^verbatim>\<open>/^(.)?\/\//\<close>: its group, empty if it took no part.\<close>

definition charBeforeProtocolRel :: "nat list \<Rightarrow> nat list option" where
  "charBeforeProtocolRel f =
     (if 3 \<le> length f \<and> take 2 (tl f) = [47, 47] \<and> hd f \<notin> {10, 13, 8232, 8233} then Some [hd f]
      else if take 2 f = [47, 47] then Some [] else None)"

subsection \<open>The validator\<close>

definition isValidUriScheme :: "nat list \<Rightarrow> js_error + bool" where
  "isValidUriScheme t =
     (case uriScheme t of
        None \<Rightarrow> Inl (JsTypeError ''match is null'')
      | Some p \<Rightarrow> Inr (lowerUnits p \<noteq> cu ''javascript:'' \<and> lowerUnits p \<noteq> cu ''vbscript:''))"

definition urlMatchDoesNotHaveProtocolOrDot :: "nat list \<Rightarrow> nat list \<Rightarrow> bool" where
  "urlMatchDoesNotHaveProtocolOrDot e t \<longleftrightarrow> \<not> (e = [] \<or> t \<noteq> [] \<and> hasFullProtocol t \<or> 46 \<in> set e)"

definition urlMatchDoesNotHaveAtLeastOneWordChar :: "nat list \<Rightarrow> nat list \<Rightarrow> bool" where
  "urlMatchDoesNotHaveAtLeastOneWordChar e t \<longleftrightarrow> \<not> (e = [] \<or> t = []) \<and> \<not> hasWordCharAfterProtocol e"

definition isInvalidProtocolRelativeMatch :: "nat list \<Rightarrow> bool" where
  "isInvalidProtocolRelativeMatch f \<longleftrightarrow> f \<noteq> [] \<and> isWordChar (hd f) \<and> take 2 (tl f) = [47, 47]"

definition isValidMatch :: "nat list \<Rightarrow> nat list \<Rightarrow> nat list \<Rightarrow> js_error + bool" where
  "isValidMatch e t f =
     (let rest = \<not> (urlMatchDoesNotHaveProtocolOrDot e t \<or> urlMatchDoesNotHaveAtLeastOneWordChar e t \<or>
                    isInvalidProtocolRelativeMatch f)
      in if t = [] then Inr rest
         else case isValidUriScheme t of Inl x \<Rightarrow> Inl x | Inr b \<Rightarrow> Inr (b \<and> rest))"

subsection \<open>Matches\<close>

record url_match =
  um_matchedText :: "nat list"
  um_url :: "nat list"
  um_protocolUrlMatch :: bool
  um_protocolRelativeMatch :: bool
  um_stripPrefix :: bool
  um_protocolPrepended :: bool

datatype auto_match =
    EmailMatch "nat list" "nat list"
  | TwitterMatch "nat list" "nat list"
  | UrlMatch url_match

fun getMatchedText :: "auto_match \<Rightarrow> nat list" where
  "getMatchedText (EmailMatch s e) = s"
| "getMatchedText (TwitterMatch s h) = s"
| "getMatchedText (UrlMatch m) = um_matchedText m"

text \<open>\<^verbatim>\<open>getUrl\<close> changes the match the first time.\<close>

definition getUrl :: "url_match \<Rightarrow> nat list \<times> url_match" where
  "getUrl m =
     (if um_protocolRelativeMatch m \<or> um_protocolUrlMatch m \<or> um_protocolPrepended m then (um_url m, m)
      else let e = cu ''http://'' @ um_url m in (e, m\<lparr>um_url := e, um_protocolPrepended := True\<rparr>))"

fun replaceAmp :: "nat list \<Rightarrow> nat list" where
  "replaceAmp [] = []"
| "replaceAmp (c # cs) =
     (if take 5 (c # cs) = cu ''&amp;'' then 38 # replaceAmp (drop 4 cs) else c # replaceAmp cs)"

fun getAnchorHref :: "auto_match \<Rightarrow> nat list \<times> auto_match" where
  "getAnchorHref (EmailMatch s e) = (cu ''mailto:'' @ e, EmailMatch s e)"
| "getAnchorHref (TwitterMatch s h) = (cu ''https://twitter.com/'' @ h, TwitterMatch s h)"
| "getAnchorHref (UrlMatch m) = (let (u, m') = getUrl m in (replaceAmp u, UrlMatch m'))"

text \<open>\<^verbatim>\<open>/^(https?:\/\/)?(www\.)?/i\<close> and \<^verbatim>\<open>/^\/\//\<close> removed.\<close>

definition dropPrefix :: "nat list \<Rightarrow> nat list \<Rightarrow> nat list" where
  "dropPrefix p s = (if lowerUnits (take (length p) s) = p then drop (length p) s else s)"

definition stripUrlPrefix :: "nat list \<Rightarrow> nat list" where
  "stripUrlPrefix s =
     (let s1 = (if lowerUnits (take 8 s) = cu ''https://'' then drop 8 s else dropPrefix (cu ''http://'') s)
      in dropPrefix (cu ''www.'') s1)"

definition stripProtocolRelativePrefix :: "nat list \<Rightarrow> nat list" where
  "stripProtocolRelativePrefix s = dropPrefix (cu ''//'') s"

definition removeTrailingSlash :: "nat list \<Rightarrow> nat list" where
  "removeTrailingSlash s = (if s \<noteq> [] \<and> last s = 47 then butlast s else s)"

fun getAnchorText :: "auto_match \<Rightarrow> nat list \<times> auto_match" where
  "getAnchorText (EmailMatch s e) = (e, EmailMatch s e)"
| "getAnchorText (TwitterMatch s h) = (64 # h, TwitterMatch s h)"
| "getAnchorText (UrlMatch m) =
     (let (u, m') = getUrl m;
          u1 = (if um_protocolRelativeMatch m then stripProtocolRelativePrefix u else u);
          u2 = (if um_stripPrefix m then stripUrlPrefix u1 else u1)
      in (removeTrailingSlash u2, UrlMatch m'))"

subsection \<open>A candidate\<close>

text \<open>The groups, named as the callback of \<^verbatim>\<open>replace\<close> receives them, and the options.\<close>

record candidate =
  ca_match :: "nat list"
  ca_twitter :: "nat list"
  ca_twitterPrefix :: "nat list"
  ca_handle :: "nat list"
  ca_email :: "nat list"
  ca_url :: "nat list"
  ca_protocolUrl :: "nat list"
  ca_wwwRel :: "nat list"
  ca_tldRel :: "nat list"

record parser_opts =
  mp_urls :: bool
  mp_email :: bool
  mp_twitter :: bool
  mp_stripPrefix :: bool

definition matchHasUnbalancedClosingParen :: "nat list \<Rightarrow> bool" where
  "matchHasUnbalancedClosingParen e \<longleftrightarrow>
     e \<noteq> [] \<and> last e = 41 \<and> length (filter (\<lambda>c. c = 40) e) < length (filter (\<lambda>c. c = 41) e)"

definition processCandidateMatch ::
  "parser_opts \<Rightarrow> candidate \<Rightarrow> js_error + (nat list \<times> nat list \<times> auto_match) option" where
  "processCandidateMatch opt c =
     (let f = (if ca_wwwRel c \<noteq> [] then ca_wwwRel c else ca_tldRel c)
      in if ca_twitter c \<noteq> [] \<and> \<not> mp_twitter opt \<or> ca_email c \<noteq> [] \<and> \<not> mp_email opt \<or> ca_url c \<noteq> [] \<and> \<not> mp_urls opt
         then Inr None
         else case isValidMatch (ca_url c) (ca_protocolUrl c) f of
                Inl x \<Rightarrow> Inl x
              | Inr False \<Rightarrow> Inr None
              | Inr True \<Rightarrow>
                  (let paren = matchHasUnbalancedClosingParen (ca_match c);
                       e = (if paren then butlast (ca_match c) else ca_match c);
                       d = (if paren then [41] else [])
                   in if ca_email c \<noteq> [] then Inr (Some ([], d, EmailMatch e (ca_email c)))
                      else if ca_twitter c \<noteq> []
                      then (if ca_twitterPrefix c \<noteq> []
                            then Inr (Some (ca_twitterPrefix c, d, TwitterMatch (tl e) (ca_handle c)))
                            else Inr (Some ([], d, TwitterMatch e (ca_handle c))))
                      else case (if f = [] then Some [] else charBeforeProtocolRel f) of
                             None \<Rightarrow> Inl (JsTypeError ''match is null'')
                           | Some h \<Rightarrow>
                               (let e1 = (if h \<noteq> [] then tl e else e)
                                in Inr (Some (h, d, UrlMatch
                                     \<lparr>um_matchedText = e1, um_url = e1, um_protocolUrlMatch = ca_protocolUrl c \<noteq> [],
                                      um_protocolRelativeMatch = f \<noteq> [], um_stripPrefix = mp_stripPrefix opt,
                                      um_protocolPrepended = False\<rparr>)))))"

subsection \<open>The link\<close>

text \<open>The builder of anchors; \<open>truncate\<close> is \<^term>\<open>None\<close> for an infinite length.\<close>

record builder_opts =
  ab_newWindow :: bool
  ab_truncate :: "nat option"
  ab_className :: "nat list"

definition ellipsis :: "nat list \<Rightarrow> nat option \<Rightarrow> nat list" where
  "ellipsis e t =
     (case t of None \<Rightarrow> e | Some n \<Rightarrow> if length e > n then take (n - 2) e @ cu ''..'' else e)"

fun getType :: "auto_match \<Rightarrow> nat list" where
  "getType (EmailMatch s e) = cu ''email''"
| "getType (TwitterMatch s h) = cu ''twitter''"
| "getType (UrlMatch m) = cu ''url''"

definition createCssClass :: "builder_opts \<Rightarrow> nat list \<Rightarrow> nat list" where
  "createCssClass b e = (if ab_className b = [] then [] else ab_className b @ [32] @ ab_className b @ [45] @ e)"

definition createAttrs :: "builder_opts \<Rightarrow> nat list \<Rightarrow> nat list \<Rightarrow> (nat list \<times> nat list) list" where
  "createAttrs b e href =
     [(cu ''href'', href)] @
     (let k = createCssClass b e in if k = [] then [] else [(cu ''class'', k)]) @
     (if ab_newWindow b then [(cu ''target'', cu ''_blank'')] else [])"

fun buildAttrsStr :: "(nat list \<times> nat list) list \<Rightarrow> nat list" where
  "buildAttrsStr [] = []"
| "buildAttrsStr [(n, v)] = n @ [61, 34] @ v @ [34]"
| "buildAttrsStr ((n, v) # a # as) = n @ [61, 34] @ v @ [34, 32] @ buildAttrsStr (a # as)"

definition tagString :: "nat list \<Rightarrow> (nat list \<times> nat list) list \<Rightarrow> nat list \<Rightarrow> nat list" where
  "tagString name attrs html =
     (let t = buildAttrsStr attrs
      in [60] @ name @ (if t = [] then [] else 32 # t) @ [62] @ html @ [60, 47] @ name @ [62])"

definition buildAnchor :: "builder_opts \<Rightarrow> auto_match \<Rightarrow> nat list" where
  "buildAnchor b m =
     (let (href, m1) = getAnchorHref m;
          (text, m2) = getAnchorText m1
      in tagString (cu ''a'') (createAttrs b (getType m) href) (ellipsis text (ab_truncate b)))"

text \<open>What \<^verbatim>\<open>replace\<close> puts in the place of a candidate, without a \<^verbatim>\<open>replaceFn\<close>.\<close>

definition linkifyCandidate :: "parser_opts \<Rightarrow> builder_opts \<Rightarrow> candidate \<Rightarrow> js_error + nat list" where
  "linkifyCandidate opt b c =
     (case processCandidateMatch opt c of
        Inl x \<Rightarrow> Inl x
      | Inr None \<Rightarrow> Inr (ca_match c)
      | Inr (Some (pre, suf, m)) \<Rightarrow> Inr (pre @ buildAnchor b m @ suf))"

subsection \<open>No script links\<close>

text \<open>What the regular expression promises of its groups.\<close>

definition groups_ok :: "candidate \<Rightarrow> bool" where
  "groups_ok c \<longleftrightarrow>
     (ca_twitter c \<noteq> [] \<longrightarrow>
        ca_match c = ca_twitterPrefix c @ 64 # ca_handle c \<and> length (ca_twitterPrefix c) \<le> 1 \<and>
        ca_handle c \<noteq> [] \<and> list_all isWordChar (ca_handle c)) \<and>
     (ca_protocolUrl c \<noteq> [] \<longrightarrow> take (length (ca_protocolUrl c)) (ca_match c) = ca_protocolUrl c) \<and>
     (let f = (if ca_wwwRel c \<noteq> [] then ca_wwwRel c else ca_tldRel c)
      in f \<noteq> [] \<longrightarrow> take (length f) (ca_match c) = f \<and> length f < length (ca_match c))"

definition scriptUrl :: "nat list \<Rightarrow> bool" where
  "scriptUrl s \<longleftrightarrow>
     (case uriScheme s of None \<Rightarrow> False | Some p \<Rightarrow> lowerUnits p = cu ''javascript:'' \<or> lowerUnits p = cu ''vbscript:'')"

lemma uriScheme_append: "uriScheme s = Some p \<Longrightarrow> uriScheme (s @ r) = Some p"
  by (auto simp: uriScheme_def Let_def takeWhile_append dropWhile_append hd_append split: if_splits)

lemma uriScheme_take: "uriScheme (take k s) = Some p \<Longrightarrow> uriScheme s = Some p"
  using uriScheme_append [of "take k s" p "drop k s"] by simp

lemma replaceAmp_scheme:
  "takeWhile schemeChar (replaceAmp s) = takeWhile schemeChar s \<and>
   hd (dropWhile schemeChar (replaceAmp s) @ [0]) = hd (dropWhile schemeChar s @ [0])"
proof (induction s)
  case (Cons c cs)
  have "\<not> schemeChar 38" by (simp add: schemeChar_def isAlpha_def)
  then show ?case using Cons by (auto simp: cu_def)
qed simp

lemma uriScheme_replaceAmp: "uriScheme (replaceAmp s) = uriScheme s"
proof -
  have h: "r \<noteq> [] \<and> hd r = 58 \<longleftrightarrow> hd (r @ [0]) = 58" for r :: "nat list" by (cases r) simp_all
  show ?thesis unfolding uriScheme_def Let_def h using replaceAmp_scheme by simp
qed

lemma slash_no_scheme: "hd s = 47 \<Longrightarrow> uriScheme s = None"
  by (cases s) (auto simp: uriScheme_def Let_def schemeChar_def isAlpha_def)

lemma http_scheme: "uriScheme (cu ''http://'' @ s) = Some (cu ''http:'')"
  by (simp add: uriScheme_def cu_def schemeChar_def isAlpha_def)

lemma mail_scheme: "uriScheme (cu ''mailto:'' @ s) = Some (cu ''mailto:'')"
  by (simp add: uriScheme_def cu_def schemeChar_def isAlpha_def)

lemma https_scheme: "uriScheme (cu ''https://twitter.com/'' @ s) = Some (cu ''https:'')"
  by (simp add: uriScheme_def cu_def schemeChar_def isAlpha_def)

lemma valid_scheme:
  "isValidMatch e t f = Inr True \<Longrightarrow> t \<noteq> [] \<Longrightarrow> \<exists>p. uriScheme t = Some p \<and> \<not> scriptUrl t"
  by (auto simp: isValidMatch_def isValidUriScheme_def scriptUrl_def Let_def split: option.splits sum.splits)

lemma charBefore_split:
  assumes "charBeforeProtocolRel f = Some h"
  obtains r where "f = h @ 47 # r" "length h \<le> 1"
proof -
  obtain x y z where "f = x # y # z" using assms
    by (cases f; cases "tl f") (auto simp: charBeforeProtocolRel_def split: if_splits)
  then show ?thesis using assms that
    by (cases z) (auto simp: charBeforeProtocolRel_def numeral_2_eq_2 split: if_splits)
qed

lemma take_prefix: "take (length f) s = f \<Longrightarrow> \<exists>r. s = f @ r"
  by (metis append_take_drop_id)

lemma paren_word: "matchHasUnbalancedClosingParen s \<Longrightarrow> last s = 41 \<and> s \<noteq> [] \<and> butlast s @ [41] = s"
  using append_butlast_last_id [of s] by (auto simp: matchHasUnbalancedClosingParen_def)

lemma href_url:
  assumes "um_protocolRelativeMatch m \<Longrightarrow> hd (um_url m) = 47" "\<not> um_protocolPrepended m"
    and "um_protocolUrlMatch m \<Longrightarrow> \<not> um_protocolRelativeMatch m \<Longrightarrow> \<not> scriptUrl (um_url m)"
  shows "\<not> scriptUrl (fst (getAnchorHref (UrlMatch m)))"
proof -
  have "um_protocolRelativeMatch m \<Longrightarrow> \<not> scriptUrl (um_url m)"
    using assms(1) slash_no_scheme [of "um_url m"] by (simp add: scriptUrl_def)
  moreover have "\<not> scriptUrl (cu ''http://'' @ um_url m)"
    unfolding scriptUrl_def http_scheme by (simp add: cu_def lowerUnits_def)
  ultimately have "\<not> scriptUrl (fst (getUrl m))" using assms(2,3) by (auto simp: getUrl_def Let_def)
  then show ?thesis by (cases "getUrl m") (simp add: scriptUrl_def uriScheme_replaceAmp)
qed

lemma rel_split:
  assumes "take (length f) s = f" "length f < length s" "charBeforeProtocolRel f = Some h" "e = s \<or> e = butlast s"
  shows "hd (if h \<noteq> [] then tl e else e) = 47 \<and> h @ (if h \<noteq> [] then tl e else e) = e"
proof -
  obtain x where x: "f = h @ 47 # x" "length h \<le> 1" using charBefore_split [OF assms(3)] .
  obtain y where y: "s = f @ y" using take_prefix [OF assms(1)] by blast
  then have "y \<noteq> []" using assms(2) by auto
  then have "e = f @ y \<or> e = f @ butlast y" using assms(4) y by (auto simp: butlast_append)
  then show ?thesis using x by (cases h) auto
qed

lemma proto_safe:
  assumes "isValidMatch a t f = Inr True" "t \<noteq> []" "take (length t) s = t" "e @ d = s"
  shows "\<not> scriptUrl e"
proof -
  obtain p where p: "uriScheme t = Some p" "\<not> scriptUrl t" using valid_scheme [OF assms(1,2)] by blast
  then have "uriScheme s = Some p" using uriScheme_take assms(3) by metis
  moreover have "uriScheme e = Some q \<Longrightarrow> uriScheme s = Some q" for q using uriScheme_append assms(4) by metis
  ultimately show ?thesis using p by (auto simp: scriptUrl_def split: option.splits)
qed

lemma twitter_part:
  assumes "ca_twitter c \<noteq> []" "groups_ok c"
  shows "\<not> matchHasUnbalancedClosingParen (ca_match c)"
    and "ca_twitterPrefix c @ (if ca_twitterPrefix c \<noteq> [] then tl (ca_match c) else ca_match c) = ca_match c"
proof -
  let ?h = "ca_handle c"
  have t: "ca_match c = ca_twitterPrefix c @ 64 # ?h" "length (ca_twitterPrefix c) \<le> 1" "?h \<noteq> []" "list_all isWordChar ?h"
    using assms by (auto simp: groups_ok_def)
  have "isWordChar (last ?h)" using t(3,4) by (simp add: list_all_iff)
  then show "\<not> matchHasUnbalancedClosingParen (ca_match c)" using t(1,3) paren_word [of "ca_match c"]
    by (auto simp: isWordChar_def isAlpha_def)
  show "ca_twitterPrefix c @ (if ca_twitterPrefix c \<noteq> [] then tl (ca_match c) else ca_match c) = ca_match c"
    using t(1,2) by (cases "ca_twitterPrefix c") auto
qed

lemma fixed_schemes:
  "\<not> scriptUrl (cu ''mailto:'' @ s)" "\<not> scriptUrl (cu ''https://twitter.com/'' @ s)"
  unfolding scriptUrl_def mail_scheme https_scheme by (simp_all add: cu_def lowerUnits_def)

text \<open>
  C40. The link made of a candidate never names a \<^verbatim>\<open>javascript:\<close> or \<^verbatim>\<open>vbscript:\<close> address, in whatever case the
  scheme is written, and prefix, matched text and suffix together are the candidate.
\<close>

theorem autolink_safe:
  assumes "processCandidateMatch opt c = Inr (Some (pre, suf, m))" "groups_ok c"
  shows "\<not> scriptUrl (fst (getAnchorHref m)) \<and> pre @ getMatchedText m @ suf = ca_match c"
proof -
  define f where "f = (if ca_wwwRel c \<noteq> [] then ca_wwwRel c else ca_tldRel c)"
  define paren where "paren = matchHasUnbalancedClosingParen (ca_match c)"
  define e where "e = (if paren then butlast (ca_match c) else ca_match c)"
  define d where "d = (if paren then [41] else [] :: nat list)"
  have e: "e @ d = ca_match c" "e = ca_match c \<or> e = butlast (ca_match c)"
    using paren_word [of "ca_match c"] by (auto simp: e_def d_def paren_def)
  note r = assms(1) [unfolded processCandidateMatch_def Let_def, folded f_def paren_def, folded e_def d_def]
  have v: "isValidMatch (ca_url c) (ca_protocolUrl c) f = Inr True"
    using r by (auto split: if_splits sum.splits bool.splits)
  consider "ca_email c \<noteq> []" | "ca_email c = []" "ca_twitter c \<noteq> []" | "ca_email c = []" "ca_twitter c = []" by blast
  then show ?thesis
  proof cases
    case 1
    then have "pre = []" "suf = d" "m = EmailMatch e (ca_email c)" using r v by (auto split: if_splits)
    then show ?thesis using e(1) fixed_schemes(1) by simp
  next
    case 2
    have n: "e = ca_match c" "d = []" using twitter_part(1) [OF 2(2) assms(2)] by (simp_all add: e_def d_def paren_def)
    have "pre = ca_twitterPrefix c" "suf = d" "getMatchedText m = (if ca_twitterPrefix c \<noteq> [] then tl e else e)"
      "fst (getAnchorHref m) = cu ''https://twitter.com/'' @ ca_handle c"
      using r v 2 by (auto split: if_splits)
    then show ?thesis using n twitter_part(2) [OF 2(2) assms(2)] fixed_schemes(2) by (auto split: if_splits)
  next
    case 3
    obtain h where h: "(if f = [] then Some [] else charBeforeProtocolRel f) = Some h"
      using r v 3 by (cases "if f = [] then Some [] else charBeforeProtocolRel f") (auto split: if_splits)
    let ?e = "if h \<noteq> [] then tl e else e"
    have m: "pre = h" "suf = d" "m = UrlMatch
        \<lparr>um_matchedText = ?e, um_url = ?e, um_protocolUrlMatch = ca_protocolUrl c \<noteq> [],
         um_protocolRelativeMatch = f \<noteq> [], um_stripPrefix = mp_stripPrefix opt, um_protocolPrepended = False\<rparr>"
      using r v 3 h by (auto split: if_splits)
    have g: "f \<noteq> [] \<Longrightarrow> take (length f) (ca_match c) = f \<and> length f < length (ca_match c)"
      "ca_protocolUrl c \<noteq> [] \<Longrightarrow> take (length (ca_protocolUrl c)) (ca_match c) = ca_protocolUrl c"
      using assms(2) unfolding groups_ok_def Let_def f_def [symmetric] by blast+
    have rel: "f \<noteq> [] \<Longrightarrow> hd ?e = 47 \<and> h @ ?e = e" using rel_split [of f "ca_match c" h e] g(1) h e(2) by auto
    have "ca_protocolUrl c \<noteq> [] \<Longrightarrow> f = [] \<Longrightarrow> \<not> scriptUrl ?e" using proto_safe [OF v _ _ e(1)] g(2) h by auto
    then have "\<not> scriptUrl (fst (getAnchorHref m))" unfolding m(3) using rel by (intro href_url) simp_all
    moreover have "h @ ?e = e" using rel h by (cases "f = []") auto
    then have "pre @ getMatchedText m @ suf = ca_match c" unfolding m e(1) [symmetric] append_assoc [symmetric] by simp
    ultimately show ?thesis by blast
  qed
qed

lemmas run_defs =
  processCandidateMatch_def isValidMatch_def isValidUriScheme_def urlMatchDoesNotHaveProtocolOrDot_def
  urlMatchDoesNotHaveAtLeastOneWordChar_def isInvalidProtocolRelativeMatch_def hasFullProtocol_def uriScheme_def
  matchHasUnbalancedClosingParen_def schemeChar_def isAlpha_def isSpace_def lowerUnits_def cu_def Let_def

text \<open>The address in \<^verbatim>\<open>(http://a.b/c)\<close>, where the regular expression takes the closing parenthesis along.\<close>

definition sampleCandidate :: candidate where
  "sampleCandidate =
     \<lparr>ca_match = cu ''http://a.b/c)'', ca_twitter = [], ca_twitterPrefix = [], ca_handle = [], ca_email = [],
      ca_url = cu ''http://a.b/c)'', ca_protocolUrl = cu ''http://a.b'', ca_wwwRel = [], ca_tldRel = []\<rparr>"

definition sampleMatch :: auto_match where
  "sampleMatch = UrlMatch
     \<lparr>um_matchedText = cu ''http://a.b/c'', um_url = cu ''http://a.b/c'', um_protocolUrlMatch = True,
      um_protocolRelativeMatch = False, um_stripPrefix = True, um_protocolPrepended = False\<rparr>"

lemma sample_processed:
  "processCandidateMatch \<lparr>mp_urls = True, mp_email = True, mp_twitter = True, mp_stripPrefix = True\<rparr> sampleCandidate =
     Inr (Some ([], [41], sampleMatch))"
  by (simp add: sampleCandidate_def sampleMatch_def run_defs)

lemma sample_groups: "groups_ok sampleCandidate"
  by (simp add: sampleCandidate_def groups_ok_def cu_def)

theorem autolink_safe_witness:
  "\<not> scriptUrl (fst (getAnchorHref sampleMatch)) \<and> [] @ getMatchedText sampleMatch @ [41] = ca_match sampleCandidate"
  by (rule autolink_safe [OF sample_processed sample_groups])

text \<open>A script address is left as it is.\<close>

lemma script_left_alone:
  "linkifyCandidate \<lparr>mp_urls = True, mp_email = True, mp_twitter = True, mp_stripPrefix = True\<rparr>
     \<lparr>ab_newWindow = True, ab_truncate = None, ab_className = []\<rparr>
     (sampleCandidate\<lparr>ca_match := cu ''JavaScript:alert.x'', ca_url := cu ''JavaScript:alert.x'', ca_protocolUrl := cu ''JavaScript:alert.x''\<rparr>) =
   Inr (cu ''JavaScript:alert.x'')"
  by (simp add: sampleCandidate_def linkifyCandidate_def run_defs)

end
