(* ===== verification/Errors.thy ===== *)
theory Errors
  imports Prelude
begin

text \<open>
  Return codes, error records and Go \<^verbatim>\<open>error\<close> values: package \<^verbatim>\<open>translib/tlerr\<close>, the code
  tables of \<^verbatim>\<open>cvl/cvl_api.go\<close> and \<^verbatim>\<open>cvl/internal/yparser\<close>, and the HTTP errors of
  \<^verbatim>\<open>rest/server/error.go\<close>.  A Go call that returns \<^verbatim>\<open>error\<close> returns a
  \<^verbatim>\<open>go_error option\<close> here: \<^term>\<open>None\<close> is \<^verbatim>\<open>nil\<close>.
\<close>

subsection \<open>Return codes\<close>

datatype YParserRetCode =
    YP_SUCCESS | YP_SYNTAX_ERROR | YP_SEMANTIC_ERROR | YP_SYNTAX_MISSING_FIELD
  | YP_SYNTAX_INVALID_FIELD | YP_SYNTAX_INVALID_INPUT_DATA | YP_SYNTAX_MULTIPLE_INSTANCE
  | YP_SYNTAX_DUPLICATE | YP_SYNTAX_ENUM_INVALID | YP_SYNTAX_ENUM_INVALID_NAME
  | YP_SYNTAX_ENUM_WHITESPACE | YP_SYNTAX_OUT_OF_RANGE | YP_SYNTAX_MINIMUM_INVALID
  | YP_SYNTAX_MAXIMUM_INVALID | YP_SEMANTIC_DEPENDENT_DATA_MISSING
  | YP_SEMANTIC_MANDATORY_DATA_MISSING | YP_SEMANTIC_KEY_ALREADY_EXIST
  | YP_SEMANTIC_KEY_NOT_EXIST | YP_SEMANTIC_KEY_DUPLICATE | YP_SEMANTIC_KEY_INVALID
  | YP_INTERNAL_UNKNOWN

fun ypCode :: "YParserRetCode \<Rightarrow> int" where
  "ypCode YP_SUCCESS = 1000"
| "ypCode YP_SYNTAX_ERROR = 1001"
| "ypCode YP_SEMANTIC_ERROR = 1002"
| "ypCode YP_SYNTAX_MISSING_FIELD = 1003"
| "ypCode YP_SYNTAX_INVALID_FIELD = 1004"
| "ypCode YP_SYNTAX_INVALID_INPUT_DATA = 1005"
| "ypCode YP_SYNTAX_MULTIPLE_INSTANCE = 1006"
| "ypCode YP_SYNTAX_DUPLICATE = 1007"
| "ypCode YP_SYNTAX_ENUM_INVALID = 1008"
| "ypCode YP_SYNTAX_ENUM_INVALID_NAME = 1009"
| "ypCode YP_SYNTAX_ENUM_WHITESPACE = 1010"
| "ypCode YP_SYNTAX_OUT_OF_RANGE = 1011"
| "ypCode YP_SYNTAX_MINIMUM_INVALID = 1012"
| "ypCode YP_SYNTAX_MAXIMUM_INVALID = 1013"
| "ypCode YP_SEMANTIC_DEPENDENT_DATA_MISSING = 1014"
| "ypCode YP_SEMANTIC_MANDATORY_DATA_MISSING = 1015"
| "ypCode YP_SEMANTIC_KEY_ALREADY_EXIST = 1016"
| "ypCode YP_SEMANTIC_KEY_NOT_EXIST = 1017"
| "ypCode YP_SEMANTIC_KEY_DUPLICATE = 1018"
| "ypCode YP_SEMANTIC_KEY_INVALID = 1019"
| "ypCode YP_INTERNAL_UNKNOWN = 1020"

text \<open>
  \<^verbatim>\<open>CVLRetCode\<close> is an \<^verbatim>\<open>int\<close> with named constants; \<open>CVL_CODE n\<close> stands for an \<^verbatim>\<open>int\<close> that is
  none of them.  The syntax and semantics codes are the parser's codes, cast.
\<close>

datatype CVLRetCode =
    CVL_SUCCESS | CVL_ERROR | CVL_NOT_IMPLEMENTED | CVL_INTERNAL_UNKNOWN | CVL_FAILURE
  | CVL_SYNTAX_ERROR | CVL_SEMANTIC_ERROR | CVL_SYNTAX_MISSING_FIELD
  | CVL_SYNTAX_INVALID_FIELD | CVL_SYNTAX_INVALID_INPUT_DATA | CVL_SYNTAX_MULTIPLE_INSTANCE
  | CVL_SYNTAX_DUPLICATE | CVL_SYNTAX_ENUM_INVALID | CVL_SYNTAX_ENUM_INVALID_NAME
  | CVL_SYNTAX_ENUM_WHITESPACE | CVL_SYNTAX_OUT_OF_RANGE | CVL_SYNTAX_MINIMUM_INVALID
  | CVL_SYNTAX_MAXIMUM_INVALID | CVL_SEMANTIC_DEPENDENT_DATA_MISSING
  | CVL_SEMANTIC_MANDATORY_DATA_MISSING | CVL_SEMANTIC_KEY_ALREADY_EXIST
  | CVL_SEMANTIC_KEY_NOT_EXIST | CVL_SEMANTIC_KEY_DUPLICATE | CVL_SEMANTIC_KEY_INVALID
  | CVL_CODE int

fun cvlCode :: "CVLRetCode \<Rightarrow> int" where
  "cvlCode CVL_SUCCESS = 0"
| "cvlCode CVL_ERROR = 1"
| "cvlCode CVL_NOT_IMPLEMENTED = 2"
| "cvlCode CVL_INTERNAL_UNKNOWN = 3"
| "cvlCode CVL_FAILURE = 4"
| "cvlCode CVL_SYNTAX_ERROR = ypCode YP_SYNTAX_ERROR"
| "cvlCode CVL_SEMANTIC_ERROR = ypCode YP_SEMANTIC_ERROR"
| "cvlCode CVL_SYNTAX_MISSING_FIELD = ypCode YP_SYNTAX_MISSING_FIELD"
| "cvlCode CVL_SYNTAX_INVALID_FIELD = ypCode YP_SYNTAX_INVALID_FIELD"
| "cvlCode CVL_SYNTAX_INVALID_INPUT_DATA = ypCode YP_SYNTAX_INVALID_INPUT_DATA"
| "cvlCode CVL_SYNTAX_MULTIPLE_INSTANCE = ypCode YP_SYNTAX_MULTIPLE_INSTANCE"
| "cvlCode CVL_SYNTAX_DUPLICATE = ypCode YP_SYNTAX_DUPLICATE"
| "cvlCode CVL_SYNTAX_ENUM_INVALID = ypCode YP_SYNTAX_ENUM_INVALID"
| "cvlCode CVL_SYNTAX_ENUM_INVALID_NAME = ypCode YP_SYNTAX_ENUM_INVALID_NAME"
| "cvlCode CVL_SYNTAX_ENUM_WHITESPACE = ypCode YP_SYNTAX_ENUM_WHITESPACE"
| "cvlCode CVL_SYNTAX_OUT_OF_RANGE = ypCode YP_SYNTAX_OUT_OF_RANGE"
| "cvlCode CVL_SYNTAX_MINIMUM_INVALID = ypCode YP_SYNTAX_MINIMUM_INVALID"
| "cvlCode CVL_SYNTAX_MAXIMUM_INVALID = ypCode YP_SYNTAX_MAXIMUM_INVALID"
| "cvlCode CVL_SEMANTIC_DEPENDENT_DATA_MISSING = ypCode YP_SEMANTIC_DEPENDENT_DATA_MISSING"
| "cvlCode CVL_SEMANTIC_MANDATORY_DATA_MISSING = ypCode YP_SEMANTIC_MANDATORY_DATA_MISSING"
| "cvlCode CVL_SEMANTIC_KEY_ALREADY_EXIST = ypCode YP_SEMANTIC_KEY_ALREADY_EXIST"
| "cvlCode CVL_SEMANTIC_KEY_NOT_EXIST = ypCode YP_SEMANTIC_KEY_NOT_EXIST"
| "cvlCode CVL_SEMANTIC_KEY_DUPLICATE = ypCode YP_SEMANTIC_KEY_DUPLICATE"
| "cvlCode CVL_SEMANTIC_KEY_INVALID = ypCode YP_SEMANTIC_KEY_INVALID"
| "cvlCode (CVL_CODE n) = n"

text \<open>The cast \<^verbatim>\<open>CVLRetCode(n)\<close>: the constant of that value, if there is one.\<close>

definition cvlConstants :: "CVLRetCode list" where
  "cvlConstants =
     [CVL_SUCCESS, CVL_ERROR, CVL_NOT_IMPLEMENTED, CVL_INTERNAL_UNKNOWN, CVL_FAILURE,
      CVL_SYNTAX_ERROR, CVL_SEMANTIC_ERROR, CVL_SYNTAX_MISSING_FIELD, CVL_SYNTAX_INVALID_FIELD,
      CVL_SYNTAX_INVALID_INPUT_DATA, CVL_SYNTAX_MULTIPLE_INSTANCE, CVL_SYNTAX_DUPLICATE,
      CVL_SYNTAX_ENUM_INVALID, CVL_SYNTAX_ENUM_INVALID_NAME, CVL_SYNTAX_ENUM_WHITESPACE,
      CVL_SYNTAX_OUT_OF_RANGE, CVL_SYNTAX_MINIMUM_INVALID, CVL_SYNTAX_MAXIMUM_INVALID,
      CVL_SEMANTIC_DEPENDENT_DATA_MISSING, CVL_SEMANTIC_MANDATORY_DATA_MISSING,
      CVL_SEMANTIC_KEY_ALREADY_EXIST, CVL_SEMANTIC_KEY_NOT_EXIST, CVL_SEMANTIC_KEY_DUPLICATE,
      CVL_SEMANTIC_KEY_INVALID]"

definition toCVLRetCode :: "int \<Rightarrow> CVLRetCode" where
  "toCVLRetCode n =
     (case find (\<lambda>c. cvlCode c = n) cvlConstants of Some c \<Rightarrow> c | None \<Rightarrow> CVL_CODE n)"

text \<open>\<^verbatim>\<open>cvlErrorMap\<close>, and \<^verbatim>\<open>GetErrorString\<close>, which reads it.\<close>

definition cvlErrorMap :: "(CVLRetCode, string) gomap" where
  "cvlErrorMap =
     [(CVL_SUCCESS, ''Config Validation Success''),
      (CVL_SYNTAX_ERROR, ''Config Validation Syntax Error''),
      (CVL_SEMANTIC_ERROR, ''Config Validation Semantic Error''),
      (CVL_SYNTAX_MISSING_FIELD, ''Required Field is Missing''),
      (CVL_SYNTAX_INVALID_FIELD, ''Invalid Field Received''),
      (CVL_SYNTAX_INVALID_INPUT_DATA, ''Invalid Input Data Received''),
      (CVL_SYNTAX_MULTIPLE_INSTANCE, ''Multiple Field Instances Received''),
      (CVL_SYNTAX_DUPLICATE, ''Duplicate Instances Received''),
      (CVL_SYNTAX_ENUM_INVALID, ''Invalid Enum Value Received''),
      (CVL_SYNTAX_ENUM_INVALID_NAME, ''Invalid Enum Value Received''),
      (CVL_SYNTAX_ENUM_WHITESPACE, ''Enum name with leading/trailing whitespaces Received''),
      (CVL_SYNTAX_OUT_OF_RANGE, ''Value out of range/length/pattern (data)''),
      (CVL_SYNTAX_MINIMUM_INVALID, ''min-elements constraint not honored''),
      (CVL_SYNTAX_MAXIMUM_INVALID, ''max-elements constraint not honored''),
      (CVL_SEMANTIC_DEPENDENT_DATA_MISSING, ''Dependent Data is missing''),
      (CVL_SEMANTIC_MANDATORY_DATA_MISSING, ''Mandatory Data is missing''),
      (CVL_SEMANTIC_KEY_ALREADY_EXIST, ''Key already existing.''),
      (CVL_SEMANTIC_KEY_NOT_EXIST, ''Key is missing.''),
      (CVL_SEMANTIC_KEY_DUPLICATE, ''Duplicate key received''),
      (CVL_SEMANTIC_KEY_INVALID, ''Invalid Key Received''),
      (CVL_INTERNAL_UNKNOWN, ''Internal Unknown Error''),
      (CVL_ERROR, ''Generic Error''),
      (CVL_NOT_IMPLEMENTED, ''Error Not Implemented''),
      (CVL_FAILURE, ''Generic Failure'')]"

definition GetErrorString :: "CVLRetCode \<Rightarrow> string" where
  "GetErrorString c = mapStr cvlErrorMap c"

subsection \<open>Error records and the edit request\<close>

record CVLErrorInfo =
  ei_TableName :: string
  ei_ErrCode :: CVLRetCode
  ei_CVLErrDetails :: string
  ei_Keys :: "string list"
  ei_Value :: string
  ei_Field :: string
  ei_Msg :: string
  ei_ConstraintErrMsg :: string
  ei_ErrAppTag :: string

definition emptyErrorInfo :: CVLErrorInfo where
  "emptyErrorInfo = \<lparr>ei_TableName = [], ei_ErrCode = CVL_SUCCESS, ei_CVLErrDetails = [],
     ei_Keys = [], ei_Value = [], ei_Field = [], ei_Msg = [], ei_ConstraintErrMsg = [],
     ei_ErrAppTag = []\<rparr>"

record YParserError =
  yp_ErrCode :: YParserRetCode
  yp_TableName :: string
  yp_Keys :: "string list"
  yp_Value :: string
  yp_Field :: string
  yp_Msg :: string
  yp_ErrTxt :: string
  yp_ErrAppTag :: string

definition createCVLErrObj :: "YParserError \<Rightarrow> CVLErrorInfo" where
  "createCVLErrObj errObj =
     (let code = toCVLRetCode (ypCode (yp_ErrCode errObj)) in
      \<lparr>ei_TableName = yp_TableName errObj, ei_ErrCode = code,
       ei_CVLErrDetails = mapStr cvlErrorMap code, ei_Keys = yp_Keys errObj,
       ei_Value = yp_Value errObj, ei_Field = yp_Field errObj, ei_Msg = yp_Msg errObj,
       ei_ConstraintErrMsg = yp_ErrTxt errObj, ei_ErrAppTag = yp_ErrAppTag errObj\<rparr>)"

datatype CVLValidateType = VALIDATE_NONE | VALIDATE_SYNTAX | VALIDATE_SEMANTICS | VALIDATE_ALL

datatype CVLOperation = OP_NONE | OP_CREATE | OP_UPDATE | OP_DELETE

record CVLEditConfigData =
  VType :: CVLValidateType
  VOp :: CVLOperation
  cfgKey :: string
  cfgData :: fields

subsection \<open>Go errors\<close>

record errordata =
  errFormat :: string
  errArgs :: "string list"
  errPath :: string

datatype go_error =
    ErrorString string
  | HttpErrorType nat string
  | TranslibDBCannotOpen
  | TranslibDBNotInit
  | TranslibRedisClientEntryNotExist string
  | TranslibCVLFailure int CVLErrorInfo
  | TranslibTransactionFail
  | TranslibDBSubscribeFail
  | TranslibSyntaxValidationError int go_error
  | InvalidArgsError errordata
  | NotFoundError errordata
  | AlreadyExistsError errordata
  | NotSupportedError errordata
  | InternalError errordata
  | AuthorizationError errordata

text \<open>Constructors of \<^verbatim>\<open>tlerr/app_errors.go\<close>: message and arguments, no path.\<close>

definition InvalidArgs :: "string \<Rightarrow> string list \<Rightarrow> go_error" where
  "InvalidArgs msg args = InvalidArgsError \<lparr>errFormat = msg, errArgs = args, errPath = []\<rparr>"

definition NotFound :: "string \<Rightarrow> string list \<Rightarrow> go_error" where
  "NotFound msg args = NotFoundError \<lparr>errFormat = msg, errArgs = args, errPath = []\<rparr>"

definition AlreadyExists :: "string \<Rightarrow> string list \<Rightarrow> go_error" where
  "AlreadyExists msg args = AlreadyExistsError \<lparr>errFormat = msg, errArgs = args, errPath = []\<rparr>"

definition NotSupported :: "string \<Rightarrow> string list \<Rightarrow> go_error" where
  "NotSupported msg args = NotSupportedError \<lparr>errFormat = msg, errArgs = args, errPath = []\<rparr>"

definition NewInternalError :: "string \<Rightarrow> string list \<Rightarrow> go_error" where
  "NewInternalError msg args = InternalError \<lparr>errFormat = msg, errArgs = args, errPath = []\<rparr>"

definition isNotFoundError :: "go_error option \<Rightarrow> bool" where
  "isNotFoundError err =
     (case err of
        Some (TranslibRedisClientEntryNotExist _) \<Rightarrow> True
      | Some (NotFoundError _) \<Rightarrow> True
      | _ \<Rightarrow> False)"

subsection \<open>The code tables agree\<close>

lemma cvlCode_inverse: "list_all (\<lambda>c. toCVLRetCode (cvlCode c) = c) cvlConstants"
  by code_simp

lemma cvlCode_find: "c \<in> set cvlConstants \<Longrightarrow> toCVLRetCode (cvlCode c) = c"
  using cvlCode_inverse by (simp add: list_all_iff)

lemma cvlErrorMap_keys: "list_all (mapHas cvlErrorMap) cvlConstants"
  by code_simp

lemma GetErrorString_nonempty: "list_all (\<lambda>c. GetErrorString c \<noteq> []) cvlConstants"
  by code_simp

text \<open>
  Every parser code but two has a CVL constant of the same value.  The two are the parser's
  success code (1000, where CVL has 0) and \<^verbatim>\<open>YP_INTERNAL_UNKNOWN\<close> (1020, where CVL has 3).
\<close>

definition ypConstants :: "YParserRetCode list" where
  "ypConstants =
     [YP_SUCCESS, YP_SYNTAX_ERROR, YP_SEMANTIC_ERROR, YP_SYNTAX_MISSING_FIELD,
      YP_SYNTAX_INVALID_FIELD, YP_SYNTAX_INVALID_INPUT_DATA, YP_SYNTAX_MULTIPLE_INSTANCE,
      YP_SYNTAX_DUPLICATE, YP_SYNTAX_ENUM_INVALID, YP_SYNTAX_ENUM_INVALID_NAME,
      YP_SYNTAX_ENUM_WHITESPACE, YP_SYNTAX_OUT_OF_RANGE, YP_SYNTAX_MINIMUM_INVALID,
      YP_SYNTAX_MAXIMUM_INVALID, YP_SEMANTIC_DEPENDENT_DATA_MISSING,
      YP_SEMANTIC_MANDATORY_DATA_MISSING, YP_SEMANTIC_KEY_ALREADY_EXIST,
      YP_SEMANTIC_KEY_NOT_EXIST, YP_SEMANTIC_KEY_DUPLICATE, YP_SEMANTIC_KEY_INVALID,
      YP_INTERNAL_UNKNOWN]"

lemma ypConstants_all: "y \<in> set ypConstants"
  by (cases y; simp add: ypConstants_def)

lemma yp_cast:
  "filter (\<lambda>y. toCVLRetCode (ypCode y) \<notin> set cvlConstants) ypConstants = [YP_SUCCESS, YP_INTERNAL_UNKNOWN]"
  by code_simp

lemma yp_cast_not_success: "toCVLRetCode (ypCode y) \<noteq> CVL_SUCCESS"
proof -
  have "list_all (\<lambda>y. toCVLRetCode (ypCode y) \<noteq> CVL_SUCCESS) ypConstants"
    by code_simp
  with ypConstants_all [of y] show ?thesis by (simp add: list_all_iff)
qed

end
