(* ===== verification/Db_Keys.thy ===== *)
theory Db_Keys
  imports Errors Go_Strconv
begin

text \<open>
  The data of package \<^verbatim>\<open>translib/db\<close> (\<^verbatim>\<open>db.go\<close>, \<^verbatim>\<open>subscribe.go\<close>): database numbers, options,
  table specifications, keys, values, and the two codecs that turn a key into a Redis key or a
  keyspace channel and back.  A codec is a locale; both are instances of it.
\<close>

subsection \<open>Database numbers and options\<close>

datatype DBNum =
    ApplDB | AsicDB | CountersDB | LogLevelDB | ConfigDB
  | FlexCounterDB | StateDB | SnmpDB | ErrorDB | UserDB

fun dbNumInt :: "DBNum \<Rightarrow> nat" where
  "dbNumInt ApplDB = 0"
| "dbNumInt AsicDB = 1"
| "dbNumInt CountersDB = 2"
| "dbNumInt LogLevelDB = 3"
| "dbNumInt ConfigDB = 4"
| "dbNumInt FlexCounterDB = 5"
| "dbNumInt StateDB = 6"
| "dbNumInt SnmpDB = 7"
| "dbNumInt ErrorDB = 8"
| "dbNumInt UserDB = 9"

definition MaxDB :: nat where
  "MaxDB = 10"

lemma dbNumInt_inj [simp]: "dbNumInt a = dbNumInt b \<longleftrightarrow> a = b"
  by (cases a; cases b; simp)

lemma dbNumInt_less_MaxDB: "dbNumInt n < MaxDB"
  by (cases n; simp add: MaxDB_def)

instantiation DBNum :: linorder
begin

definition less_eq_DBNum :: "DBNum \<Rightarrow> DBNum \<Rightarrow> bool" where
  "less_eq_DBNum a b \<longleftrightarrow> dbNumInt a \<le> dbNumInt b"

definition less_DBNum :: "DBNum \<Rightarrow> DBNum \<Rightarrow> bool" where
  "less_DBNum a b \<longleftrightarrow> dbNumInt a < dbNumInt b"

instance
  by standard (auto simp: less_eq_DBNum_def less_DBNum_def)

end

definition dbNumString :: "DBNum \<Rightarrow> string" where
  "dbNumString n = natStr (dbNumInt n)"

record Options =
  DBNo :: DBNum
  InitIndicator :: string
  TableNameSeparator :: string
  KeySeparator :: string
  IsWriteDisabled :: bool
  DisableCVLCheck :: bool

record TableSpec =
  ts_Name :: string
  ts_CompCt :: int

record Key =
  Comp :: "string list"

subsection \<open>Keys of Redis and of the program\<close>

definition key2redis :: "Options \<Rightarrow> TableSpec \<Rightarrow> Key \<Rightarrow> string" where
  "key2redis opts ts key =
     ts_Name ts @ TableNameSeparator opts @ joinStr (Comp key) (KeySeparator opts)"

text \<open>
  \<open>splitTable[1]\<close> panics when the Redis key has no table separator: \<^term>\<open>None\<close>.
\<close>

definition redis2key :: "Options \<Rightarrow> TableSpec \<Rightarrow> string \<Rightarrow> Key option" where
  "redis2key opts ts redisKey =
     (case splitN redisKey (TableNameSeparator opts) 2 of
        _ # rest # _ \<Rightarrow>
          (if ts_CompCt ts > 0
           then Some \<lparr>Comp = splitN rest (KeySeparator opts) (nat (ts_CompCt ts))\<rparr>
           else Some \<lparr>Comp = splitStr rest (KeySeparator opts)\<rparr>)
      | _ \<Rightarrow> None)"

definition ts2redisUpdated :: "TableSpec \<Rightarrow> string" where
  "ts2redisUpdated ts =
     (if containsStr (ts_Name ts) ''*'' then ''CONFIG_DB_UPDATED''
      else ''CONFIG_DB_UPDATED_'' @ ts_Name ts)"

definition key2redisChannel :: "Options \<Rightarrow> TableSpec \<Rightarrow> Key \<Rightarrow> string" where
  "key2redisChannel opts ts key =
     ''__keyspace@'' @ dbNumString (DBNo opts) @ ''__:'' @ key2redis opts ts key"

text \<open>A channel without a colon gives the empty key.\<close>

definition redisChannel2key :: "Options \<Rightarrow> TableSpec \<Rightarrow> string \<Rightarrow> Key option" where
  "redisChannel2key opts ts redisChannel =
     (case splitN redisChannel '':'' 2 of
        _ # rest # _ \<Rightarrow> redis2key opts ts rest
      | _ \<Rightarrow> Some \<lparr>Comp = []\<rparr>)"

definition Tables2TableSpecs :: "string list \<Rightarrow> TableSpec list" where
  "Tables2TableSpecs tables = map (\<lambda>t. \<lparr>ts_Name = t, ts_CompCt = 0\<rparr>) tables"

definition Key_Len :: "Key \<Rightarrow> nat" where
  "Key_Len k = length (Comp k)"

text \<open>Indexing out of range panics.\<close>

definition Key_Get :: "Key \<Rightarrow> nat \<Rightarrow> string option" where
  "Key_Get k i = (if i < length (Comp k) then Some (Comp k ! i) else None)"

definition asKey :: "string list \<Rightarrow> Key" where
  "asKey parts = \<lparr>Comp = parts\<rparr>"

subsection \<open>Values\<close>

record Value =
  Field :: fields

definition Value_IsPopulated :: "Value \<Rightarrow> bool" where
  "Value_IsPopulated v \<longleftrightarrow> length (Field v) > 0"

definition Value_Has :: "Value \<Rightarrow> string \<Rightarrow> bool" where
  "Value_Has v name = mapHas (Field v) name"

definition Value_Get :: "Value \<Rightarrow> string \<Rightarrow> string" where
  "Value_Get v name = mapStr (Field v) name"

definition Value_Set :: "Value \<Rightarrow> string \<Rightarrow> string \<Rightarrow> Value" where
  "Value_Set v name x = v\<lparr>Field := mapPut name x (Field v)\<rparr>"

definition Value_Remove :: "Value \<Rightarrow> string \<Rightarrow> Value" where
  "Value_Remove v name = v\<lparr>Field := mapDel name (Field v)\<rparr>"

text \<open>\<^term>\<open>None\<close> is the error of \<^verbatim>\<open>strconv.Atoi\<close>.\<close>

definition Value_GetInt :: "Value \<Rightarrow> string \<Rightarrow> int option" where
  "Value_GetInt v name =
     (case mapGet (Field v) name of Some data \<Rightarrow> atoi data | None \<Rightarrow> Some 0)"

definition Value_SetInt :: "Value \<Rightarrow> string \<Rightarrow> int \<Rightarrow> Value" where
  "Value_SetInt v name x = Value_Set v name (itoa x)"

definition Value_GetList :: "Value \<Rightarrow> string \<Rightarrow> string list" where
  "Value_GetList v name =
     (let data = (if hasSuffix name ''@'' then Value_Get v name else Value_Get v (name @ ''@''))
      in if length data = 0 then [] else splitStr data '','')"

definition Value_SetList :: "Value \<Rightarrow> string \<Rightarrow> string list \<Rightarrow> Value" where
  "Value_SetList v name items =
     (let name' = (if \<not> hasSuffix name ''@'' then name @ ''@'' else name)
      in if length items \<noteq> 0 then Value_Set v name' (joinStr items '','') else Value_Remove v name')"

definition createEmptyDbValue :: "string \<Rightarrow> Value" where
  "createEmptyDbValue fieldName = \<lparr>Field = [(fieldName, [])]\<rparr>"

subsection \<open>Codecs\<close>

text \<open>
  What a client of a key codec relies on: within the valid keys decoding undoes encoding.  Hence
  different keys never share a Redis key, and a store indexed by encoded keys behaves like one
  indexed by keys.
\<close>

locale codec =
  fixes enc :: "'a \<Rightarrow> string"
    and dec :: "string \<Rightarrow> 'a option"
    and valid :: "'a \<Rightarrow> bool"
  assumes dec_enc: "valid k \<Longrightarrow> dec (enc k) = Some k"
begin

lemma enc_inj: "valid k \<Longrightarrow> valid k' \<Longrightarrow> enc k = enc k' \<longleftrightarrow> k = k'"
  by (metis dec_enc option.inject)

lemma inj_on_enc: "inj_on enc {k. valid k}"
  by (auto simp: inj_on_def enc_inj)

lemma dec_encs: "list_all valid ks \<Longrightarrow> map (\<lambda>k. dec (enc k)) ks = map Some ks"
  by (simp add: dec_enc list_all_iff)

lemma store_upd:
  "valid k \<Longrightarrow> valid k' \<Longrightarrow> (m(enc k := v)) (enc k') = (if k' = k then v else m (enc k'))"
  by (simp add: enc_inj)

lemma distinct_encs: "distinct ks \<Longrightarrow> list_all valid ks \<Longrightarrow> distinct (map enc ks)"
  by (induction ks) (auto simp: list_all_iff enc_inj)

end

text \<open>
  The keys the program uses with a table: single-character separators, a table name without the
  table separator, and components without the key separator; with \<open>CompCt\<close> set, the last of
  exactly \<open>CompCt\<close> components may contain it.
\<close>

definition validKey :: "Options \<Rightarrow> TableSpec \<Rightarrow> Key \<Rightarrow> bool" where
  "validKey opts ts k \<longleftrightarrow>
     length (TableNameSeparator opts) = 1 \<and> length (KeySeparator opts) = 1 \<and>
     hd (TableNameSeparator opts) \<notin> set (ts_Name ts) \<and> Comp k \<noteq> [] \<and>
     (if ts_CompCt ts > 0
      then int (length (Comp k)) = ts_CompCt ts \<and>
           list_all (\<lambda>c. hd (KeySeparator opts) \<notin> set c) (butlast (Comp k))
      else list_all (\<lambda>c. hd (KeySeparator opts) \<notin> set c) (Comp k))"

lemma splitN_2_first:
  assumes "c \<notin> set a"
  shows "splitN (a @ c # b) [c] 2 = [a, b]"
proof -
  have "index (a @ [c] @ b) [c] = Some (length a)"
    using index_first [of c a "[]" "[]" b] assms by simp
  then show ?thesis by (simp add: splitN_def numeral_2_eq_2)
qed

lemma single_char: "length s = 1 \<Longrightarrow> s = [hd s]"
  by (cases s) auto

lemma redis2key_key2redis:
  assumes "validKey opts ts k"
  shows "redis2key opts ts (key2redis opts ts k) = Some k"
proof -
  from assms obtain t d where t: "TableNameSeparator opts = [t]" and d: "KeySeparator opts = [d]"
    by (auto simp: validKey_def length_Suc_conv)
  from assms t d have n: "t \<notin> set (ts_Name ts)" and k: "Comp k \<noteq> []"
    and ct: "if ts_CompCt ts > 0
      then int (length (Comp k)) = ts_CompCt ts \<and> (\<forall>x \<in> set (butlast (Comp k)). d \<notin> set x)
      else (\<forall>x \<in> set (Comp k). d \<notin> set x)"
    by (auto simp: validKey_def list_all_iff)
  have split: "splitN (ts_Name ts @ t # r) [t] 2 = [ts_Name ts, r]" for r
    using n by (rule splitN_2_first)
  show ?thesis
  proof (cases "ts_CompCt ts > 0")
    case True
    with ct have "nat (ts_CompCt ts) = length (Comp k)" by auto
    with True ct k t d split show ?thesis
      by (simp add: redis2key_def key2redis_def splitN_Suc_join)
  next
    case False
    with ct k have "splitStr (joinStr (Comp k) [d]) [d] = Comp k" by (auto intro: split_join_char)
    with False t d split show ?thesis by (simp add: redis2key_def key2redis_def)
  qed
qed

interpretation key_codec: codec "key2redis opts ts" "redis2key opts ts" "validKey opts ts" for opts ts
  by unfold_locales (rule redis2key_key2redis)

lemma redisChannel2key_key2redisChannel:
  assumes "validKey opts ts k"
  shows "redisChannel2key opts ts (key2redisChannel opts ts k) = Some k"
proof -
  let ?p = "''__keyspace@'' @ dbNumString (DBNo opts) @ ''__''"
  have "CHR '':'' \<notin> set ?p"
    by (auto simp: dbNumString_def dest: natStr_chars simp: isDigit_def)
  then have "splitN (?p @ CHR '':'' # key2redis opts ts k) '':'' 2 = [?p, key2redis opts ts k]"
    by (rule splitN_2_first)
  then show ?thesis
    by (simp add: redisChannel2key_def key2redisChannel_def redis2key_key2redis assms)
qed

interpretation channel_codec: codec "key2redisChannel opts ts" "redisChannel2key opts ts" "validKey opts ts" for opts ts
  by unfold_locales (rule redisChannel2key_key2redisChannel)

subsection \<open>Laws of values\<close>

lemma Value_Get_Set: "Value_Get (Value_Set v n x) n' = (if n' = n then x else Value_Get v n')"
  by (simp add: Value_Get_def Value_Set_def mapStr_def)

lemma Value_Get_Remove: "Value_Get (Value_Remove v n) n' = (if n' = n then [] else Value_Get v n')"
  by (simp add: Value_Get_def Value_Remove_def mapStr_def)

lemma Value_GetInt_SetInt:
  "- (2 ^ 63) \<le> i \<Longrightarrow> i < 2 ^ 63 \<Longrightarrow> Value_GetInt (Value_SetInt v n i) n = Some i"
  by (simp add: Value_GetInt_def Value_SetInt_def Value_Set_def atoi_itoa)

lemma joinStr_empty_iff: "xs \<noteq> [] \<Longrightarrow> sep \<noteq> [] \<Longrightarrow> joinStr xs sep = [] \<longleftrightarrow> xs = [[]]"
  by (cases xs rule: remdups_adj.cases) auto

lemma Value_GetList_SetList:
  assumes "list_all (\<lambda>x. CHR '','' \<notin> set x) items"
  shows "Value_GetList (Value_SetList v n items) n = (if items = [[]] then [] else items)"
proof (cases "items = []")
  case True
  then show ?thesis
    by (auto simp: Value_SetList_def Value_GetList_def Value_Get_Remove Let_def)
next
  case False
  then have "splitStr (joinStr items '','') '','' = items"
    using assms by (intro split_join_char) (auto simp: list_all_iff)
  moreover have "joinStr items '','' = [] \<longleftrightarrow> items = [[]]"
    using False by (simp add: joinStr_empty_iff)
  ultimately show ?thesis using False
    by (auto simp: Value_SetList_def Value_GetList_def Value_Get_Set Let_def)
qed

end
