(* ===== verification/Db.thy ===== *)
theory Db
  imports Db_Keys "HOL-Library.Monad_Syntax"
begin

text \<open>
  The database wrapper of \<^verbatim>\<open>translib/db/db.go\<close> and \<^verbatim>\<open>map.go\<close>: entry and table operations and the
  check-and-set transaction, with its state machine, its list of pending commands and its list of
  pending CVL edit requests.

  The Redis client (package \<^verbatim>\<open>go-redis\<close>) is not part of the repository: it is the record \<^verbatim>\<open>infra\<close>
  of functions over an abstract connection state \<^typ>\<open>'r\<close>, an argument of every definition.  The CVL
  session the transaction drives is reached through the same record, over a session type \<^typ>\<open>'c\<close>
  (package \<^verbatim>\<open>cvl\<close> provides it).  The order in which Go visits a map that is not an argument is
  the field \<^verbatim>\<open>rangeOrder\<close>.
\<close>

subsection \<open>State\<close>

datatype TxState = txStateNone | txStateWatch | txStateSet | txStateMultiExec

fun txStateString :: "TxState \<Rightarrow> string" where
  "txStateString txStateNone = ''txStateNone''"
| "txStateString txStateWatch = ''txStateWatch''"
| "txStateString txStateSet = ''txStateSet''"
| "txStateString txStateMultiExec = ''txStateMultiExec''"

datatype TxOp = txOpNone | txOpHMSet | txOpHDel | txOpDel

fun txOpInt :: "TxOp \<Rightarrow> nat" where
  "txOpInt txOpNone = 0"
| "txOpInt txOpHMSet = 1"
| "txOpInt txOpHDel = 2"
| "txOpInt txOpDel = 3"

text \<open>Go's \<^verbatim>\<open>string(i)\<close> of an integer is the character with that code.\<close>

definition unknownOp :: "nat \<Rightarrow> go_error" where
  "unknownOp i = ErrorString (''Unknown Op: '' @ [char_of i])"

fun cvlOpInt :: "CVLOperation \<Rightarrow> nat" where
  "cvlOpInt OP_NONE = 0"
| "cvlOpInt OP_CREATE = 1"
| "cvlOpInt OP_UPDATE = 2"
| "cvlOpInt OP_DELETE = 4"

record TxCmd =
  cmd_ts :: TableSpec
  cmd_op :: TxOp
  cmd_key :: Key
  cmd_value :: Value

record ('r, 'c) DB =
  client :: 'r
  Opts :: Options
  txState :: TxState
  txCmds :: "TxCmd list"
  cv :: 'c
  cvlEditConfigData :: "CVLEditConfigData list"

text \<open>Arguments of a raw Redis command are values of type \<^verbatim>\<open>interface{}\<close>: strings, or keys.\<close>

datatype redis_arg = RStr string | RKey Key

record ('r, 'c) infra =
  newClient :: "nat \<Rightarrow> 'r"
  nilClient :: 'r
  closeClient :: "'r \<Rightarrow> go_error option \<times> 'r"
  getInt :: "'r \<Rightarrow> string \<Rightarrow> int"
  hGet :: "'r \<Rightarrow> string \<Rightarrow> string \<Rightarrow> string \<times> go_error option"
  hGetAll :: "'r \<Rightarrow> string \<Rightarrow> fields \<times> go_error option"
  redisKeys :: "'r \<Rightarrow> string \<Rightarrow> string list \<times> go_error option"
  hMSet :: "string \<Rightarrow> fields \<Rightarrow> 'r \<Rightarrow> go_error option \<times> 'r"
  hSet :: "string \<Rightarrow> string \<Rightarrow> string \<Rightarrow> 'r \<Rightarrow> go_error option \<times> 'r"
  hDel :: "string \<Rightarrow> string list \<Rightarrow> 'r \<Rightarrow> go_error option \<times> 'r"
  redisDel :: "string \<Rightarrow> 'r \<Rightarrow> go_error option \<times> 'r"
  redisDo :: "redis_arg list \<Rightarrow> 'r \<Rightarrow> go_error option \<times> 'r"
  redisPublish :: "string \<Rightarrow> string \<Rightarrow> 'r \<Rightarrow> go_error option \<times> 'r"
  sessOpen :: "'c \<times> CVLRetCode"
  sessClose :: "'c \<Rightarrow> CVLRetCode"
  nilSess :: 'c
  validateEdit :: "'c \<Rightarrow> CVLEditConfigData list \<Rightarrow> (CVLErrorInfo \<times> CVLRetCode) \<times> 'c"
  rangeOrder :: "TableSpec list \<Rightarrow> TableSpec list"

definition withClient ::
  "('r, 'c) DB \<Rightarrow> go_error option \<times> 'r \<Rightarrow> go_error option \<times> ('r, 'c) DB" where
  "withClient d er = (fst er, d\<lparr>client := snd er\<rparr>)"

subsection \<open>Opening and closing\<close>

definition NewDB :: "('r, 'c) infra \<Rightarrow> Options \<Rightarrow> ('r, 'c) DB \<times> go_error option" where
  "NewDB X opt =
     (let d = \<lparr>client = newClient X (dbNumInt (DBNo opt)), Opts = opt, txState = txStateNone,
               txCmds = [], cv = nilSess X, cvlEditConfigData = []\<rparr>
      in if client d = nilClient X then (d, Some TranslibDBCannotOpen)
         else if DBNo opt \<noteq> ConfigDB then (d, None)
         else if length (InitIndicator (Opts d)) = 0 then (d, None)
         else if getInt X (client d) (InitIndicator (Opts d)) \<noteq> 1 then (d, Some TranslibDBNotInit)
         else (d, None))"

definition DeleteDB :: "('r, 'c) infra \<Rightarrow> ('r, 'c) DB \<Rightarrow> go_error option \<times> ('r, 'c) DB" where
  "DeleteDB X d = withClient d (closeClient X (client d))"

subsection \<open>Reading\<close>

definition GetEntry ::
  "('r, 'c) infra \<Rightarrow> ('r, 'c) DB \<Rightarrow> TableSpec \<Rightarrow> Key \<Rightarrow> Value \<times> go_error option" where
  "GetEntry X d ts key =
     (let (v, e) = hGetAll X (client d) (key2redis (Opts d) ts key)
      in if length v \<noteq> 0 then (\<lparr>Field = v\<rparr>, e)
         else (\<lparr>Field = []\<rparr>, Some (TranslibRedisClientEntryNotExist (key2redis (Opts d) ts key))))"

text \<open>\<^term>\<open>None\<close>: a Redis key without table separator makes \<^verbatim>\<open>redis2key\<close> panic.\<close>

definition GetKeysPattern ::
  "('r, 'c) infra \<Rightarrow> ('r, 'c) DB \<Rightarrow> TableSpec \<Rightarrow> Key \<Rightarrow> (Key list \<times> go_error option) option" where
  "GetKeysPattern X d ts pat =
     (let (rkeys, e) = redisKeys X (client d) (key2redis (Opts d) ts pat)
      in map_option (\<lambda>keys. (keys, e)) (those (map (redis2key (Opts d) ts) rkeys)))"

definition GetKeys ::
  "('r, 'c) infra \<Rightarrow> ('r, 'c) DB \<Rightarrow> TableSpec \<Rightarrow> (Key list \<times> go_error option) option" where
  "GetKeys X d ts = GetKeysPattern X d ts \<lparr>Comp = [''*'']\<rparr>"

definition GetKeysByPattern ::
  "('r, 'c) infra \<Rightarrow> ('r, 'c) DB \<Rightarrow> TableSpec \<Rightarrow> string \<Rightarrow> (Key list \<times> go_error option) option" where
  "GetKeysByPattern X d ts pattern =
     (let (rkeys, e) = redisKeys X (client d) (key2redis (Opts d) ts \<lparr>Comp = [pattern]\<rparr>)
      in map_option (\<lambda>keys. (keys, e)) (those (map (redis2key (Opts d) ts) rkeys)))"

subsection \<open>Validation and writing\<close>

text \<open>One round of the loop of \<^verbatim>\<open>doCVL\<close> that builds the edit request.\<close>

definition addEdit ::
  "Options \<Rightarrow> TableSpec \<Rightarrow> Key \<Rightarrow> CVLOperation \<times> Value \<Rightarrow>
   go_error option \<times> CVLEditConfigData list \<Rightarrow> go_error option \<times> CVLEditConfigData list" where
  "addEdit opts ts key ov acc =
     (let (op, val) = ov; (e, eds) = acc;
          ed = \<lparr>VType = VALIDATE_ALL, VOp = op, cfgKey = key2redis opts ts key, cfgData = []\<rparr>
      in case op of
           OP_CREATE \<Rightarrow> (e, eds @ [ed\<lparr>cfgData := Field val\<rparr>])
         | OP_UPDATE \<Rightarrow> (e, eds @ [ed\<lparr>cfgData := Field val\<rparr>])
         | OP_DELETE \<Rightarrow> (e, eds @ [ed\<lparr>cfgData := (if length (Field val) = 0 then [] else Field val)\<rparr>])
         | OP_NONE \<Rightarrow> (Some (unknownOp (cvlOpInt op)), eds))"

text \<open>\<^verbatim>\<open>d.cvlEditConfigData[len-1-i].VType = VALIDATE_NONE\<close> for \<open>i < n\<close>.\<close>

definition markValidated :: "nat \<Rightarrow> CVLEditConfigData list \<Rightarrow> CVLEditConfigData list" where
  "markValidated n eds =
     take (length eds - n) eds @ map (\<lambda>ed. ed\<lparr>VType := VALIDATE_NONE\<rparr>) (drop (length eds - n) eds)"

definition doCVL ::
  "('r, 'c) infra \<Rightarrow> ('r, 'c) DB \<Rightarrow> TableSpec \<Rightarrow> CVLOperation list \<Rightarrow> Key \<Rightarrow> Value list \<Rightarrow>
   go_error option \<times> ('r, 'c) DB" where
  "doCVL X d ts cvlOps key vals =
     (if DisableCVLCheck (Opts d) then (None, d)
      else if txState d = txStateNone then (None, d)
      else if length cvlOps \<noteq> length vals then (Some (ErrorString ''CVL Incorrect args''), d)
      else
        let (e, eds) = fold (addEdit (Opts d) ts key) (zip cvlOps vals) (None, cvlEditConfigData d);
            d1 = d\<lparr>cvlEditConfigData := eds\<rparr>
        in case e of
             Some _ \<Rightarrow> (e, d1)
           | None \<Rightarrow>
               (let ((cei, cvlRetCode), cv') = validateEdit X (cv d1) (cvlEditConfigData d1);
                    d2 = d1\<lparr>cv := cv'\<rparr>
                in if cvlRetCode \<noteq> CVL_SUCCESS
                   then (Some (TranslibCVLFailure (cvlCode cvlRetCode) cei),
                         d2\<lparr>cvlEditConfigData :=
                              take (length (cvlEditConfigData d2) - length cvlOps) (cvlEditConfigData d2)\<rparr>)
                   else (None,
                         d2\<lparr>cvlEditConfigData :=
                              markValidated (length cvlOps) (cvlEditConfigData d2)\<rparr>)))"

definition doWrite ::
  "('r, 'c) infra \<Rightarrow> ('r, 'c) DB \<Rightarrow> TableSpec \<Rightarrow> TxOp \<Rightarrow> Key \<Rightarrow> Value \<Rightarrow>
   go_error option \<times> ('r, 'c) DB" where
  "doWrite X d ts op key val =
     (if IsWriteDisabled (Opts d)
      then (Some (ErrorString ''Write to DB disabled during this operation''), d)
      else
        let (e, d1) = (case txState d of
              txStateNone \<Rightarrow> (None, d)
            | txStateWatch \<Rightarrow> (None, d\<lparr>txState := txStateSet\<rparr>)
            | txStateSet \<Rightarrow> (None, d)
            | txStateMultiExec \<Rightarrow>
                (Some (ErrorString ''Cannot issue {Set|Mod|Delete}Entry in txStateMultiExec''), d))
        in case e of
             Some _ \<Rightarrow> (e, d1)
           | None \<Rightarrow>
               (if txState d1 = txStateNone then
                  (case op of
                     txOpHMSet \<Rightarrow>
                       withClient d1 (hMSet X (key2redis (Opts d1) ts key) (Field val) (client d1))
                   | txOpHDel \<Rightarrow>
                       withClient d1 (hDel X (key2redis (Opts d1) ts key) (map fst (Field val)) (client d1))
                   | txOpDel \<Rightarrow>
                       withClient d1 (redisDel X (key2redis (Opts d1) ts key) (client d1))
                   | txOpNone \<Rightarrow> (Some (unknownOp (txOpInt op)), d1))
                else
                  (case op of
                     txOpNone \<Rightarrow> (Some (unknownOp (txOpInt op)), d1)
                   | _ \<Rightarrow>
                       (None, d1\<lparr>txCmds := txCmds d1 @
                          [\<lparr>cmd_ts = ts, cmd_op = op, cmd_key = key,
                            cmd_value = (if op = txOpDel then \<lparr>Field = []\<rparr> else val)\<rparr>]\<rparr>))))"

definition DeleteEntry ::
  "('r, 'c) infra \<Rightarrow> ('r, 'c) DB \<Rightarrow> TableSpec \<Rightarrow> Key \<Rightarrow> go_error option \<times> ('r, 'c) DB" where
  "DeleteEntry X d ts key =
     (let (e, d1) = doCVL X d ts [OP_DELETE] key [\<lparr>Field = []\<rparr>]
      in if e = None then doWrite X d1 ts txOpDel key \<lparr>Field = []\<rparr> else (e, d1))"

text \<open>Fields of the current entry that the new value does not have.\<close>

definition valueComplement :: "Value \<Rightarrow> Value \<Rightarrow> Value" where
  "valueComplement value cur =
     \<lparr>Field = fold (\<lambda>(k, _) m. if \<not> mapHas (Field value) k then mapPut k [] m else m) (Field cur) []\<rparr>"

definition setEntry ::
  "('r, 'c) infra \<Rightarrow> ('r, 'c) DB \<Rightarrow> TableSpec \<Rightarrow> Key \<Rightarrow> Value \<Rightarrow> bool \<Rightarrow>
   go_error option \<times> ('r, 'c) DB" where
  "setEntry X d ts key value isCreate =
     (if length (Field value) = 0 then DeleteEntry X d ts key
      else
        let (cur, e) = (if \<not> isCreate then GetEntry X d ts key else (\<lparr>Field = []\<rparr>, None));
            compl = (if \<not> isCreate \<and> e = None then valueComplement value cur else \<lparr>Field = []\<rparr>);
            (e1, d1) =
              (if \<not> isCreate \<and> e = None
               then (if length (Field compl) = 0
                     then doCVL X d ts [OP_UPDATE] key [value]
                     else doCVL X d ts [OP_UPDATE, OP_DELETE] key [value, compl])
               else doCVL X d ts [OP_CREATE] key [value])
        in if e1 \<noteq> None then (e1, d1)
           else
             let (e2, d2) = doWrite X d1 ts txOpHMSet key value
             in if e2 = None \<and> length (Field compl) \<noteq> 0
                then doWrite X d2 ts txOpHDel key compl
                else (e2, d2))"

definition CreateEntry ::
  "('r, 'c) infra \<Rightarrow> ('r, 'c) DB \<Rightarrow> TableSpec \<Rightarrow> Key \<Rightarrow> Value \<Rightarrow> go_error option \<times> ('r, 'c) DB" where
  "CreateEntry X d ts key value = setEntry X d ts key value True"

definition SetEntry ::
  "('r, 'c) infra \<Rightarrow> ('r, 'c) DB \<Rightarrow> TableSpec \<Rightarrow> Key \<Rightarrow> Value \<Rightarrow> go_error option \<times> ('r, 'c) DB" where
  "SetEntry X d ts key value = setEntry X d ts key value False"

definition Publish ::
  "('r, 'c) infra \<Rightarrow> ('r, 'c) DB \<Rightarrow> string \<Rightarrow> string \<Rightarrow> go_error option \<times> ('r, 'c) DB" where
  "Publish X d channel message = withClient d (redisPublish X channel message (client d))"

definition ModEntry ::
  "('r, 'c) infra \<Rightarrow> ('r, 'c) DB \<Rightarrow> TableSpec \<Rightarrow> Key \<Rightarrow> Value \<Rightarrow> go_error option \<times> ('r, 'c) DB" where
  "ModEntry X d ts key value =
     (if length (Field value) = 0 then DeleteEntry X d ts key
      else
        let (e, d1) = doCVL X d ts [OP_UPDATE] key [value]
        in if e = None then doWrite X d1 ts txOpHMSet key value else (e, d1))"

text \<open>The error of \<^verbatim>\<open>doWrite\<close> is dropped by the code.\<close>

definition DeleteEntryFields ::
  "('r, 'c) infra \<Rightarrow> ('r, 'c) DB \<Rightarrow> TableSpec \<Rightarrow> Key \<Rightarrow> Value \<Rightarrow> go_error option \<times> ('r, 'c) DB" where
  "DeleteEntryFields X d ts key value =
     (let (e, d1) = doCVL X d ts [OP_DELETE] key [value]
      in if e = None then (e, snd (doWrite X d1 ts txOpHDel key value)) else (e, d1))"

subsection \<open>Whole tables\<close>

text \<open>
  \<^verbatim>\<open>DeleteKeys\<close>: the error variable holds the outcome of the last deletion (of the key listing, if
  no key matched).
\<close>

fun deleteKeysLoop ::
  "('r, 'c) infra \<Rightarrow> TableSpec \<Rightarrow> string list \<Rightarrow> go_error option \<times> ('r, 'c) DB \<Rightarrow>
   (go_error option \<times> ('r, 'c) DB) option" where
  "deleteKeysLoop X ts [] ed = Some ed"
| "deleteKeysLoop X ts (rk # rks) (e, d) =
     do { k \<leftarrow> redis2key (Opts d) ts rk; deleteKeysLoop X ts rks (DeleteEntry X d ts k) }"

definition DeleteKeys ::
  "('r, 'c) infra \<Rightarrow> ('r, 'c) DB \<Rightarrow> TableSpec \<Rightarrow> Key \<Rightarrow> (go_error option \<times> ('r, 'c) DB) option" where
  "DeleteKeys X d ts key =
     (let (rkeys, e) = redisKeys X (client d) (key2redis (Opts d) ts key)
      in deleteKeysLoop X ts rkeys (e, d))"

record Table =
  tbl_ts :: TableSpec
  tbl_entry :: "(string, Value) gomap"
  tbl_opts :: Options

definition GetTable ::
  "('r, 'c) infra \<Rightarrow> ('r, 'c) DB \<Rightarrow> TableSpec \<Rightarrow> (Table \<times> go_error option) option" where
  "GetTable X d ts =
     do { (keys, e) \<leftarrow> GetKeys X d ts;
          let table = \<lparr>tbl_ts = ts, tbl_entry = [], tbl_opts = Opts d\<rparr>;
          Some (if e \<noteq> None then (table, e)
                else (table\<lparr>tbl_entry :=
                        fold (\<lambda>k m. case GetEntry X d ts k of
                                 (v, None) \<Rightarrow> mapPut (key2redis (Opts d) ts k) v m
                               | (_, Some _) \<Rightarrow> m) keys []\<rparr>, e)) }"

text \<open>The inner \<^verbatim>\<open>e\<close> of the loop shadows the result: a failed deletion stops it, unreported.\<close>

fun deleteTableLoop ::
  "('r, 'c) infra \<Rightarrow> TableSpec \<Rightarrow> Key list \<Rightarrow> ('r, 'c) DB \<Rightarrow> ('r, 'c) DB" where
  "deleteTableLoop X ts [] d = d"
| "deleteTableLoop X ts (k # ks) d =
     (case DeleteEntry X d ts k of
        (Some _, d') \<Rightarrow> d'
      | (None, d') \<Rightarrow> deleteTableLoop X ts ks d')"

definition DeleteTable ::
  "('r, 'c) infra \<Rightarrow> ('r, 'c) DB \<Rightarrow> TableSpec \<Rightarrow> (go_error option \<times> ('r, 'c) DB) option" where
  "DeleteTable X d ts =
     do { (keys, e) \<leftarrow> GetKeys X d ts;
          Some (if e \<noteq> None then (e, d) else (e, deleteTableLoop X ts keys d)) }"

definition Table_GetKeys :: "Table \<Rightarrow> Key list option" where
  "Table_GetKeys t = those (map (\<lambda>(k, _). redis2key (tbl_opts t) (tbl_ts t) k) (tbl_entry t))"

text \<open>A missing entry reads as the zero value, with no fields.\<close>

definition Table_GetEntry :: "Table \<Rightarrow> Key \<Rightarrow> Value" where
  "Table_GetEntry t key =
     (case mapGet (tbl_entry t) (key2redis (tbl_opts t) (tbl_ts t) key) of
        Some v \<Rightarrow> v | None \<Rightarrow> \<lparr>Field = []\<rparr>)"

subsection \<open>Transactions\<close>

record WatchKeys =
  wk_Ts :: TableSpec
  wk_Key :: Key

text \<open>
  The arguments one watch key contributes.  For a pattern the code appends the decoded keys, not
  the Redis keys it found.
\<close>

definition watchArgs :: "('r, 'c) infra \<Rightarrow> ('r, 'c) DB \<Rightarrow> WatchKeys \<Rightarrow> redis_arg list option" where
  "watchArgs X d w =
     (let redisKey = key2redis (Opts d) (wk_Ts w) (wk_Key w)
      in if \<not> containsStr redisKey ''*'' then Some [RStr redisKey]
         else case redisKeys X (client d) redisKey of
                (_, Some _) \<Rightarrow> Some []
              | (rkeys, None) \<Rightarrow> map_option (map RKey) (those (map (redis2key (Opts d) (wk_Ts w)) rkeys)))"

definition performWatch ::
  "('r, 'c) infra \<Rightarrow> ('r, 'c) DB \<Rightarrow> WatchKeys list \<Rightarrow> TableSpec list \<Rightarrow>
   (go_error option \<times> ('r, 'c) DB) option" where
  "performWatch X d w tss =
     do { wargs \<leftarrow> those (map (watchArgs X d) w);
          let args = RStr ''WATCH'' # concat wargs @ map (\<lambda>ts. RStr (ts2redisUpdated ts)) tss;
          let (e, d1) = (if length args = 1 then (None, d)
                         else withClient d (redisDo X args (client d)));
          Some (e, d1\<lparr>txState := txStateWatch\<rparr>) }"

definition StartTx ::
  "('r, 'c) infra \<Rightarrow> ('r, 'c) DB \<Rightarrow> WatchKeys list \<Rightarrow> TableSpec list \<Rightarrow>
   (go_error option \<times> ('r, 'c) DB) option" where
  "StartTx X d w tss =
     (let (cv', ret) = sessOpen X; d1 = d\<lparr>cv := cv'\<rparr>
      in if ret \<noteq> CVL_SUCCESS
         then Some (Some (ErrorString ''StartTx: Unable to create CVL session''), d1)
         else if txState d1 \<noteq> txStateNone
         then Some (Some (ErrorString ''Transaction already in progress''), d1)
         else performWatch X d1 w tss)"

definition AppendWatchTx ::
  "('r, 'c) infra \<Rightarrow> ('r, 'c) DB \<Rightarrow> WatchKeys list \<Rightarrow> TableSpec list \<Rightarrow>
   (go_error option \<times> ('r, 'c) DB) option" where
  "AppendWatchTx X d w tss =
     (if txState d = txStateNone
      then Some (Some (ErrorString ''Transaction has not started''), d)
      else performWatch X d w tss)"

text \<open>The Redis command of one pending write.\<close>

definition cmdArgs :: "Options \<Rightarrow> TxCmd \<Rightarrow> redis_arg list option" where
  "cmdArgs opts c =
     (let redisKey = key2redis opts (cmd_ts c) (cmd_key c)
      in case cmd_op c of
           txOpHMSet \<Rightarrow>
             Some ([RStr ''HMSET'', RStr redisKey] @
                   concat (map (\<lambda>(k, v). [RStr k, RStr v]) (Field (cmd_value c))))
         | txOpHDel \<Rightarrow>
             Some ([RStr ''HDEL'', RStr redisKey] @ map (\<lambda>(k, _). RStr k) (Field (cmd_value c)))
         | txOpDel \<Rightarrow> Some [RStr ''DEL'', RStr redisKey]
         | txOpNone \<Rightarrow> None)"

text \<open>\<^verbatim>\<open>d.client.Do(args...)\<close> where the code only logs the error.\<close>

definition doLogged :: "('r, 'c) infra \<Rightarrow> redis_arg list \<Rightarrow> 'r \<Rightarrow> 'r" where
  "doLogged X args r = snd (redisDo X args r)"

definition commitCheck :: "TxState \<Rightarrow> string \<Rightarrow> go_error option" where
  "commitCheck s busy =
     (case s of
        txStateNone \<Rightarrow> Some (ErrorString ''StartTx() not done. No Transaction active.'')
      | txStateWatch \<Rightarrow> None
      | txStateSet \<Rightarrow> None
      | txStateMultiExec \<Rightarrow> Some (ErrorString busy))"

definition CommitTx :: "('r, 'c) infra \<Rightarrow> ('r, 'c) DB \<Rightarrow> go_error option \<times> ('r, 'c) DB" where
  "CommitTx X d =
     (case commitCheck (txState d) ''Cannot issue MULTI in txStateMultiExec'' of
        Some e \<Rightarrow> (Some e, d)
      | None \<Rightarrow>
          (let r1 = doLogged X [RStr ''MULTI''] (client d);
               (tsmap, r2) =
                 fold (\<lambda>c (m, r).
                         (mapPut (cmd_ts c) True m,
                          case cmdArgs (Opts d) c of Some args \<Rightarrow> doLogged X args r | None \<Rightarrow> r))
                      (txCmds d) ([], r1);
               r3 = fold (\<lambda>ts r. doLogged X [RStr ''SET'', RStr (ts2redisUpdated ts), RStr ''1''] r)
                         (rangeOrder X (map fst tsmap)) r2;
               r4 = doLogged X [RStr ''SET'',
                       RStr (ts2redisUpdated \<lparr>ts_Name = ''*'', ts_CompCt = 0\<rparr>), RStr ''1''] r3;
               (e, r5) = redisDo X [RStr ''EXEC''] r4
           in (if e \<noteq> None then Some TranslibTransactionFail else None,
               d\<lparr>client := r5, txState := txStateNone, txCmds := [], cvlEditConfigData := [],
                 cv := nilSess X\<rparr>)))"

definition AbortTx :: "('r, 'c) infra \<Rightarrow> ('r, 'c) DB \<Rightarrow> go_error option \<times> ('r, 'c) DB" where
  "AbortTx X d =
     (case commitCheck (txState d) ''Cannot issue UNWATCH in txStateMultiExec'' of
        Some e \<Rightarrow> (Some e, d)
      | None \<Rightarrow>
          (let (e, r1) = redisDo X [RStr ''UNWATCH''] (client d)
           in (e, d\<lparr>client := r1, txState := txStateNone, txCmds := [], cvlEditConfigData := [],
                   cv := nilSess X\<rparr>)))"

subsection \<open>Hash maps (\<open>map.go\<close>)\<close>

definition GetMap ::
  "('r, 'c) infra \<Rightarrow> ('r, 'c) DB \<Rightarrow> TableSpec \<Rightarrow> string \<Rightarrow> string \<times> go_error option" where
  "GetMap X d ts mapKey = hGet X (client d) (ts_Name ts) mapKey"

definition GetMapAll :: "('r, 'c) infra \<Rightarrow> ('r, 'c) DB \<Rightarrow> TableSpec \<Rightarrow> Value \<times> go_error option" where
  "GetMapAll X d ts =
     (let (v, e) = hGetAll X (client d) (ts_Name ts)
      in if length v \<noteq> 0 then (\<lparr>Field = v\<rparr>, e)
         else (\<lparr>Field = []\<rparr>, Some (TranslibRedisClientEntryNotExist (ts_Name ts))))"

definition SetMap ::
  "('r, 'c) infra \<Rightarrow> ('r, 'c) DB \<Rightarrow> TableSpec \<Rightarrow> string \<Rightarrow> string \<Rightarrow> go_error option \<times> ('r, 'c) DB" where
  "SetMap X d ts mapKey mapValue = withClient d (hSet X (ts_Name ts) mapKey mapValue (client d))"

definition DeleteMapAll ::
  "('r, 'c) infra \<Rightarrow> ('r, 'c) DB \<Rightarrow> TableSpec \<Rightarrow> go_error option \<times> ('r, 'c) DB" where
  "DeleteMapAll X d ts = withClient d (redisDel X (ts_Name ts) (client d))"

end
