(* ===== verification/Db_Tx.thy ===== *)
theory Db_Tx
  imports Db
begin

text \<open>
  Correctness of the transaction state machine of \<^verbatim>\<open>db.go\<close>: the invariant of the DB object, what
  each operation does to the pending lists, the exact command sequence of a commit, and the
  behaviour of the operations on their error paths.
\<close>

named_theorems db_ops \<comment> \<open>the write operations, unfolded to \<^verbatim>\<open>doCVL\<close> and \<^verbatim>\<open>doWrite\<close>\<close>

lemma withClient_simps [simp]:
  "fst (withClient d er) = fst er"
  "txState (snd (withClient d er)) = txState d"
  "txCmds (snd (withClient d er)) = txCmds d"
  "cvlEditConfigData (snd (withClient d er)) = cvlEditConfigData d"
  "cv (snd (withClient d er)) = cv d"
  "Opts (snd (withClient d er)) = Opts d"
  "client (snd (withClient d er)) = snd er"
  by (simp_all add: withClient_def)

subsection \<open>Building the edit request\<close>

lemma addEdit_fold:
  assumes "\<forall>(op, v) \<in> set ovs. op \<noteq> OP_NONE"
  shows "fold (addEdit opts ts key) ovs (e, eds) =
    (e, eds @ map (\<lambda>(op, v). \<lparr>VType = VALIDATE_ALL, VOp = op, cfgKey = key2redis opts ts key,
                               cfgData = Field v\<rparr>) ovs)"
  using assms
proof (induction ovs arbitrary: eds)
  case (Cons ov ovs)
  obtain op v where ov: "ov = (op, v)" by (cases ov)
  with Cons.prems have "addEdit opts ts key ov (e, eds) =
    (e, eds @ [\<lparr>VType = VALIDATE_ALL, VOp = op, cfgKey = key2redis opts ts key, cfgData = Field v\<rparr>])"
    by (cases op) (auto simp: addEdit_def)
  with Cons ov show ?case by simp
qed simp

definition editsOf ::
  "Options \<Rightarrow> TableSpec \<Rightarrow> Key \<Rightarrow> CVLOperation list \<Rightarrow> Value list \<Rightarrow> CVLEditConfigData list" where
  "editsOf opts ts key ops vals =
     map (\<lambda>(op, v). \<lparr>VType = VALIDATE_ALL, VOp = op, cfgKey = key2redis opts ts key,
                      cfgData = Field v\<rparr>) (zip ops vals)"

lemma length_editsOf [simp]: "length ops = length vals \<Longrightarrow> length (editsOf opts ts key ops vals) = length ops"
  by (simp add: editsOf_def)

definition validated :: "CVLEditConfigData list \<Rightarrow> CVLEditConfigData list" where
  "validated eds = map (\<lambda>ed. ed\<lparr>VType := VALIDATE_NONE\<rparr>) eds"

lemma markValidated_append: "length b = n \<Longrightarrow> markValidated n (a @ b) = a @ validated b"
  by (simp add: markValidated_def validated_def)

text \<open>
  \<^verbatim>\<open>doCVL\<close> inside a transaction: the request is the pending edits followed by the new ones; the
  new ones are kept, marked as validated, when validation succeeds and dropped when it fails.
\<close>

lemma doCVL_open:
  assumes "\<not> DisableCVLCheck (Opts d)" "txState d \<noteq> txStateNone" "length ops = length vals"
    and "OP_NONE \<notin> set ops"
  shows "doCVL X d ts ops key vals =
    (let new = editsOf (Opts d) ts key ops vals;
         ((cei, ret), c) = validateEdit X (cv d) (cvlEditConfigData d @ new)
     in if ret \<noteq> CVL_SUCCESS
        then (Some (TranslibCVLFailure (cvlCode ret) cei), d\<lparr>cv := c\<rparr>)
        else (None, d\<lparr>cvlEditConfigData := cvlEditConfigData d @ validated new, cv := c\<rparr>))"
proof -
  have *: "\<forall>(op, v) \<in> set (zip ops vals). op \<noteq> OP_NONE"
    using assms(4) by (auto dest: set_zip_leftD)
  have len: "length (editsOf (Opts d) ts key ops vals) = length ops"
    using assms(3) by simp
  show ?thesis
    using assms(1-3) len markValidated_append [OF len, of "cvlEditConfigData d"]
    unfolding doCVL_def
    by (simp add: addEdit_fold [OF *] editsOf_def [symmetric] Let_def split: prod.splits)
qed

lemma doCVL_closed: "txState d = txStateNone \<Longrightarrow> doCVL X d ts ops key vals = (None, d)"
  by (simp add: doCVL_def)

lemma doCVL_disabled: "DisableCVLCheck (Opts d) \<Longrightarrow> doCVL X d ts ops key vals = (None, d)"
  by (simp add: doCVL_def)

text \<open>What \<^verbatim>\<open>doCVL\<close> never touches.\<close>

lemma doCVL_frame [simp]:
  "client (snd (doCVL X d ts ops key vals)) = client d"
  "Opts (snd (doCVL X d ts ops key vals)) = Opts d"
  "txState (snd (doCVL X d ts ops key vals)) = txState d"
  "txCmds (snd (doCVL X d ts ops key vals)) = txCmds d"
  by (simp_all add: doCVL_def Let_def split: prod.split option.split)

subsection \<open>Writing\<close>

lemma doWrite_disabled:
  "IsWriteDisabled (Opts d) \<Longrightarrow>
   doWrite X d ts op key val = (Some (ErrorString ''Write to DB disabled during this operation''), d)"
  by (simp add: doWrite_def)

lemma doWrite_open:
  assumes "\<not> IsWriteDisabled (Opts d)" "txState d = txStateWatch \<or> txState d = txStateSet" "op \<noteq> txOpNone"
  shows "doWrite X d ts op key val =
    (None, d\<lparr>txState := txStateSet,
             txCmds := txCmds d @ [\<lparr>cmd_ts = ts, cmd_op = op, cmd_key = key,
                         cmd_value = (if op = txOpDel then \<lparr>Field = []\<rparr> else val)\<rparr>]\<rparr>)"
  using assms by (cases op; auto simp: doWrite_def)

lemma doWrite_Opts [simp]: "Opts (snd (doWrite X d ts op key val)) = Opts d"
  by (auto simp: doWrite_def Let_def split: TxState.split TxOp.split)

lemma doWrite_client: "txState d \<noteq> txStateNone \<Longrightarrow> client (snd (doWrite X d ts op key val)) = client d"
  by (auto simp: doWrite_def Let_def split: TxState.split TxOp.split)

lemma doWrite_stays_open:
  "txState (snd (doWrite X d ts op key val)) = txStateNone \<Longrightarrow> txState d = txStateNone"
  by (cases "txState d"; cases op) (auto simp: doWrite_def Let_def split: if_splits)

lemma doWrite_edits [simp]:
  "cvlEditConfigData (snd (doWrite X d ts op key val)) = cvlEditConfigData d"
  "cv (snd (doWrite X d ts op key val)) = cv d"
  by (auto simp: doWrite_def Let_def split: TxState.split TxOp.split)

subsection \<open>The invariant\<close>

definition tx_inv :: "('r, 'c) infra \<Rightarrow> ('r, 'c) DB \<Rightarrow> bool" where
  "tx_inv X d \<longleftrightarrow>
     txState d \<noteq> txStateMultiExec \<and>
     (txState d = txStateNone \<longrightarrow> txCmds d = [] \<and> cvlEditConfigData d = []) \<and>
     (txState d = txStateSet \<longrightarrow> txCmds d \<noteq> []) \<and>
     list_all (\<lambda>c. cmd_op c \<noteq> txOpNone) (txCmds d) \<and>
     list_all (\<lambda>ed. VType ed = VALIDATE_NONE) (cvlEditConfigData d) \<and>
     (txState d \<noteq> txStateNone \<longrightarrow> cv d \<noteq> nilSess X)"

text \<open>What the invariant needs of the CVL session functions: sessions are never \<^verbatim>\<open>nil\<close>.\<close>

definition sess_ok :: "('r, 'c) infra \<Rightarrow> bool" where
  "sess_ok X \<longleftrightarrow>
     fst (sessOpen X) \<noteq> nilSess X \<and> (\<forall>c eds. c \<noteq> nilSess X \<longrightarrow> snd (validateEdit X c eds) \<noteq> nilSess X)"

lemma tx_inv_cases:
  assumes "tx_inv X d"
  obtains (idle) "txState d = txStateNone" "txCmds d = []" "cvlEditConfigData d = []"
  | (active) "txState d = txStateWatch \<or> txState d = txStateSet" "cv d \<noteq> nilSess X"
  using assms by (cases "txState d") (auto simp: tx_inv_def)

lemma tx_inv_NewDB: "tx_inv X (fst (NewDB X opt))"
  by (auto simp: NewDB_def tx_inv_def Let_def)

lemma tx_inv_client [simp]: "tx_inv X (d\<lparr>client := r\<rparr>) \<longleftrightarrow> tx_inv X d"
  by (simp add: tx_inv_def)

lemma tx_inv_withClient [simp]: "tx_inv X (snd (withClient d er)) \<longleftrightarrow> tx_inv X d"
  by (simp add: withClient_def)

lemma tx_inv_doCVL:
  assumes "sess_ok X" "tx_inv X d" "length ops = length vals" "OP_NONE \<notin> set ops"
  shows "tx_inv X (snd (doCVL X d ts ops key vals))"
proof (cases "DisableCVLCheck (Opts d) \<or> txState d = txStateNone")
  case True
  with assms(2) show ?thesis by (auto simp: doCVL_def)
next
  case False
  obtain cei ret c where v: "validateEdit X (cv d)
      (cvlEditConfigData d @ editsOf (Opts d) ts key ops vals) = ((cei, ret), c)"
    by (metis prod.exhaust)
  have "cv d \<noteq> nilSess X" using assms(2) False by (auto simp: tx_inv_def)
  with v assms(1) have "c \<noteq> nilSess X" by (metis sess_ok_def snd_conv)
  with assms(2) False v show ?thesis
    by (auto simp: doCVL_open [OF _ _ assms(3,4)] tx_inv_def Let_def validated_def list_all_iff)
qed

lemma tx_inv_doWrite:
  assumes "tx_inv X d" "op \<noteq> txOpNone"
  shows "tx_inv X (snd (doWrite X d ts op key val))"
proof (cases "IsWriteDisabled (Opts d)")
  case True
  with assms show ?thesis by (simp add: doWrite_disabled)
next
  case False
  from assms(1) show ?thesis
  proof (cases rule: tx_inv_cases)
    case idle
    with False assms show ?thesis by (cases op) (auto simp: doWrite_def)
  next
    case active
    with False assms show ?thesis by (auto simp: doWrite_open tx_inv_def)
  qed
qed

subsection \<open>Closure of the write operations\<close>

text \<open>
  Every write operation is validation followed by writes, in some order.  So a property of the
  object that \<^verbatim>\<open>doCVL\<close> and \<^verbatim>\<open>doWrite\<close> keep is kept by all of them.
\<close>

locale write_closed =
  fixes X :: "('r, 'c) infra"
    and I :: "('r, 'c) DB \<Rightarrow> bool"
  assumes I_doCVL: "I d \<Longrightarrow> length ops = length vals \<Longrightarrow> OP_NONE \<notin> set ops \<Longrightarrow>
                    I (snd (doCVL X d ts ops key vals))"
    and I_doWrite: "I d \<Longrightarrow> op \<noteq> txOpNone \<Longrightarrow> I (snd (doWrite X d ts op key val))"
begin

lemma I_DeleteEntry: "I d \<Longrightarrow> I (snd (DeleteEntry X d ts key))"
  by (auto simp: DeleteEntry_def Let_def split_def intro!: I_doWrite I_doCVL)

lemma I_two_writes:
  assumes "I d1"
  shows "I (snd (let (e2, d2) = doWrite X d1 ts txOpHMSet key v
      in if e2 = None \<and> P then doWrite X d2 ts txOpHDel key w else (e2, d2)))"
  using I_doWrite [OF assms, of txOpHMSet ts key v] by (auto simp: Let_def split_def intro: I_doWrite)

lemma I_setEntry:
  assumes "I d"
  shows "I (snd (setEntry X d ts key v isCreate))"
proof (cases "Field v = []")
  case True
  with assms show ?thesis by (simp add: setEntry_def I_DeleteEntry)
next
  case False
  define cur_e where "cur_e = (if \<not> isCreate then GetEntry X d ts key else (\<lparr>Field = []\<rparr>, None))"
  define compl where
    "compl = (if \<not> isCreate \<and> snd cur_e = None then valueComplement v (fst cur_e) else \<lparr>Field = []\<rparr>)"
  define p where "p =
    (if \<not> isCreate \<and> snd cur_e = None
     then (if length (Field compl) = 0 then doCVL X d ts [OP_UPDATE] key [v]
           else doCVL X d ts [OP_UPDATE, OP_DELETE] key [v, compl])
     else doCVL X d ts [OP_CREATE] key [v])"
  have f: "(length (Field v) = 0) = False" using False by simp
  have I: "I (snd p)"
    using assms by (auto simp: p_def intro!: I_doCVL)
  have eq: "setEntry X d ts key v isCreate =
    (if fst p \<noteq> None then p
     else let (e2, d2) = doWrite X (snd p) ts txOpHMSet key v
          in if e2 = None \<and> length (Field compl) \<noteq> 0
             then doWrite X d2 ts txOpHDel key compl else (e2, d2))"
    by (simp only: setEntry_def f if_False Let_def split_def cur_e_def [symmetric]
        compl_def [symmetric] p_def [symmetric] prod.collapse)
  show ?thesis
  proof (cases "fst p = None")
    case True
    then show ?thesis using I_two_writes [OF I] by (simp add: eq)
  next
    case False
    with I show ?thesis by (simp add: eq)
  qed
qed

lemma I_CreateEntry: "I d \<Longrightarrow> I (snd (CreateEntry X d ts key v))"
  by (simp add: CreateEntry_def I_setEntry)

lemma I_SetEntry: "I d \<Longrightarrow> I (snd (SetEntry X d ts key v))"
  by (simp add: SetEntry_def I_setEntry)

lemma I_ModEntry: "I d \<Longrightarrow> I (snd (ModEntry X d ts key v))"
  by (auto simp: ModEntry_def Let_def split_def intro!: I_DeleteEntry I_doWrite I_doCVL)

lemma I_DeleteEntryFields: "I d \<Longrightarrow> I (snd (DeleteEntryFields X d ts key v))"
  by (auto simp: DeleteEntryFields_def Let_def split_def intro!: I_doWrite I_doCVL)

lemma I_deleteKeysLoop: "deleteKeysLoop X ts rks ed = Some ed' \<Longrightarrow> I (snd ed) \<Longrightarrow> I (snd ed')"
proof (induction rks arbitrary: ed)
  case (Cons rk rks)
  obtain e d where ed: "ed = (e, d)" by (cases ed)
  with Cons.prems obtain k where "deleteKeysLoop X ts rks (DeleteEntry X d ts k) = Some ed'"
    by (auto split: bind_splits)
  then show ?case using Cons.IH I_DeleteEntry Cons.prems(2) ed by simp
qed simp

lemma I_DeleteKeys: "DeleteKeys X d ts key = Some (e, d') \<Longrightarrow> I d \<Longrightarrow> I d'"
  by (auto simp: DeleteKeys_def dest!: I_deleteKeysLoop split: prod.splits)

lemma I_deleteTableLoop: "I d \<Longrightarrow> I (deleteTableLoop X ts ks d)"
proof (induction ks arbitrary: d)
  case (Cons k ks)
  have "I (snd (DeleteEntry X d ts k))" using Cons.prems by (rule I_DeleteEntry)
  with Cons.IH show ?case by (auto split: prod.split option.split)
qed simp

lemma I_DeleteTable: "DeleteTable X d ts = Some (e, d') \<Longrightarrow> I d \<Longrightarrow> I d'"
  by (auto simp: DeleteTable_def I_deleteTableLoop split: bind_splits if_splits)

lemmas I_writes = I_CreateEntry I_SetEntry I_ModEntry I_DeleteEntry I_DeleteEntryFields
  I_DeleteKeys I_DeleteTable

end

interpretation inv_writes: write_closed X "\<lambda>d. sess_ok X \<and> tx_inv X d" for X
  by unfold_locales (auto intro: tx_inv_doCVL tx_inv_doWrite)

text \<open>Inside a transaction no write operation reaches the server.\<close>

interpretation open_writes: write_closed X "\<lambda>d. txState d \<noteq> txStateNone \<and> client d = r" for X r
proof (unfold_locales, goal_cases)
  case (2 d op ts key val)
  then show ?case by (auto simp: doWrite_client dest: doWrite_stays_open)
qed simp

subsection \<open>Starting, extending and closing a transaction\<close>

lemma performWatch_result:
  assumes "performWatch X d w tss = Some (e, d')"
  obtains r where "d' = d\<lparr>client := r, txState := txStateWatch\<rparr>"
proof -
  from assms obtain wargs where w: "those (map (watchArgs X d) w) = Some wargs"
    by (cases "those (map (watchArgs X d) w)") (simp_all add: performWatch_def)
  let ?args = "RStr ''WATCH'' # concat wargs @ map (\<lambda>ts. RStr (ts2redisUpdated ts)) tss"
  show thesis
  proof (cases "length ?args = 1")
    case True
    with assms w have "d' = d\<lparr>client := client d, txState := txStateWatch\<rparr>"
      by (simp add: performWatch_def)
    then show thesis by (rule that)
  next
    case False
    with assms w have "d' = d\<lparr>client := snd (redisDo X ?args (client d)), txState := txStateWatch\<rparr>"
      by (auto simp: performWatch_def withClient_def Let_def split: if_splits)
    then show thesis by (rule that)
  qed
qed

lemma StartTx_cases:
  assumes "StartTx X d w tss = Some (e, d')"
  obtains (fail) "e \<noteq> None" "d' = d\<lparr>cv := fst (sessOpen X)\<rparr>"
  | (watch) r where "txState d = txStateNone"
      "d' = d\<lparr>cv := fst (sessOpen X), client := r, txState := txStateWatch\<rparr>"
proof (cases "snd (sessOpen X) = CVL_SUCCESS \<and> txState d = txStateNone")
  case True
  with assms have "performWatch X (d\<lparr>cv := fst (sessOpen X)\<rparr>) w tss = Some (e, d')"
    by (auto simp: StartTx_def Let_def split_def)
  from performWatch_result [OF this] obtain r
    where "d' = d\<lparr>cv := fst (sessOpen X), client := r, txState := txStateWatch\<rparr>" .
  with True show thesis by (intro watch) auto
next
  case False
  with assms show thesis by (intro fail) (auto simp: StartTx_def Let_def split_def split: if_splits)
qed

lemma tx_inv_StartTx:
  assumes "sess_ok X" "tx_inv X d" "StartTx X d w tss = Some (e, d')"
  shows "tx_inv X d'"
  using assms(3)
  by (cases rule: StartTx_cases) (use assms(1,2) in \<open>auto simp: tx_inv_def sess_ok_def\<close>)

lemma AppendWatchTx_cases:
  assumes "AppendWatchTx X d w tss = Some (e, d')"
  obtains (closed) "txState d = txStateNone" "e \<noteq> None" "d' = d"
  | (watch) r where "txState d \<noteq> txStateNone" "d' = d\<lparr>client := r, txState := txStateWatch\<rparr>"
proof (cases "txState d = txStateNone")
  case True
  from assms have "e \<noteq> None" "d' = d" by (auto simp: AppendWatchTx_def True)
  with True show thesis by (rule closed)
next
  case False
  with assms have "performWatch X d w tss = Some (e, d')" by (simp add: AppendWatchTx_def)
  from performWatch_result [OF this] obtain r where "d' = d\<lparr>client := r, txState := txStateWatch\<rparr>" .
  with False show thesis by (rule watch)
qed

lemma tx_inv_AppendWatchTx:
  assumes "tx_inv X d" "AppendWatchTx X d w tss = Some (e, d')"
  shows "tx_inv X d'"
  using assms(2) by (cases rule: AppendWatchTx_cases) (use assms(1) in \<open>auto simp: tx_inv_def\<close>)

lemma CommitTx_state:
  "txState (snd (CommitTx X d)) = (if txState d = txStateMultiExec then txStateMultiExec else txStateNone)"
  by (simp add: CommitTx_def commitCheck_def Let_def split_def split: TxState.split)

lemma tx_inv_CommitTx: "tx_inv X d \<Longrightarrow> tx_inv X (snd (CommitTx X d))"
  by (cases "txState d") (auto simp: CommitTx_def commitCheck_def tx_inv_def Let_def split_def)

lemma tx_inv_AbortTx: "tx_inv X d \<Longrightarrow> tx_inv X (snd (AbortTx X d))"
  by (cases "txState d") (auto simp: AbortTx_def commitCheck_def tx_inv_def Let_def split_def)

subsection \<open>Steps and reachable states\<close>

text \<open>
  A step of a DB object: one call of the API, or a change of the server by somebody else (a new
  connection state).
\<close>

inductive db_step :: "('r, 'c) infra \<Rightarrow> ('r, 'c) DB \<Rightarrow> ('r, 'c) DB \<Rightarrow> bool" for X where
  create: "db_step X d (snd (CreateEntry X d ts key v))"
| set: "db_step X d (snd (SetEntry X d ts key v))"
| mod: "db_step X d (snd (ModEntry X d ts key v))"
| delete: "db_step X d (snd (DeleteEntry X d ts key))"
| deleteFields: "db_step X d (snd (DeleteEntryFields X d ts key v))"
| deleteKeys: "DeleteKeys X d ts key = Some (e, d') \<Longrightarrow> db_step X d d'"
| deleteTable: "DeleteTable X d ts = Some (e, d') \<Longrightarrow> db_step X d d'"
| publish: "db_step X d (snd (Publish X d ch msg))"
| setMap: "db_step X d (snd (SetMap X d ts k s))"
| deleteMap: "db_step X d (snd (DeleteMapAll X d ts))"
| start: "StartTx X d w tss = Some (e, d') \<Longrightarrow> db_step X d d'"
| append: "AppendWatchTx X d w tss = Some (e, d') \<Longrightarrow> db_step X d d'"
| commit: "db_step X d (snd (CommitTx X d))"
| abort: "db_step X d (snd (AbortTx X d))"
| other: "db_step X d (d\<lparr>client := r\<rparr>)"

lemma db_step_inv:
  assumes "sess_ok X" "tx_inv X d" "db_step X d d'"
  shows "tx_inv X d'"
  using assms(3,2)
  by (cases rule: db_step.cases)
     (use assms(1) inv_writes.I_writes [of X] in \<open>auto simp: Publish_def SetMap_def DeleteMapAll_def
        intro: tx_inv_StartTx tx_inv_AppendWatchTx tx_inv_CommitTx tx_inv_AbortTx\<close>)

definition opened :: "('r, 'c) infra \<Rightarrow> ('r, 'c) DB \<Rightarrow> bool" where
  "opened X d \<longleftrightarrow> sess_ok X \<and> (\<exists>opt. d = fst (NewDB X opt))"

interpretation db: invariant_system "opened X" "db_step X" "\<lambda>d. sess_ok X \<and> tx_inv X d" for X
  by unfold_locales (auto simp: opened_def tx_inv_NewDB intro: db_step_inv)


subsection \<open>Transactions isolate and commit atomically\<close>

text \<open>A write operation of the API, as one relation.\<close>

inductive tx_write :: "('r, 'c) infra \<Rightarrow> ('r, 'c) DB \<Rightarrow> ('r, 'c) DB \<Rightarrow> bool" for X where
  create: "tx_write X d (snd (CreateEntry X d ts key v))"
| set: "tx_write X d (snd (SetEntry X d ts key v))"
| mod: "tx_write X d (snd (ModEntry X d ts key v))"
| delete: "tx_write X d (snd (DeleteEntry X d ts key))"
| deleteFields: "tx_write X d (snd (DeleteEntryFields X d ts key v))"
| deleteKeys: "DeleteKeys X d ts key = Some (e, d') \<Longrightarrow> tx_write X d d'"
| deleteTable: "DeleteTable X d ts = Some (e, d') \<Longrightarrow> tx_write X d d'"

lemma tx_write_step: "tx_write X d d' \<Longrightarrow> db_step X d d'"
  by (cases rule: tx_write.cases) (auto intro: db_step.intros)

lemma tx_write_open:
  assumes "tx_write X d d'" "txState d \<noteq> txStateNone \<and> client d = r"
  shows "txState d' \<noteq> txStateNone \<and> client d' = r"
  using assms(1)
proof cases
  case (deleteKeys ts key e)
  then show ?thesis using assms(2) by (rule open_writes.I_DeleteKeys)
next
  case (deleteTable ts e)
  then show ?thesis using assms(2) by (rule open_writes.I_DeleteTable)
qed (use assms(2) open_writes.I_writes(1-5) in simp_all)

lemma tx_writes_open:
  "(tx_write X)\<^sup>*\<^sup>* d d' \<Longrightarrow> txState d \<noteq> txStateNone \<Longrightarrow> txState d' \<noteq> txStateNone \<and> client d' = client d"
proof (induction rule: rtranclp_induct)
  case (step y z)
  then show ?case using tx_write_open [of X y z "client d"] by simp
qed simp

text \<open>
  The command sequence of a commit.  \<open>dupFree\<close> is the list of updated tables, each once.
\<close>

definition commitTables :: "TxCmd list \<Rightarrow> TableSpec list" where
  "commitTables cmds = map fst (fold (\<lambda>c m. mapPut (cmd_ts c) True m) cmds [])"

definition commitScript :: "('r, 'c) infra \<Rightarrow> Options \<Rightarrow> TxCmd list \<Rightarrow> redis_arg list list" where
  "commitScript X opts cmds =
     [[RStr ''MULTI'']] @
     map (\<lambda>c. the (cmdArgs opts c)) cmds @
     map (\<lambda>ts. [RStr ''SET'', RStr (ts2redisUpdated ts), RStr ''1'']) (rangeOrder X (commitTables cmds)) @
     [[RStr ''SET'', RStr ''CONFIG_DB_UPDATED'', RStr ''1'']]"

lemma commitTables_wf: "distinct (commitTables cmds) \<and> set (commitTables cmds) = cmd_ts ` set cmds"
proof -
  have "gomap_wf m \<Longrightarrow> gomap_wf (fold (\<lambda>c m. mapPut (cmd_ts c) True m) cmds m) \<and>
    fst ` set (fold (\<lambda>c m. mapPut (cmd_ts c) True m) cmds m) = cmd_ts ` set cmds \<union> fst ` set m" for m
    by (induction cmds arbitrary: m) auto
  from this [of "[]"] show ?thesis by (simp add: commitTables_def)
qed

lemma cmdArgs_total: "cmd_op c \<noteq> txOpNone \<Longrightarrow> \<exists>a b rest. cmdArgs opts c = Some (a # b # rest)"
  by (cases "cmd_op c") (auto simp: cmdArgs_def)

lemma commit_fold:
  assumes "list_all (\<lambda>c. cmd_op c \<noteq> txOpNone) cmds"
  shows "fold (\<lambda>c (m, r). (mapPut (cmd_ts c) True m,
              case cmdArgs opts c of Some args \<Rightarrow> doLogged X args r | None \<Rightarrow> r)) cmds (m, r) =
    (fold (\<lambda>c m. mapPut (cmd_ts c) True m) cmds m,
     fold (doLogged X) (map (\<lambda>c. the (cmdArgs opts c)) cmds) r)"
  using assms
proof (induction cmds arbitrary: m r)
  case (Cons c cmds)
  then obtain a b rest where "cmdArgs opts c = Some (a # b # rest)"
    using cmdArgs_total [of c opts] by auto
  with Cons show ?case by auto
qed simp

lemma ts2redisUpdated_star: "ts2redisUpdated \<lparr>ts_Name = ''*'', ts_CompCt = 0\<rparr> = ''CONFIG_DB_UPDATED''"
  by (simp add: ts2redisUpdated_def containsStr_char)

lemma CommitTx_eq:
  assumes "tx_inv X d" "txState d \<noteq> txStateNone"
  shows "CommitTx X d =
    (let r = fold (doLogged X) (commitScript X (Opts d) (txCmds d)) (client d);
         (e, r') = redisDo X [RStr ''EXEC''] r
     in (if e \<noteq> None then Some TranslibTransactionFail else None,
         d\<lparr>client := r', txState := txStateNone, txCmds := [], cvlEditConfigData := [],
           cv := nilSess X\<rparr>))"
proof -
  from assms have ops: "list_all (\<lambda>c. cmd_op c \<noteq> txOpNone) (txCmds d)"
    and "commitCheck (txState d) s = None" for s
    by (auto simp: tx_inv_def commitCheck_def split: TxState.split)
  then show ?thesis
    by (simp add: CommitTx_def commit_fold [OF ops] commitScript_def commitTables_def
        ts2redisUpdated_star fold_map o_def del: fold_simps)
qed

subsection \<open>Read-only objects\<close>

interpretation disabled_writes: write_closed X "\<lambda>d. IsWriteDisabled (Opts d) \<and> client d = r \<and> txCmds d = cs" for X r cs
  by unfold_locales (auto simp: doWrite_disabled)

lemma tx_write_disabled:
  assumes "tx_write X d d'" "IsWriteDisabled (Opts d) \<and> client d = r \<and> txCmds d = cs"
  shows "IsWriteDisabled (Opts d') \<and> client d' = r \<and> txCmds d' = cs"
  using assms(1)
proof cases
  case (deleteKeys ts key e)
  then show ?thesis using assms(2) by (rule disabled_writes.I_DeleteKeys)
next
  case (deleteTable ts e)
  then show ?thesis using assms(2) by (rule disabled_writes.I_DeleteTable)
qed (use assms(2) disabled_writes.I_writes(1-5) in simp_all)

lemma tx_writes_disabled:
  "(tx_write X)\<^sup>*\<^sup>* d d' \<Longrightarrow> IsWriteDisabled (Opts d) \<Longrightarrow> client d' = client d \<and> txCmds d' = txCmds d"
proof (induction rule: rtranclp_induct)
  case (step y z)
  have "IsWriteDisabled (Opts y) \<and> client y = client d \<and> txCmds y = txCmds d"
    using step.hyps(1) step.prems
    by (induction rule: rtranclp_induct) (auto dest: tx_write_disabled)
  from tx_write_disabled [OF step.hyps(2) this] show ?case by simp
qed simp

end
