(* ===== verification/Db_Spec.thy ===== *)
theory Db_Spec
  imports Db_Tx
begin

text \<open>
  What package \<^verbatim>\<open>translib/db\<close> promises its callers, stated over the documented behaviour of Redis
  (\<open>multi_exec\<close>, \<open>redis_hash\<close>: hypotheses about the record \<^verbatim>\<open>infra\<close>), with an in-memory server
  on which the hypotheses hold.
\<close>

subsection \<open>Documented behaviour of the server\<close>

text \<open>
  MULTI opens a queue, every later command is queued, and EXEC runs the queue as a whole or, when a
  watched key has changed, not at all.  \<open>store\<close> reads the database out of the connection state,
  \<open>queue\<close> the commands queued so far, \<open>app\<close> is the effect of one command.
\<close>

definition multi_exec ::
  "('r, 'c) infra \<Rightarrow> ('r \<Rightarrow> 's) \<Rightarrow> ('r \<Rightarrow> redis_arg list list option) \<Rightarrow>
   (redis_arg list \<Rightarrow> 's \<Rightarrow> 's) \<Rightarrow> bool" where
  "multi_exec X store queue app \<longleftrightarrow>
     (\<forall>r. queue r = None \<longrightarrow>
        store (doLogged X [RStr ''MULTI''] r) = store r \<and>
        queue (doLogged X [RStr ''MULTI''] r) = Some []) \<and>
     (\<forall>r q args. queue r = Some q \<longrightarrow> 2 \<le> length args \<longrightarrow>
        store (doLogged X args r) = store r \<and> queue (doLogged X args r) = Some (q @ [args])) \<and>
     (\<forall>r q. queue r = Some q \<longrightarrow>
        (case redisDo X [RStr ''EXEC''] r of
           (None, r') \<Rightarrow> store r' = fold app q (store r)
         | (Some _, r') \<Rightarrow> store r' = store r))"

definition hashOf :: "('r, 'c) infra \<Rightarrow> 'r \<Rightarrow> string \<Rightarrow> string \<Rightarrow> string option" where
  "hashOf X r k = mapGet (fst (hGetAll X r k))"

text \<open>
  Hash commands: HGETALL gives no fields when it fails; a successful HMSET overrides the given
  fields, HDEL removes the named ones, DEL removes the key; none of them touches another key.
\<close>

definition redis_hash :: "('r, 'c) infra \<Rightarrow> bool" where
  "redis_hash X \<longleftrightarrow>
     (\<forall>r k. snd (hGetAll X r k) \<noteq> None \<longrightarrow> hashOf X r k = Map.empty) \<and>
     (\<forall>r k fs r'. hMSet X k fs r = (None, r') \<longrightarrow> gomap_wf fs \<longrightarrow>
        hashOf X r' = (hashOf X r)(k := hashOf X r k ++ mapGet fs)) \<and>
     (\<forall>r k ns r'. hDel X k ns r = (None, r') \<longrightarrow>
        hashOf X r' = (hashOf X r)(k := hashOf X r k |` (- set ns))) \<and>
     (\<forall>r k r'. redisDel X k r = (None, r') \<longrightarrow> hashOf X r' = (hashOf X r)(k := Map.empty))"

subsection \<open>An in-memory server\<close>

record mem =
  m_hash :: "(string, fields) gomap"
  m_queue :: "redis_arg list list option"
  m_conflict :: bool

fun argStr :: "redis_arg \<Rightarrow> string" where
  "argStr (RStr s) = s"
| "argStr (RKey k) = []"

fun argPairs :: "redis_arg list \<Rightarrow> fields" where
  "argPairs (k # v # rest) = (argStr k, argStr v) # argPairs rest"
| "argPairs _ = []"

definition memHash :: "(string, fields) gomap \<Rightarrow> string \<Rightarrow> fields" where
  "memHash h k = (case mapGet h k of Some f \<Rightarrow> f | None \<Rightarrow> [])"

definition memApply :: "redis_arg list \<Rightarrow> (string, fields) gomap \<Rightarrow> (string, fields) gomap" where
  "memApply args h =
     (case args of
        c # k # rest \<Rightarrow>
          (if argStr c = ''HMSET''
           then mapPut (argStr k) (mapPutAll (memHash h (argStr k)) (argPairs rest)) h
           else if argStr c = ''HDEL''
           then mapPut (argStr k) (fold (\<lambda>a f. mapDel (argStr a) f) rest (memHash h (argStr k))) h
           else if argStr c = ''DEL'' then mapDel (argStr k) h else h)
      | _ \<Rightarrow> h)"

definition memDo :: "redis_arg list \<Rightarrow> mem \<Rightarrow> go_error option \<times> mem" where
  "memDo args m =
     (if args = [RStr ''MULTI''] then (None, m\<lparr>m_queue := Some []\<rparr>)
      else case m_queue m of
        Some q \<Rightarrow>
          (if args = [RStr ''EXEC'']
           then (if m_conflict m then (Some (ErrorString ''redis: nil''), m\<lparr>m_queue := None\<rparr>)
                 else (None, m\<lparr>m_queue := None, m_hash := fold memApply q (m_hash m)\<rparr>))
           else (None, m\<lparr>m_queue := Some (q @ [args])\<rparr>))
      | None \<Rightarrow> (None, m\<lparr>m_hash := memApply args (m_hash m)\<rparr>))"

text \<open>Sessions of the demonstration accept every request and count the calls.\<close>

definition memInfra :: "(mem, nat) infra" where
  "memInfra = \<lparr>newClient = (\<lambda>_. \<lparr>m_hash = [], m_queue = None, m_conflict = False\<rparr>),
     nilClient = \<lparr>m_hash = [], m_queue = Some [], m_conflict = True\<rparr>,
     closeClient = (\<lambda>m. (None, m)), getInt = (\<lambda>_ _. 1),
     hGet = (\<lambda>m k f. (mapStr (memHash (m_hash m) k) f, None)),
     hGetAll = (\<lambda>m k. (memHash (m_hash m) k, None)),
     redisKeys = (\<lambda>m p. (map fst (m_hash m), None)),
     hMSet = (\<lambda>k fs m. (None, m\<lparr>m_hash := mapPut k (mapPutAll (memHash (m_hash m) k) fs) (m_hash m)\<rparr>)),
     hSet = (\<lambda>k f v m. (None, m\<lparr>m_hash := mapPut k (mapPut f v (memHash (m_hash m) k)) (m_hash m)\<rparr>)),
     hDel = (\<lambda>k ns m. (None, m\<lparr>m_hash := mapPut k (fold mapDel ns (memHash (m_hash m) k)) (m_hash m)\<rparr>)),
     redisDel = (\<lambda>k m. (None, m\<lparr>m_hash := mapDel k (m_hash m)\<rparr>)),
     redisDo = memDo, redisPublish = (\<lambda>_ _ m. (None, m)),
     sessOpen = (1, CVL_SUCCESS), sessClose = (\<lambda>_. CVL_SUCCESS), nilSess = 0,
     validateEdit = (\<lambda>c _. ((emptyErrorInfo, CVL_SUCCESS), Suc c)), rangeOrder = id\<rparr>"

lemma sess_ok_mem: "sess_ok memInfra"
  by (simp add: sess_ok_def memInfra_def)

lemma multi_exec_mem: "multi_exec memInfra m_hash m_queue memApply"
  by (auto simp: multi_exec_def memInfra_def memDo_def doLogged_def)

definition configOpts :: Options where
  "configOpts = \<lparr>DBNo = ConfigDB, InitIndicator = [], TableNameSeparator = ''|'',
     KeySeparator = ''|'', IsWriteDisabled = False, DisableCVLCheck = False\<rparr>"

definition portTable :: TableSpec where
  "portTable = \<lparr>ts_Name = ''PORT'', ts_CompCt = 1\<rparr>"

definition mtu :: Value where
  "mtu = \<lparr>Field = [(''mtu'', ''9100'')]\<rparr>"

abbreviation memDB :: "(mem, nat) DB" where
  "memDB \<equiv> fst (NewDB memInfra configOpts)"

abbreviation eth0 :: Key where
  "eth0 \<equiv> \<lparr>Comp = [''Ethernet0'']\<rparr>"

subsection \<open>The state machine\<close>

text \<open>
  C10. From a freshly opened database object, after any sequence of API calls and of changes made by
  other clients: the state is never the unused \<^verbatim>\<open>txStateMultiExec\<close>; without a transaction nothing
  is pending; in the set state some write is pending; every pending command is a real operation
  with a Redis command; every pending edit request is already validated; and an open transaction
  has a CVL session.
\<close>

theorem db_reachable:
  assumes "sess_ok X" "(db_step X)\<^sup>*\<^sup>* (fst (NewDB X opt)) d"
  shows "txState d \<noteq> txStateMultiExec \<and>
    (txState d = txStateNone \<longrightarrow> txCmds d = [] \<and> cvlEditConfigData d = []) \<and>
    (txState d = txStateSet \<longrightarrow> txCmds d \<noteq> []) \<and>
    (\<forall>c \<in> set (txCmds d). cmdArgs (Opts d) c \<noteq> None) \<and>
    (\<forall>ed \<in> set (cvlEditConfigData d). VType ed = VALIDATE_NONE) \<and>
    (txState d \<noteq> txStateNone \<longrightarrow> cv d \<noteq> nilSess X)"
proof -
  have "opened X (fst (NewDB X opt))" using assms(1) by (auto simp: opened_def)
  then have inv: "tx_inv X d" using db.inv_reachable assms(2) by blast
  then have "\<forall>c \<in> set (txCmds d). cmdArgs (Opts d) c \<noteq> None"
    using cmdArgs_total by (fastforce simp: tx_inv_def list_all_iff)
  with inv show ?thesis by (simp add: tx_inv_def list_all_iff)
qed

definition memTx :: "(mem, nat) DB" where
  "memTx = snd (the (StartTx memInfra memDB [] [portTable]))"

definition memTxSet :: "(mem, nat) DB" where
  "memTxSet = snd (CreateEntry memInfra memTx portTable eth0 mtu)"

lemma memTx_start: "StartTx memInfra memDB [] [portTable] = Some (None, memTx)"
  by code_simp

lemma memTxSet_state: "txState memTxSet = txStateSet"
  by code_simp

lemma memTxSet_run: "(db_step memInfra)\<^sup>*\<^sup>* memDB memTxSet"
proof -
  have "db_step memInfra memDB memTx" by (rule db_step.start [OF memTx_start])
  moreover have "db_step memInfra memTx memTxSet" unfolding memTxSet_def by (rule db_step.create)
  ultimately show ?thesis by (meson rtranclp.simps)
qed

theorem db_reachable_witness: "txCmds memTxSet \<noteq> [] \<and> cv memTxSet \<noteq> nilSess memInfra"
  using db_reachable [OF sess_ok_mem memTxSet_run] memTxSet_state by simp

text \<open>
  C9. Inside a transaction no write reaches the server: whatever sequence of create, set, modify and
  delete calls is made, the connection state is the one the transaction started with, so that an
  abort (whose only command is UNWATCH) leaves nothing behind but an idle object.
\<close>

theorem tx_isolation:
  assumes "txState d = txStateWatch" "(tx_write X)\<^sup>*\<^sup>* d d'"
  shows "client d' = client d \<and> txState d' \<noteq> txStateNone \<and>
    (txState d' \<noteq> txStateMultiExec \<longrightarrow>
      AbortTx X d' = (fst (redisDo X [RStr ''UNWATCH''] (client d)),
        d'\<lparr>client := snd (redisDo X [RStr ''UNWATCH''] (client d)), txState := txStateNone,
           txCmds := [], cvlEditConfigData := [], cv := nilSess X\<rparr>))"
  using tx_writes_open [OF assms(2)] assms(1)
  by (auto simp: AbortTx_def commitCheck_def split_def Let_def split: TxState.split)

lemma memTxSet_write: "(tx_write memInfra)\<^sup>*\<^sup>* memTx memTxSet"
  unfolding memTxSet_def by (rule r_into_rtranclp) (rule tx_write.create)

lemma memTx_state: "txState memTx = txStateWatch"
  by code_simp

theorem tx_isolation_witness: "client memTxSet = client memTx \<and> txCmds memTxSet \<noteq> txCmds memTx"
proof -
  have "txCmds memTxSet \<noteq> txCmds memTx" by code_simp
  with tx_isolation [OF memTx_state memTxSet_write] show ?thesis by simp
qed

lemma multi_exec_queue:
  assumes "multi_exec X store queue app" "queue r = Some q" "\<forall>args \<in> set cs. 2 \<le> length args"
  shows "store (fold (doLogged X) cs r) = store r \<and> queue (fold (doLogged X) cs r) = Some (q @ cs)"
  using assms(2,3)
proof (induction cs arbitrary: r q)
  case (Cons args cs)
  then have "store (doLogged X args r) = store r \<and> queue (doLogged X args r) = Some (q @ [args])"
    using assms(1) by (auto simp: multi_exec_def)
  with Cons show ?case by simp
qed simp

lemma commit_all_or_nothing:
  assumes "tx_inv X d" "txState d \<noteq> txStateNone"
    and "multi_exec X store queue app" "queue (client d) = None"
    and "\<And>xs. set (rangeOrder X xs) = set xs"
  shows "\<exists>flags. set flags = (\<lambda>c. [RStr ''SET'', RStr (ts2redisUpdated (cmd_ts c)), RStr ''1'']) ` set (txCmds d) \<and>
    (case CommitTx X d of
       (None, d') \<Rightarrow>
         store (client d') =
           fold app (map (\<lambda>c. the (cmdArgs (Opts d) c)) (txCmds d) @ flags @
                     [[RStr ''SET'', RStr ''CONFIG_DB_UPDATED'', RStr ''1'']]) (store (client d))
     | (Some e, d') \<Rightarrow> e = TranslibTransactionFail \<and> store (client d') = store (client d)) \<and>
    txState (snd (CommitTx X d)) = txStateNone"
proof -
  define flags where "flags = map (\<lambda>ts. [RStr ''SET'', RStr (ts2redisUpdated ts), RStr ''1''])
    (rangeOrder X (commitTables (txCmds d)))"
  define cs where "cs = map (\<lambda>c. the (cmdArgs (Opts d) c)) (txCmds d) @ flags @
                     [[RStr ''SET'', RStr ''CONFIG_DB_UPDATED'', RStr ''1'']]"
  have "\<forall>c \<in> set (txCmds d). 2 \<le> length (the (cmdArgs (Opts d) c))"
    using assms(1) cmdArgs_total [of _ "Opts d"] by (fastforce simp: tx_inv_def list_all_iff)
  then have len: "\<forall>args \<in> set cs. 2 \<le> length args" by (auto simp: cs_def flags_def)
  define r1 where "r1 = doLogged X [RStr ''MULTI''] (client d)"
  have r1: "store r1 = store (client d)" "queue r1 = Some []"
    using assms(3,4) by (auto simp: r1_def multi_exec_def)
  define r2 where "r2 = fold (doLogged X) cs r1"
  have r2: "store r2 = store (client d)" "queue r2 = Some cs"
    using multi_exec_queue [OF assms(3) r1(2) len] r1(1) by (auto simp: r2_def)
  have script: "fold (doLogged X) (commitScript X (Opts d) (txCmds d)) (client d) = r2"
    by (simp add: commitScript_def cs_def flags_def r1_def r2_def)
  have exec: "case redisDo X [RStr ''EXEC''] r2 of
      (None, r') \<Rightarrow> store r' = fold app cs (store r2) | (Some _, r') \<Rightarrow> store r' = store r2"
    using assms(3) r2(2) by (simp add: multi_exec_def)
  obtain e r' where er: "redisDo X [RStr ''EXEC''] r2 = (e, r')" by fastforce
  have commit: "CommitTx X d = (if e \<noteq> None then Some TranslibTransactionFail else None,
      d\<lparr>client := r', txState := txStateNone, txCmds := [], cvlEditConfigData := [], cv := nilSess X\<rparr>)"
    using CommitTx_eq [OF assms(1,2)] script er by (simp add: Let_def)
  have "set flags = (\<lambda>c. [RStr ''SET'', RStr (ts2redisUpdated (cmd_ts c)), RStr ''1'']) ` set (txCmds d)"
    using assms(5) commitTables_wf [of "txCmds d"] by (auto simp: flags_def)
  moreover have "case CommitTx X d of
       (None, d') \<Rightarrow> store (client d') = fold app cs (store (client d))
     | (Some e, d') \<Rightarrow> e = TranslibTransactionFail \<and> store (client d') = store (client d)"
    using exec er r2(1) by (cases e) (auto simp: commit)
  ultimately show ?thesis by (cases e) (intro exI [of _ flags], simp add: cs_def commit)+
qed

text \<open>
  C4. A commit is atomic.  Over the documented MULTI/EXEC behaviour, \<^verbatim>\<open>CommitTx\<close> on an open
  transaction either returns no error, and then the database is what the pending commands, in the
  order they were issued, the update flags of exactly the written tables and the global update flag
  make of it; or it returns \<^verbatim>\<open>TranslibTransactionFail\<close> and the database is unchanged.  In both cases
  the object is idle again.
\<close>

theorem commit_atomic:
  assumes "tx_inv X d" "txState d \<noteq> txStateNone"
    and "multi_exec X store queue app" "queue (client d) = None"
    and "\<And>xs. set (rangeOrder X xs) = set xs"
  shows "\<exists>flags. set flags = (\<lambda>c. [RStr ''SET'', RStr (ts2redisUpdated (cmd_ts c)), RStr ''1'']) ` set (txCmds d) \<and>
    (case CommitTx X d of
       (None, d') \<Rightarrow>
         store (client d') =
           fold app (map (\<lambda>c. the (cmdArgs (Opts d) c)) (txCmds d) @ flags @
                     [[RStr ''SET'', RStr ''CONFIG_DB_UPDATED'', RStr ''1'']]) (store (client d))
     | (Some e, d') \<Rightarrow> e = TranslibTransactionFail \<and> store (client d') = store (client d)) \<and>
    txState (snd (CommitTx X d)) = txStateNone"
  using assms by (rule commit_all_or_nothing)

theorem commit_atomic_witness:
  "fst (CommitTx memInfra memTxSet) = None \<and>
   memHash (m_hash (client (snd (CommitTx memInfra memTxSet)))) ''PORT|Ethernet0'' = [(''mtu'', ''9100'')]"
proof -
  have inv: "tx_inv memInfra memTxSet"
    using db.inv_reachable [of memInfra memDB memTxSet] memTxSet_run sess_ok_mem by (auto simp: opened_def)
  have "txState memTxSet \<noteq> txStateNone" by code_simp
  moreover have "m_queue (client memTxSet) = None" by code_simp
  moreover have "set (rangeOrder memInfra xs) = set xs" for xs by (simp add: memInfra_def)
  moreover have "fst (CommitTx memInfra memTxSet) = None" by code_simp
  moreover have "memHash (m_hash (client (snd (CommitTx memInfra memTxSet)))) ''PORT|Ethernet0'' = [(''mtu'', ''9100'')]"
    by code_simp
  ultimately show ?thesis using commit_atomic [OF inv _ multi_exec_mem] by blast
qed

end
