(* ===== verification/Translib_App.thy ===== *)
theory Translib_App
  imports Db_Spec
begin

text \<open>
  The interface between translib and its application modules (\<^verbatim>\<open>translib/app_interface.go\<close>,
  \<^verbatim>\<open>authorize.go\<close>, and the types and small functions of \<^verbatim>\<open>translib.go\<close>).

  The application modules are values of an abstract type \<^typ>\<open>'a\<close>, the dynamic values of the Go
  interface \<^verbatim>\<open>appInterface\<close>; the record \<^verbatim>\<open>appInterface\<close> is its method table.  A method gets the
  module and the database objects it holds pointers to and returns what it leaves of both.  Types
  (\<^verbatim>\<open>reflect.Type\<close>) are of a type \<^typ>\<open>'t\<close>, bound ygot objects of a type \<^typ>\<open>'y\<close>.
\<close>

subsection \<open>Requests and responses\<close>

datatype ErrSource = ProtoErr | AppErr

record UserRoles =
  ur_Name :: string
  ur_Roles :: "string list"

record SetRequest =
  sr_Path :: string
  sr_Payload :: string
  sr_AuthEnabled :: bool
  sr_User :: UserRoles

record GetRequest =
  gr_Path :: string
  gr_Depth :: nat
  gr_AuthEnabled :: bool
  gr_User :: UserRoles

text \<open>\<^verbatim>\<open>ActionRequest\<close> has the fields of \<^verbatim>\<open>SetRequest\<close>, \<^verbatim>\<open>ActionResponse\<close> those of \<^verbatim>\<open>GetResponse\<close>.\<close>

type_synonym ActionRequest = SetRequest

record SetResponse =
  rs_ErrSrc :: ErrSource
  rs_Err :: "go_error option"

record GetResponse =
  rg_Payload :: string
  rg_ErrSrc :: ErrSource

type_synonym ActionResponse = GetResponse

definition emptySetResponse :: SetResponse where
  "emptySetResponse = \<lparr>rs_ErrSrc = ProtoErr, rs_Err = None\<rparr>"

definition emptyGetResponse :: GetResponse where
  "emptyGetResponse = \<lparr>rg_Payload = [], rg_ErrSrc = ProtoErr\<rparr>"

record BulkRequest =
  bk_Delete :: "SetRequest list"
  bk_Replace :: "SetRequest list"
  bk_Update :: "SetRequest list"
  bk_Create :: "SetRequest list"
  bk_User :: UserRoles
  bk_AuthEnabled :: bool

record BulkResponse =
  br_Delete :: "SetResponse list"
  br_Replace :: "SetResponse list"
  br_Update :: "SetResponse list"
  br_Create :: "SetResponse list"

record SubscribeRequest =
  sb_Paths :: "string list"
  sb_User :: UserRoles
  sb_AuthEnabled :: bool

datatype NotificationType = Sample | OnChange

record IsSubscribeResponse =
  is_Path :: string
  IsOnChangeSupported :: bool
  MinInterval :: int
  is_Err :: "go_error option"
  PreferredType :: NotificationType

record notificationOpts =
  mInterval :: int
  pType :: NotificationType

record ModelData =
  md_Name :: string
  md_Org :: string
  md_Ver :: string

definition minSubsInterval :: int where "minSubsInterval = 20"
definition maxSubsInterval :: int where "maxSubsInterval = 60"

text \<open>\<^verbatim>\<open>SubscribeResponse.Compare\<close>, the order of the notification queue.\<close>

record SubscribeResponse =
  sn_Path :: string
  sn_Payload :: string
  sn_Timestamp :: int
  SyncComplete :: bool
  IsTerminated :: bool

definition SubscribeResponse_Compare :: "SubscribeResponse \<Rightarrow> SubscribeResponse \<Rightarrow> int" where
  "SubscribeResponse_Compare val other =
     (if sn_Timestamp val > sn_Timestamp other then 1
      else if sn_Timestamp val = sn_Timestamp other then 0 else -1)"

subsection \<open>Authorization\<close>

fun hasAdmin :: "string list \<Rightarrow> bool" where
  "hasAdmin [] = False"
| "hasAdmin (r # rs) = (if r = ''admin'' then True else hasAdmin rs)"

definition isAuthorizedForSet :: "SetRequest \<Rightarrow> bool" where
  "isAuthorizedForSet req = (if \<not> sr_AuthEnabled req then True else hasAdmin (ur_Roles (sr_User req)))"

definition isAuthorizedForBulk :: "BulkRequest \<Rightarrow> bool" where
  "isAuthorizedForBulk req = (if \<not> bk_AuthEnabled req then True else hasAdmin (ur_Roles (bk_User req)))"

definition isAuthorizedForGet :: "GetRequest \<Rightarrow> bool" where
  "isAuthorizedForGet req = (if \<not> gr_AuthEnabled req then True else True)"

definition isAuthorizedForSubscribe :: "SubscribeRequest \<Rightarrow> bool" where
  "isAuthorizedForSubscribe req = (if \<not> sb_AuthEnabled req then True else True)"

definition isAuthorizedForIsSubscribe :: "SubscribeRequest \<Rightarrow> bool" where
  "isAuthorizedForIsSubscribe req = (if \<not> sb_AuthEnabled req then True else True)"

definition isAuthorizedForAction :: "ActionRequest \<Rightarrow> bool" where
  "isAuthorizedForAction req = (if \<not> sr_AuthEnabled req then True else True)"

lemma hasAdmin_iff: "hasAdmin rs \<longleftrightarrow> ''admin'' \<in> set rs"
  by (induction rs) auto

subsection \<open>Application modules\<close>

record 't appInfo =
  appType :: 't
  ygotRootType :: 't
  isNative :: bool
  tablesToWatch :: "TableSpec list"

record 'y appData =
  ad_path :: string
  ad_payload :: string
  ad_ygot :: "'y option"
  ad_depth :: nat

datatype opCode = GET | CREATE | REPLACE | UPDATE | DELETE

text \<open>The array \<^verbatim>\<open>[db.MaxDB]*db.DB\<close>.\<close>

type_synonym ('r, 'c) dbs = "DBNum \<Rightarrow> ('r, 'c) DB option"

record notificationTarget =
  nt_table :: TableSpec
  nt_key :: Key
  nt_dbno :: DBNum
  nt_needCache :: bool

text \<open>A method that writes returns its result, the module and the object it was given.\<close>

type_synonym ('a, 'r, 'c) set_translate =
  "('r, 'c) DB \<Rightarrow> 'a \<Rightarrow> (WatchKeys list \<times> go_error option) \<times> 'a \<times> ('r, 'c) DB"

type_synonym ('a, 'r, 'c) set_process =
  "('r, 'c) DB \<Rightarrow> 'a \<Rightarrow> (SetResponse \<times> go_error option) \<times> 'a \<times> ('r, 'c) DB"

record ('t, 'a, 'y, 'r, 'c) appInterface =
  newInstance :: "'t \<Rightarrow> 'a option"
  bindRequest :: "string \<Rightarrow> string option \<Rightarrow> opCode \<Rightarrow> 't \<Rightarrow> go_error + 'y"
  app_initialize :: "'y appData \<Rightarrow> 'a \<Rightarrow> 'a"
  translateCreate :: "('a, 'r, 'c) set_translate"
  translateUpdate :: "('a, 'r, 'c) set_translate"
  translateReplace :: "('a, 'r, 'c) set_translate"
  translateDelete :: "('a, 'r, 'c) set_translate"
  translateGet :: "('r, 'c) dbs \<Rightarrow> 'a \<Rightarrow> go_error option \<times> 'a \<times> ('r, 'c) dbs"
  translateAction :: "('r, 'c) dbs \<Rightarrow> 'a \<Rightarrow> go_error option \<times> 'a \<times> ('r, 'c) dbs"
  translateSubscribe :: "('r, 'c) dbs \<Rightarrow> string \<Rightarrow> 'a \<Rightarrow>
     (notificationOpts option \<times> notificationTarget option \<times> go_error option) \<times> 'a \<times> ('r, 'c) dbs"
  processCreate :: "('a, 'r, 'c) set_process"
  processUpdate :: "('a, 'r, 'c) set_process"
  processReplace :: "('a, 'r, 'c) set_process"
  processDelete :: "('a, 'r, 'c) set_process"
  processGet :: "('r, 'c) dbs \<Rightarrow> 'a \<Rightarrow> (GetResponse \<times> go_error option) \<times> 'a \<times> ('r, 'c) dbs"
  processAction :: "('r, 'c) dbs \<Rightarrow> 'a \<Rightarrow> (ActionResponse \<times> go_error option) \<times> 'a \<times> ('r, 'c) dbs"

text \<open>The registry: the modules by path prefix and the list of models.\<close>

record 't registry =
  appMap :: "(string, 't appInfo) gomap"
  reg_models :: "ModelData list"

text \<open>\<^verbatim>\<open>register\<close>: \<^term>\<open>None\<close> is the exit of the process (\<^verbatim>\<open>log.Fatal\<close>).\<close>

definition register :: "string \<Rightarrow> 't appInfo \<Rightarrow> 't registry \<Rightarrow> 't registry option" where
  "register path info g =
     (if \<not> mapHas (appMap g) path then Some (g\<lparr>appMap := mapPut path info (appMap g)\<rparr>) else None)"

definition unregister :: "string \<Rightarrow> 't registry \<Rightarrow> 't registry" where
  "unregister path g =
     (if mapHas (appMap g) path then g\<lparr>appMap := mapDel path (appMap g)\<rparr> else g)"

definition addModel :: "ModelData \<Rightarrow> 't registry \<Rightarrow> 't registry" where
  "addModel model g = g\<lparr>reg_models := reg_models g @ [model]\<rparr>"

definition getModels :: "'t registry \<Rightarrow> ModelData list" where
  "getModels g = reg_models g"

text \<open>\<^verbatim>\<open>GetModels\<close> of \<^verbatim>\<open>translib.go\<close>.\<close>

definition GetModels :: "'t registry \<Rightarrow> ModelData list \<times> go_error option" where
  "GetModels g = (getModels g, None)"

text \<open>The first pattern the range loop meets that begins the path, then the entry \<^verbatim>\<open>*\<close> (\<^term>\<open>None\<close>: nil).\<close>

fun firstPrefix :: "string \<Rightarrow> (string, 't appInfo) gomap \<Rightarrow> 't appInfo option" where
  "firstPrefix path [] = None"
| "firstPrefix path ((pattern, app) # m) =
     (if \<not> hasPrefix path pattern then firstPrefix path m else Some app)"

definition getAppModuleInfo :: "'t registry \<Rightarrow> string \<Rightarrow> 't appInfo option" where
  "getAppModuleInfo g path =
     (case firstPrefix path (appMap g) of
        Some app \<Rightarrow> Some app
      | None \<Rightarrow> mapGet (appMap g) ''*'')"

text \<open>
  \<^verbatim>\<open>getAppModule\<close> with \<^verbatim>\<open>getAppInterface\<close>.  Both errors are always nil: a type that is no application
  module ends the process, and a missing default module is a nil dereference; both are \<^term>\<open>None\<close>.
\<close>

definition getAppInterface :: "('t, 'a, 'y, 'r, 'c) appInterface \<Rightarrow> 't \<Rightarrow> 'a option" where
  "getAppInterface A t = newInstance A t"

definition getAppModule ::
  "('t, 'a, 'y, 'r, 'c) appInterface \<Rightarrow> 't registry \<Rightarrow> string \<Rightarrow> ('a \<times> 't appInfo) option" where
  "getAppModule A g path =
     do { aInfo \<leftarrow> getAppModuleInfo g path;
          app \<leftarrow> getAppInterface A (appType aInfo);
          Some (app, aInfo) }"

text \<open>\<^verbatim>\<open>appInitialize\<close>: the error of the request binder, or the initialized module.\<close>

definition appInitialize ::
  "('t, 'a, 'y, 'r, 'c) appInterface \<Rightarrow> 'a \<Rightarrow> 't appInfo \<Rightarrow> string \<Rightarrow> string option \<Rightarrow> nat option \<Rightarrow>
   opCode \<Rightarrow> go_error + 'a" where
  "appInitialize A app info path payload opts opc =
     (let input = (case payload of Some p \<Rightarrow> p | None \<Rightarrow> []);
          depth = (case opts of Some n \<Rightarrow> n | None \<Rightarrow> 0)
      in if isNative info
         then Inr (app_initialize A
                \<lparr>ad_path = path, ad_payload = input, ad_ygot = None, ad_depth = depth\<rparr> app)
         else case bindRequest A path payload opc (ygotRootType info) of
                Inl err \<Rightarrow> Inl err
              | Inr y \<Rightarrow> Inr (app_initialize A
                  \<lparr>ad_path = path, ad_payload = input, ad_ygot = Some y, ad_depth = depth\<rparr> app))"

subsection \<open>Which module serves a path\<close>

lemma firstPrefix_Some:
  "firstPrefix path m = Some app \<Longrightarrow> \<exists>p. (p, app) \<in> set m \<and> hasPrefix path p"
  by (induction path m rule: firstPrefix.induct) (auto split: if_splits)

lemma firstPrefix_None: "firstPrefix path m = None \<longleftrightarrow> (\<forall>(p, app) \<in> set m. \<not> hasPrefix path p)"
  by (induction path m rule: firstPrefix.induct) auto

lemma hasPrefix_linear:
  "hasPrefix s p \<Longrightarrow> hasPrefix s q \<Longrightarrow> hasPrefix p q \<or> hasPrefix q p"
  by (auto simp: hasPrefix_iff append_eq_append_conv2)

text \<open>No registered pattern is a proper beginning of another.\<close>

definition prefixFree :: "(string, 't appInfo) gomap \<Rightarrow> bool" where
  "prefixFree m \<longleftrightarrow>
     (\<forall>p \<in> fst ` set m. \<forall>q \<in> fst ` set m. hasPrefix p q \<longrightarrow> p = q)"

lemma firstPrefix_unique:
  assumes "gomap_wf m" "prefixFree m" "(p, app) \<in> set m" "hasPrefix path p"
  shows "firstPrefix path m = Some app"
proof (cases "firstPrefix path m")
  case None
  then show ?thesis using assms(3,4) by (auto simp: firstPrefix_None)
next
  case (Some app')
  then obtain q where q: "(q, app') \<in> set m" "hasPrefix path q" using firstPrefix_Some by metis
  have "p = q"
    using hasPrefix_linear [OF assms(4) q(2)] assms(2,3) q(1) unfolding prefixFree_def by force
  then show ?thesis using Some q(1) assms(1,3) by (metis mapGet_Some_iff option.inject)
qed

end
