(* ===== verification/Translib.thy ===== *)
theory Translib
  imports Translib_App
begin

text \<open>
  The entry points of translib (\<^verbatim>\<open>translib/translib.go\<close>).  Every call gets the Redis client and CVL
  functions \<open>X\<close>, the application modules \<open>A\<close> and the registry \<open>g\<close>, and returns its response and error
  with the database objects it opened, as they are after they were closed.  \<^term>\<open>None\<close> is a panic or the
  exit of the process.  \<^verbatim>\<open>writeMutex\<close> makes a write call one step.
\<close>

subsection \<open>Database objects\<close>

definition getDBOptionsWithSeparator :: "DBNum \<Rightarrow> string \<Rightarrow> string \<Rightarrow> string \<Rightarrow> bool \<Rightarrow> Options" where
  "getDBOptionsWithSeparator dbNo initIndicator tableSeparator keySeparator isWriteDisabled =
     \<lparr>DBNo = dbNo, InitIndicator = initIndicator, TableNameSeparator = tableSeparator,
      KeySeparator = keySeparator, IsWriteDisabled = isWriteDisabled, DisableCVLCheck = False\<rparr>"

text \<open>A number without a case, \<^verbatim>\<open>SnmpDB\<close>, gets the zero value.\<close>

definition zeroOptions :: Options where
  "zeroOptions =
     \<lparr>DBNo = ApplDB, InitIndicator = [], TableNameSeparator = [], KeySeparator = [],
      IsWriteDisabled = False, DisableCVLCheck = False\<rparr>"

definition getDBOptions :: "DBNum \<Rightarrow> bool \<Rightarrow> Options" where
  "getDBOptions dbNo isWriteDisabled =
     (if dbNo \<in> {ApplDB, CountersDB, AsicDB}
      then getDBOptionsWithSeparator dbNo [] '':'' '':'' isWriteDisabled
      else if dbNo \<in> {FlexCounterDB, LogLevelDB, ConfigDB, StateDB, ErrorDB, UserDB}
      then getDBOptionsWithSeparator dbNo [] ''|'' ''|'' isWriteDisabled
      else zeroOptions)"

definition allDBNums :: "DBNum list" where
  "allDBNums = [ApplDB, AsicDB, CountersDB, LogLevelDB, ConfigDB, FlexCounterDB, StateDB, SnmpDB,
                ErrorDB, UserDB]"

text \<open>\<^verbatim>\<open>closeAllDbs\<close>: the array is emptied; the second component lists the closed objects.\<close>

definition closeAllDbs ::
  "('r, 'c) infra \<Rightarrow> ('r, 'c) dbs \<Rightarrow> ('r, 'c) dbs \<times> ('r, 'c) DB list" where
  "closeAllDbs X dbs =
     (\<lambda>_. None,
      concat (map (\<lambda>n. case dbs n of Some d \<Rightarrow> [snd (DeleteDB X d)] | None \<Rightarrow> []) allDBNums))"

fun openDbs ::
  "('r, 'c) infra \<Rightarrow> (DBNum \<times> bool) list \<Rightarrow> ('r, 'c) dbs \<Rightarrow> ('r, 'c) dbs \<times> go_error option" where
  "openDbs X [] dbs = (dbs, None)"
| "openDbs X ((n, isWriteDisabled) # rest) dbs =
     (let (d, err) = NewDB X (getDBOptions n isWriteDisabled);
          dbs1 = dbs(n := Some d)
      in if err \<noteq> None then (dbs1, err) else openDbs X rest dbs1)"

definition dbsToOpen :: "bool \<Rightarrow> (DBNum \<times> bool) list" where
  "dbsToOpen isGetCase =
     (let isWriteDisabled = (if isGetCase then True else False)
      in [(ApplDB, isWriteDisabled), (AsicDB, isWriteDisabled), (CountersDB, isWriteDisabled),
          (LogLevelDB, isWriteDisabled), (ConfigDB, True), (FlexCounterDB, isWriteDisabled),
          (StateDB, isWriteDisabled), (ErrorDB, isWriteDisabled), (UserDB, isWriteDisabled)])"

definition getAllDbs ::
  "('r, 'c) infra \<Rightarrow> bool \<Rightarrow> (('r, 'c) dbs \<times> go_error option) \<times> ('r, 'c) DB list" where
  "getAllDbs X isGetCase =
     (let (dbs, err) = openDbs X (dbsToOpen isGetCase) (\<lambda>_. None)
      in if err \<noteq> None then (let (dbs', closed) = closeAllDbs X dbs in ((dbs', err), closed))
         else ((dbs, err), []))"

subsection \<open>Create, Update, Replace and Delete\<close>

definition unauthorized :: "string \<Rightarrow> string \<Rightarrow> go_error" where
  "unauthorized opName path =
     AuthorizationError \<lparr>errFormat = ''User is unauthorized for '' @ opName @ '' Operation'',
       errArgs = [], errPath = path\<rparr>"

text \<open>The part of the four calls that works on the open database object: translate, start the
  transaction, process, and abort or commit.\<close>

definition writeTx ::
  "('r, 'c) infra \<Rightarrow> TableSpec list \<Rightarrow> ('a, 'r, 'c) set_translate \<Rightarrow> ('a, 'r, 'c) set_process \<Rightarrow> 'a \<Rightarrow>
   ('r, 'c) DB \<Rightarrow> ((SetResponse \<times> go_error option) \<times> ('r, 'c) DB) option" where
  "writeTx X tables tr pr app d =
     (let ((keys, err), app1, d1) = tr d app
      in if err \<noteq> None then Some ((emptySetResponse\<lparr>rs_ErrSrc := AppErr\<rparr>, err), d1)
         else
           do { (err2, d2) \<leftarrow> StartTx X d1 keys tables;
                if err2 \<noteq> None then Some ((emptySetResponse\<lparr>rs_ErrSrc := AppErr\<rparr>, err2), d2)
                else
                  let ((resp, err3), app2, d3) = pr d2 app1
                  in if err3 \<noteq> None
                     then Some ((resp\<lparr>rs_ErrSrc := AppErr\<rparr>, err3), snd (AbortTx X d3))
                     else
                       let (err4, d4) = CommitTx X d3
                       in Some ((if err4 \<noteq> None then resp\<lparr>rs_ErrSrc := AppErr\<rparr> else resp, err4), d4) })"

text \<open>The whole call.  The third component is the object after the deferred \<^verbatim>\<open>DeleteDB\<close>, if one was opened.\<close>

definition writeRequest ::
  "('r, 'c) infra \<Rightarrow> ('t, 'a, 'y, 'r, 'c) appInterface \<Rightarrow> 't registry \<Rightarrow> string \<Rightarrow> opCode \<Rightarrow>
   string option \<Rightarrow> ('a, 'r, 'c) set_translate \<Rightarrow> ('a, 'r, 'c) set_process \<Rightarrow> SetRequest \<Rightarrow>
   ((SetResponse \<times> go_error option) \<times> ('r, 'c) DB option) option" where
  "writeRequest X A g opName opc payload tr pr req =
     (let path = sr_Path req
      in if \<not> isAuthorizedForSet req then Some ((emptySetResponse, Some (unauthorized opName path)), None)
         else
           do { (app, info) \<leftarrow> getAppModule A g path;
                case appInitialize A app info path payload None opc of
                  Inl err \<Rightarrow> Some ((emptySetResponse\<lparr>rs_ErrSrc := AppErr\<rparr>, Some err), None)
                | Inr app1 \<Rightarrow>
                    (let (d, err) = NewDB X (getDBOptions ConfigDB False)
                     in if err \<noteq> None then Some ((emptySetResponse\<lparr>rs_ErrSrc := ProtoErr\<rparr>, err), None)
                        else
                          do { (res, d') \<leftarrow> writeTx X (tablesToWatch info) tr pr app1 d;
                               Some (res, Some (snd (DeleteDB X d'))) }) })"

definition Create ::
  "('r, 'c) infra \<Rightarrow> ('t, 'a, 'y, 'r, 'c) appInterface \<Rightarrow> 't registry \<Rightarrow> SetRequest \<Rightarrow>
   ((SetResponse \<times> go_error option) \<times> ('r, 'c) DB option) option" where
  "Create X A g req =
     writeRequest X A g ''Create'' CREATE (Some (sr_Payload req)) (translateCreate A) (processCreate A) req"

definition Update ::
  "('r, 'c) infra \<Rightarrow> ('t, 'a, 'y, 'r, 'c) appInterface \<Rightarrow> 't registry \<Rightarrow> SetRequest \<Rightarrow>
   ((SetResponse \<times> go_error option) \<times> ('r, 'c) DB option) option" where
  "Update X A g req =
     writeRequest X A g ''Update'' UPDATE (Some (sr_Payload req)) (translateUpdate A) (processUpdate A) req"

definition Replace ::
  "('r, 'c) infra \<Rightarrow> ('t, 'a, 'y, 'r, 'c) appInterface \<Rightarrow> 't registry \<Rightarrow> SetRequest \<Rightarrow>
   ((SetResponse \<times> go_error option) \<times> ('r, 'c) DB option) option" where
  "Replace X A g req =
     writeRequest X A g ''Replace'' REPLACE (Some (sr_Payload req)) (translateReplace A) (processReplace A) req"

definition Delete ::
  "('r, 'c) infra \<Rightarrow> ('t, 'a, 'y, 'r, 'c) appInterface \<Rightarrow> 't registry \<Rightarrow> SetRequest \<Rightarrow>
   ((SetResponse \<times> go_error option) \<times> ('r, 'c) DB option) option" where
  "Delete X A g req =
     writeRequest X A g ''Delete'' DELETE None (translateDelete A) (processDelete A) req"

subsection \<open>Get and Action\<close>

definition Get ::
  "('r, 'c) infra \<Rightarrow> ('t, 'a, 'y, 'r, 'c) appInterface \<Rightarrow> 't registry \<Rightarrow> GetRequest \<Rightarrow>
   ((GetResponse \<times> go_error option) \<times> ('r, 'c) DB list) option" where
  "Get X A g req =
     (let path = gr_Path req
      in if \<not> isAuthorizedForGet req then Some ((emptyGetResponse, Some (unauthorized ''Get'' path)), [])
         else
           do { (app, info) \<leftarrow> getAppModule A g path;
                case appInitialize A app info path None (Some (gr_Depth req)) GET of
                  Inl err \<Rightarrow> Some ((\<lparr>rg_Payload = [], rg_ErrSrc = AppErr\<rparr>, Some err), [])
                | Inr app1 \<Rightarrow>
                    (let ((dbs, err), closed) = getAllDbs X True
                     in if err \<noteq> None then Some ((\<lparr>rg_Payload = [], rg_ErrSrc = ProtoErr\<rparr>, err), closed)
                        else
                          let (err1, app2, dbs1) = translateGet A dbs app1
                          in if err1 \<noteq> None
                             then Some ((\<lparr>rg_Payload = [], rg_ErrSrc = AppErr\<rparr>, err1), snd (closeAllDbs X dbs1))
                             else let (res, app3, dbs2) = processGet A dbs1 app2
                                  in Some (res, snd (closeAllDbs X dbs2))) })"

text \<open>An action is always given to the module in its native format; the registered record is copied.\<close>

definition Action ::
  "('r, 'c) infra \<Rightarrow> ('t, 'a, 'y, 'r, 'c) appInterface \<Rightarrow> 't registry \<Rightarrow> ActionRequest \<Rightarrow>
   ((ActionResponse \<times> go_error option) \<times> ('r, 'c) DB list) option" where
  "Action X A g req =
     (let path = sr_Path req
      in if \<not> isAuthorizedForAction req
         then Some ((emptyGetResponse, Some (unauthorized ''Action'' path)), [])
         else
           do { (app, info) \<leftarrow> getAppModule A g path;
                let aInfo = info\<lparr>isNative := True\<rparr>;
                case appInitialize A app aInfo path (Some (sr_Payload req)) None GET of
                  Inl err \<Rightarrow> Some ((\<lparr>rg_Payload = [], rg_ErrSrc = AppErr\<rparr>, Some err), [])
                | Inr app1 \<Rightarrow>
                    (let ((dbs, err), closed) = getAllDbs X False
                     in if err \<noteq> None then Some ((\<lparr>rg_Payload = [], rg_ErrSrc = ProtoErr\<rparr>, err), closed)
                        else
                          let (err1, app2, dbs1) = translateAction A dbs app1
                          in if err1 \<noteq> None
                             then Some ((\<lparr>rg_Payload = [], rg_ErrSrc = AppErr\<rparr>, err1), snd (closeAllDbs X dbs1))
                             else let (res, app3, dbs2) = processAction A dbs1 app2
                                  in Some (res, snd (closeAllDbs X dbs2))) })"

subsection \<open>Bulk\<close>

text \<open>One request of a bulk call, on the object with the transaction of the whole call.\<close>

definition bulkOne ::
  "('r, 'c) infra \<Rightarrow> ('t, 'a, 'y, 'r, 'c) appInterface \<Rightarrow> 't registry \<Rightarrow> opCode \<Rightarrow> string option \<Rightarrow>
   ('a, 'r, 'c) set_translate \<Rightarrow> ('a, 'r, 'c) set_process \<Rightarrow> string \<Rightarrow> ('r, 'c) DB \<Rightarrow>
   ((SetResponse \<times> go_error option) \<times> ('r, 'c) DB) option" where
  "bulkOne X A g opc payload tr pr path d =
     do { (app, info) \<leftarrow> getAppModule A g path;
          case appInitialize A app info path payload None opc of
            Inl err \<Rightarrow> Some ((\<lparr>rs_ErrSrc = AppErr, rs_Err = Some err\<rparr>, Some err), d)
          | Inr app1 \<Rightarrow>
              (let ((keys, err), app2, d1) = tr d app1
               in if err \<noteq> None then Some ((\<lparr>rs_ErrSrc = AppErr, rs_Err = err\<rparr>, err), d1)
                  else
                    do { (err2, d2) \<leftarrow> AppendWatchTx X d1 keys (tablesToWatch info);
                         if err2 \<noteq> None then Some ((\<lparr>rs_ErrSrc = AppErr, rs_Err = err2\<rparr>, err2), d2)
                         else
                           let ((resp, err3), app3, d3) = pr d2 app2
                           in Some ((if err3 \<noteq> None then resp\<lparr>rs_ErrSrc := AppErr, rs_Err := err3\<rparr>
                                     else resp, err3), d3) }) }"

text \<open>A loop over requests of one kind: the first error aborts the transaction and ends the call; the
  responses not reached are zero values.\<close>

fun bulkLoop ::
  "('r, 'c) infra \<Rightarrow> (SetRequest \<Rightarrow> ('r, 'c) DB \<Rightarrow> ((SetResponse \<times> go_error option) \<times> ('r, 'c) DB) option) \<Rightarrow>
   SetRequest list \<Rightarrow> ('r, 'c) DB \<Rightarrow> ((SetResponse list \<times> go_error option) \<times> ('r, 'c) DB) option" where
  "bulkLoop X one [] d = Some (([], None), d)"
| "bulkLoop X one (req # reqs) d =
     do { ((resp, err), d1) \<leftarrow> one req d;
          if err \<noteq> None
          then Some ((resp # replicate (length reqs) emptySetResponse, err), snd (AbortTx X d1))
          else do { ((resps, err'), d2) \<leftarrow> bulkLoop X one reqs d1;
                    Some ((resp # resps, err'), d2) } }"

definition emptyBulkResponse :: "BulkRequest \<Rightarrow> BulkResponse" where
  "emptyBulkResponse req =
     \<lparr>br_Delete = replicate (length (bk_Delete req)) emptySetResponse,
      br_Replace = replicate (length (bk_Replace req)) emptySetResponse,
      br_Update = replicate (length (bk_Update req)) emptySetResponse,
      br_Create = replicate (length (bk_Create req)) emptySetResponse\<rparr>"

definition bulkDelete where
  "bulkDelete X A g req d = bulkOne X A g DELETE None (translateDelete A) (processDelete A) (sr_Path req) d"

definition bulkReplace where
  "bulkReplace X A g req d =
     bulkOne X A g REPLACE (Some (sr_Payload req)) (translateReplace A) (processReplace A) (sr_Path req) d"

definition bulkUpdate where
  "bulkUpdate X A g req d =
     bulkOne X A g UPDATE (Some (sr_Payload req)) (translateUpdate A) (processUpdate A) (sr_Path req) d"

definition bulkCreate where
  "bulkCreate X A g req d =
     bulkOne X A g CREATE (Some (sr_Payload req)) (translateCreate A) (processCreate A) (sr_Path req) d"

text \<open>The four loops, on an object whose transaction is open.\<close>

definition bulkLoops ::
  "('r, 'c) infra \<Rightarrow> ('t, 'a, 'y, 'r, 'c) appInterface \<Rightarrow> 't registry \<Rightarrow> BulkRequest \<Rightarrow> ('r, 'c) DB \<Rightarrow>
   ((BulkResponse \<times> go_error option) \<times> ('r, 'c) DB) option" where
  "bulkLoops X A g req d =
     do { let resp = emptyBulkResponse req;
          ((rs, err), d1) \<leftarrow> bulkLoop X (bulkDelete X A g) (bk_Delete req) d;
          let resp1 = resp\<lparr>br_Delete := rs\<rparr>;
          if err \<noteq> None then Some ((resp1, err), d1)
          else
            do { ((rs2, err2), d2) \<leftarrow> bulkLoop X (bulkReplace X A g) (bk_Replace req) d1;
                 let resp2 = resp1\<lparr>br_Replace := rs2\<rparr>;
                 if err2 \<noteq> None then Some ((resp2, err2), d2)
                 else
                   do { ((rs3, err3), d3) \<leftarrow> bulkLoop X (bulkUpdate X A g) (bk_Update req) d2;
                        let resp3 = resp2\<lparr>br_Update := rs3\<rparr>;
                        if err3 \<noteq> None then Some ((resp3, err3), d3)
                        else
                          do { ((rs4, err4), d4) \<leftarrow> bulkLoop X (bulkCreate X A g) (bk_Create req) d3;
                               Some ((resp3\<lparr>br_Create := rs4\<rparr>, err4), d4) } } } }"

definition Bulk ::
  "('r, 'c) infra \<Rightarrow> ('t, 'a, 'y, 'r, 'c) appInterface \<Rightarrow> 't registry \<Rightarrow> BulkRequest \<Rightarrow>
   ((BulkResponse \<times> go_error option) \<times> ('r, 'c) DB option) option" where
  "Bulk X A g req =
     (let resp = emptyBulkResponse req
      in if \<not> isAuthorizedForBulk req then Some ((resp, Some (unauthorized ''Action'' [])), None)
         else
           let (d, err) = NewDB X (getDBOptions ConfigDB False)
           in if err \<noteq> None then Some ((resp, err), None)
              else
                do { (err1, d1) \<leftarrow> StartTx X d [] [];
                     if err1 \<noteq> None then Some ((resp, err1), Some (snd (DeleteDB X d1)))
                     else
                       do { ((resp1, err2), d2) \<leftarrow> bulkLoops X A g req d1;
                            if err2 \<noteq> None then Some ((resp1, err2), Some (snd (DeleteDB X d2)))
                            else let (err3, d3) = CommitTx X d2
                                 in Some ((resp1, err3), Some (snd (DeleteDB X d3))) } })"

subsection \<open>IsSubscribeSupported\<close>

definition initialIsSubscribe :: "string \<Rightarrow> IsSubscribeResponse" where
  "initialIsSubscribe path =
     \<lparr>is_Path = path, IsOnChangeSupported = False, MinInterval = minSubsInterval, is_Err = None,
      PreferredType = Sample\<rparr>"

definition withNotificationOpts ::
  "notificationOpts option \<Rightarrow> IsSubscribeResponse \<Rightarrow> IsSubscribeResponse" where
  "withNotificationOpts nOpts resp =
     (case nOpts of
        None \<Rightarrow> resp
      | Some o1 \<Rightarrow>
          (if mInterval o1 \<noteq> 0 then resp\<lparr>MinInterval := mInterval o1\<rparr> else resp)\<lparr>PreferredType := pType o1\<rparr>)"

text \<open>One round of the loop: the \<^verbatim>\<open>err\<close> it assigns is the one declared in the loop.\<close>

definition isSubscribeOne ::
  "('t, 'a, 'y, 'r, 'c) appInterface \<Rightarrow> 't registry \<Rightarrow> string \<Rightarrow> ('r, 'c) dbs \<Rightarrow>
   (IsSubscribeResponse \<times> ('r, 'c) dbs) option" where
  "isSubscribeOne A g path dbs =
     do { let resp = initialIsSubscribe path;
          (app, info) \<leftarrow> getAppModule A g path;
          let ((nOpts, nInfo, errApp), app1, dbs1) = translateSubscribe A dbs path app;
          Some (case errApp of
                  Some e \<Rightarrow> (resp\<lparr>is_Err := Some e\<rparr>, dbs1)
                | None \<Rightarrow> (withNotificationOpts nOpts (resp\<lparr>IsOnChangeSupported := True\<rparr>), dbs1)) }"

fun isSubscribeLoop ::
  "('t, 'a, 'y, 'r, 'c) appInterface \<Rightarrow> 't registry \<Rightarrow> string list \<Rightarrow> ('r, 'c) dbs \<Rightarrow>
   (IsSubscribeResponse list \<times> ('r, 'c) dbs) option" where
  "isSubscribeLoop A g [] dbs = Some ([], dbs)"
| "isSubscribeLoop A g (path # paths) dbs =
     do { (resp, dbs1) \<leftarrow> isSubscribeOne A g path dbs;
          (resps, dbs2) \<leftarrow> isSubscribeLoop A g paths dbs1;
          Some (resp # resps, dbs2) }"

definition IsSubscribeSupported ::
  "('r, 'c) infra \<Rightarrow> ('t, 'a, 'y, 'r, 'c) appInterface \<Rightarrow> 't registry \<Rightarrow> SubscribeRequest \<Rightarrow>
   ((IsSubscribeResponse list \<times> go_error option) \<times> ('r, 'c) DB list) option" where
  "IsSubscribeSupported X A g req =
     (let resp = map initialIsSubscribe (sb_Paths req)
      in if \<not> isAuthorizedForIsSubscribe req then Some ((resp, Some (unauthorized ''Action'' [])), [])
         else
           let ((dbs, err), closed) = getAllDbs X True
           in if err \<noteq> None then Some ((resp, err), closed)
              else do { (resps, dbs1) \<leftarrow> isSubscribeLoop A g (sb_Paths req) dbs;
                        Some ((resps, err), snd (closeAllDbs X dbs1)) })"

end
