(* ===== verification/Translib_Tx.thy ===== *)
theory Translib_Tx
  imports Translib
begin

text \<open>
  What a write call of translib leaves in the database, for application modules that keep their part
  of the contract (locale \<open>set_module\<close>): translating only reads, processing only uses the entry
  operations of the object it is given.
\<close>

subsection \<open>The server\<close>

text \<open>
  Documented behaviour of Redis beside \<^const>\<open>multi_exec\<close>: a new connection has no MULTI open, and
  WATCH, UNWATCH and closing change no data.
\<close>

definition server_ok ::
  "('r, 'c) infra \<Rightarrow> ('r \<Rightarrow> 's) \<Rightarrow> ('r \<Rightarrow> redis_arg list list option) \<Rightarrow>
   (redis_arg list \<Rightarrow> 's \<Rightarrow> 's) \<Rightarrow> bool" where
  "server_ok X store queue app \<longleftrightarrow>
     sess_ok X \<and> multi_exec X store queue app \<and> (\<forall>xs. set (rangeOrder X xs) = set xs) \<and>
     (\<forall>n. queue (newClient X n) = None) \<and>
     (\<forall>r args. queue r = None \<longrightarrow>
        store (snd (redisDo X (RStr ''WATCH'' # args) r)) = store r \<and>
        queue (snd (redisDo X (RStr ''WATCH'' # args) r)) = None) \<and>
     (\<forall>r. queue r = None \<longrightarrow> store (snd (redisDo X [RStr ''UNWATCH''] r)) = store r) \<and>
     (\<forall>r. store (snd (closeClient X r)) = store r)"

lemma memDo_keeps:
  "m_queue m = None \<Longrightarrow> c \<notin> {''MULTI'', ''HMSET'', ''HDEL'', ''DEL''} \<Longrightarrow>
   m_hash (snd (memDo (RStr c # args) m)) = m_hash m \<and> m_queue (snd (memDo (RStr c # args) m)) = None"
  by (auto simp: memDo_def memApply_def split: list.split)

lemma server_ok_mem: "server_ok memInfra m_hash m_queue memApply"
  using sess_ok_mem multi_exec_mem memDo_keeps
  unfolding server_ok_def by (simp add: memInfra_def)

text \<open>The effect of a commit of object \<open>d\<close>: its pending commands in order, the update flags of exactly
  the tables they write, and the global flag.\<close>

definition committed ::
  "(redis_arg list \<Rightarrow> 's \<Rightarrow> 's) \<Rightarrow> ('r, 'c) DB \<Rightarrow> 's \<Rightarrow> 's \<Rightarrow> bool" where
  "committed app d s s' \<longleftrightarrow>
     (\<exists>flags. set flags = (\<lambda>c. [RStr ''SET'', RStr (ts2redisUpdated (cmd_ts c)), RStr ''1'']) ` set (txCmds d) \<and>
        s' = fold app (map (\<lambda>c. the (cmdArgs (Opts d) c)) (txCmds d) @ flags @
                       [[RStr ''SET'', RStr ''CONFIG_DB_UPDATED'', RStr ''1'']]) s)"

lemma CommitTx_committed:
  assumes "server_ok X store queue app" "tx_inv X d" "txState d \<noteq> txStateNone" "queue (client d) = None"
    and "CommitTx X d = (e, d')"
  shows "case e of None \<Rightarrow> committed app d (store (client d)) (store (client d'))
         | Some _ \<Rightarrow> store (client d') = store (client d)"
proof -
  have "multi_exec X store queue app" "\<And>xs. set (rangeOrder X xs) = set xs"
    using assms(1) by (simp_all add: server_ok_def)
  from commit_all_or_nothing [OF assms(2,3) this(1) assms(4) this(2)] assms(5)
  show ?thesis unfolding committed_def by (cases e) auto
qed

text \<open>An object that the code has just opened, or on which it works inside a transaction.\<close>

definition tx_open :: "('r, 'c) infra \<Rightarrow> ('r \<Rightarrow> 'q option) \<Rightarrow> ('r, 'c) DB \<Rightarrow> bool" where
  "tx_open X queue d \<longleftrightarrow> tx_inv X d \<and> txState d \<noteq> txStateNone \<and> queue (client d) = None"

lemma performWatch_keeps:
  assumes "server_ok X store queue app" "queue (client d) = None" "performWatch X d w tss = Some (e, d')"
  shows "queue (client d') = None \<and> store (client d') = store (client d)"
  using assms
  by (auto simp: performWatch_def server_ok_def withClient_def Let_def split: if_splits bind_splits)

lemma StartTx_open:
  assumes "server_ok X store queue app" "tx_inv X d" "txState d = txStateNone" "queue (client d) = None"
    and "StartTx X d w tss = Some (e, d')"
  shows "store (client d') = store (client d) \<and>
    (e = None \<longrightarrow> tx_open X queue d' \<and> txState d' = txStateWatch \<and> txCmds d' = [])"
proof (cases "snd (sessOpen X) = CVL_SUCCESS")
  case True
  then have w: "performWatch X (d\<lparr>cv := fst (sessOpen X)\<rparr>) w tss = Some (e, d')"
    using assms(3,5) by (auto simp: StartTx_def Let_def split_def)
  have "queue (client d') = None \<and> store (client d') = store (client d)"
    using performWatch_keeps [OF assms(1) _ w] assms(4) by simp
  moreover obtain r where "d' = d\<lparr>cv := fst (sessOpen X), client := r, txState := txStateWatch\<rparr>"
    using performWatch_result [OF w] by auto
  moreover have "tx_inv X d'"
    using tx_inv_StartTx [OF _ assms(2,5)] assms(1) by (simp add: server_ok_def)
  ultimately show ?thesis using assms(2,3) by (auto simp: tx_open_def tx_inv_def)
next
  case False
  then show ?thesis using assms(5) by (auto simp: StartTx_def Let_def split_def)
qed

lemma AppendWatchTx_open:
  assumes "server_ok X store queue app" "tx_open X queue d" "AppendWatchTx X d w tss = Some (e, d')"
  shows "tx_open X queue d' \<and> store (client d') = store (client d)"
proof -
  have w: "performWatch X d w tss = Some (e, d')"
    using assms(2,3) by (simp add: AppendWatchTx_def tx_open_def)
  then show ?thesis
    using performWatch_keeps [OF assms(1) _ w] tx_inv_AppendWatchTx [OF _ assms(3)] assms(2)
    by (auto simp: tx_open_def intro: performWatch_result [OF w])
qed

lemma AbortTx_keeps:
  assumes "server_ok X store queue app" "queue (client d) = None"
  shows "store (client (snd (AbortTx X d))) = store (client d)"
  using assms by (auto simp: AbortTx_def server_ok_def Let_def split_def split: option.split)

lemma DeleteDB_keeps:
  "server_ok X store queue app \<Longrightarrow> store (client (snd (DeleteDB X d))) = store (client d)"
  by (simp add: DeleteDB_def withClient_def server_ok_def)

lemma tx_writes_inv:
  assumes "sess_ok X" "(tx_write X)\<^sup>*\<^sup>* d d'" "tx_inv X d"
  shows "tx_inv X d'"
  using assms(2,3)
proof (induction rule: rtranclp_induct)
  case (step y z)
  then show ?case using db_step_inv [OF assms(1) _ tx_write_step] by blast
qed

lemma tx_writes_open':
  assumes "server_ok X store queue app" "(tx_write X)\<^sup>*\<^sup>* d d'" "tx_open X queue d"
  shows "tx_open X queue d' \<and> store (client d') = store (client d)"
  using tx_writes_open [OF assms(2)] tx_writes_inv [OF _ assms(2)] assms(1,3)
  by (auto simp: tx_open_def server_ok_def)

subsection \<open>Modules\<close>

text \<open>The contract of the pair of methods one write operation calls.\<close>

locale set_module =
  fixes X :: "('r, 'c) infra"
    and tr :: "('a, 'r, 'c) set_translate"
    and pr :: "('a, 'r, 'c) set_process"
  assumes translate_reads: "snd (snd (tr d a)) = d"
    and process_writes: "(tx_write X)\<^sup>*\<^sup>* d (snd (snd (pr d a)))"
begin

lemma translate_same: "tr d a = (res, a', d') \<Longrightarrow> d' = d"
  using translate_reads [of d a] by simp

lemma process_open:
  assumes "server_ok X store queue app" "tx_open X queue d" "pr d a = (res, a', d')"
  shows "tx_open X queue d' \<and> store (client d') = store (client d)"
  using tx_writes_open' [OF assms(1) process_writes assms(2), of a] assms(3) by simp

text \<open>The object after a write call: the module's commands are applied as a whole, or nothing is.\<close>

lemma writeTx_outcome:
  assumes ok: "server_ok X store queue app" and d: "tx_inv X d" "txState d = txStateNone" "queue (client d) = None"
    and run: "writeTx X tables tr pr a d = Some ((resp, err), d')"
  shows "case err of
      None \<Rightarrow> (\<exists>d2 a1 a2 resp1 d3. txState d2 = txStateWatch \<and> txCmds d2 = [] \<and>
                pr d2 a1 = ((resp1, None), a2, d3) \<and> committed app d3 (store (client d)) (store (client d')))
    | Some _ \<Rightarrow> store (client d') = store (client d)"
proof -
  obtain keys e1 a1 d1 where t: "tr d a = ((keys, e1), a1, d1)" by (metis surj_pair)
  then have d1: "d1 = d" by (rule translate_same)
  show ?thesis
  proof (cases "e1 = None")
    case False
    then show ?thesis using run t d1 by (auto simp: writeTx_def)
  next
    case True
    then obtain e2 d2 where s: "StartTx X d keys tables = Some (e2, d2)"
      using run t d1 by (cases "StartTx X d keys tables") (auto simp: writeTx_def)
    note start = StartTx_open [OF ok d s]
    show ?thesis
    proof (cases "e2 = None")
      case False
      then show ?thesis using run t d1 True s start by (auto simp: writeTx_def)
    next
      case e2: True
      obtain resp1 e3 a2 d3 where p: "pr d2 a1 = ((resp1, e3), a2, d3)" by (metis surj_pair)
      have open3: "tx_open X queue d3 \<and> store (client d3) = store (client d)"
        using process_open [OF ok _ p] start e2 by simp
      obtain e4 d4 where c: "CommitTx X d3 = (e4, d4)" by fastforce
      note commit = CommitTx_committed [OF ok _ _ _ c]
      show ?thesis
      proof (cases e3)
        case None
        then have "err = e4" "d' = d4" using run t d1 True s e2 p c by (auto simp: writeTx_def)
        moreover have "case e4 of None \<Rightarrow> committed app d3 (store (client d)) (store (client d4))
            | Some _ \<Rightarrow> store (client d4) = store (client d)"
          using commit open3 by (auto simp: tx_open_def split: option.splits)
        moreover have "txState d2 = txStateWatch \<and> txCmds d2 = []" using start e2 by simp
        ultimately show ?thesis using p None by (cases e4) (simp_all, blast)
      next
        case (Some x)
        then have "err = e3" "d' = snd (AbortTx X d3)" using run t d1 True s e2 p by (auto simp: writeTx_def)
        then show ?thesis using Some open3 AbortTx_keeps [OF ok, of d3] by (auto simp: tx_open_def)
      qed
    qed
  qed
qed

lemma bulkOne_open:
  assumes ok: "server_ok X store queue app" and d: "tx_open X queue d"
    and run: "bulkOne X A g opc payload tr pr path d = Some (res, d')"
  shows "tx_open X queue d' \<and> store (client d') = store (client d)"
proof -
  obtain ap info where m: "getAppModule A g path = Some (ap, info)"
    using run by (cases "getAppModule A g path") (auto simp: bulkOne_def)
  show ?thesis
  proof (cases "appInitialize A ap info path payload None opc")
    case (Inl e)
    then show ?thesis using run m d by (auto simp: bulkOne_def)
  next
    case (Inr a1)
    obtain keys e1 a2 d1 where t: "tr d a1 = ((keys, e1), a2, d1)" by (metis surj_pair)
    then have d1: "d1 = d" by (rule translate_same)
    show ?thesis
    proof (cases "e1 = None")
      case False
      then show ?thesis using run m Inr t d1 d by (auto simp: bulkOne_def)
    next
      case True
      then obtain e2 d2 where s: "AppendWatchTx X d keys (tablesToWatch info) = Some (e2, d2)"
        using run m Inr t d1 by (cases "AppendWatchTx X d keys (tablesToWatch info)") (auto simp: bulkOne_def)
      note append = AppendWatchTx_open [OF ok d s]
      obtain resp1 e3 a3 d3 where p: "pr d2 a2 = ((resp1, e3), a3, d3)" by (metis surj_pair)
      show ?thesis
        using run m Inr t d1 True s append process_open [OF ok conjunct1 [OF append] p] p
        by (auto simp: bulkOne_def split: if_splits)
    qed
  qed
qed

end

end
