(* ===== verification/Api_Tests.thy ===== *)
theory Api_Tests
  imports Translib_Tx
begin

text \<open>
  The application module for API tests (\<^verbatim>\<open>translib/api_tests_app.go\<close>): it answers with the error its path
  asks for, echoes the input of an action, and never touches a database.  JSON coding is the record
  \<open>json_funs\<close>.
\<close>

record apiTests =
  at_path :: string
  at_body :: string
  at_depth :: nat
  echoMsg :: string
  echoErr :: string

definition newApiTests :: apiTests where
  "newApiTests = \<lparr>at_path = [], at_body = [], at_depth = 0, echoMsg = [], echoErr = []\<rparr>"

text \<open>Decoding of the rpc input (message and error type), and the two encodings.\<close>

record json_funs =
  unmarshalInput :: "string \<Rightarrow> (string \<times> string) option"
  marshalGet :: "string \<Rightarrow> string \<Rightarrow> nat \<Rightarrow> string \<times> go_error option"
  marshalOutput :: "string \<Rightarrow> string \<times> go_error option"

definition getError :: "apiTests \<Rightarrow> go_error option" where
  "getError app =
     (let e = map toLowerChar (echoErr app); msg = echoMsg app
      in if e \<in> {''invalid-args'', ''invalidargs''} then Some (InvalidArgs msg [])
         else if e \<in> {''exists''} then Some (AlreadyExists msg [])
         else if e \<in> {''not-found'', ''notfound''} then Some (NotFound msg [])
         else if e \<in> {''not-supported'', ''notsupported'', ''unsupported''} then Some (NotSupported msg [])
         else if e \<in> {[], ''no'', ''none'', ''false''} then None
         else Some (NewInternalError msg []))"

definition translatePath :: "apiTests \<Rightarrow> apiTests" where
  "translatePath app =
     (let app1 = app\<lparr>echoMsg := ''Hello, world!''\<rparr>
      in case index (at_path app) ''error/'' of
           Some k \<Rightarrow> app1\<lparr>echoErr := drop (k + 6) (at_path app)\<rparr>
         | None \<Rightarrow> app1)"

definition apiTests_initialize :: "'y appData \<Rightarrow> apiTests \<Rightarrow> apiTests" where
  "apiTests_initialize inp app = app\<lparr>at_path := ad_path inp, at_body := ad_payload inp, at_depth := ad_depth inp\<rparr>"

definition apiTests_translateSet :: "(apiTests, 'r, 'c) set_translate" where
  "apiTests_translateSet d app = (([], None), translatePath app, d)"

definition apiTests_translateGet ::
  "('r, 'c) dbs \<Rightarrow> apiTests \<Rightarrow> go_error option \<times> apiTests \<times> ('r, 'c) dbs" where
  "apiTests_translateGet dbs app = (None, translatePath app, dbs)"

definition apiTests_translateAction ::
  "json_funs \<Rightarrow> ('r, 'c) dbs \<Rightarrow> apiTests \<Rightarrow> go_error option \<times> apiTests \<times> ('r, 'c) dbs" where
  "apiTests_translateAction J dbs app =
     (case unmarshalInput J (at_body app) of
        None \<Rightarrow> (Some (InvalidArgs ''Invalid rpc input'' []), app, dbs)
      | Some (msg, et) \<Rightarrow> (None, app\<lparr>echoMsg := msg, echoErr := et\<rparr>, dbs))"

definition processSet :: "(apiTests, 'r, 'c) set_process" where
  "processSet d app = ((emptySetResponse, getError app), app, d)"

definition apiTests_processGet ::
  "json_funs \<Rightarrow> ('r, 'c) dbs \<Rightarrow> apiTests \<Rightarrow> (GetResponse \<times> go_error option) \<times> apiTests \<times> ('r, 'c) dbs" where
  "apiTests_processGet J dbs app =
     (let err = getError app
      in if err \<noteq> None then ((emptyGetResponse, err), app, dbs)
         else let (payload, err1) = marshalGet J (echoMsg app) (at_path app) (at_depth app)
              in ((emptyGetResponse\<lparr>rg_Payload := payload\<rparr>, err1), app, dbs))"

definition apiTests_processAction ::
  "json_funs \<Rightarrow> ('r, 'c) dbs \<Rightarrow> apiTests \<Rightarrow> (ActionResponse \<times> go_error option) \<times> apiTests \<times> ('r, 'c) dbs" where
  "apiTests_processAction J dbs app =
     (let err = getError app
      in if err = None
         then let (payload, err1) = marshalOutput J (echoMsg app)
              in ((emptyGetResponse\<lparr>rg_Payload := payload\<rparr>, err1), app, dbs)
         else ((emptyGetResponse, err), app, dbs))"

text \<open>The method table, and the entry the module registers.\<close>

definition apiTestsInterface :: "json_funs \<Rightarrow> (unit, apiTests, unit, 'r, 'c) appInterface" where
  "apiTestsInterface J =
     \<lparr>newInstance = (\<lambda>_. Some newApiTests), bindRequest = (\<lambda>_ _ _ _. Inr ()),
      app_initialize = apiTests_initialize,
      translateCreate = apiTests_translateSet, translateUpdate = apiTests_translateSet,
      translateReplace = apiTests_translateSet, translateDelete = apiTests_translateSet,
      translateGet = apiTests_translateGet, translateAction = apiTests_translateAction J,
      translateSubscribe = (\<lambda>dbs path app. ((None, None, None), app, dbs)),
      processCreate = processSet, processUpdate = processSet, processReplace = processSet,
      processDelete = processSet,
      processGet = apiTests_processGet J, processAction = apiTests_processAction J\<rparr>"

definition apiTestsInfo :: "unit appInfo" where
  "apiTestsInfo = \<lparr>appType = (), ygotRootType = (), isNative = True, tablesToWatch = []\<rparr>"

definition apiTestsRegistry :: "unit registry" where
  "apiTestsRegistry = the (register ''/api-tests:'' apiTestsInfo \<lparr>appMap = [], reg_models = []\<rparr>)"

text \<open>The module keeps the contract of the write methods.\<close>

interpretation api_set: set_module X apiTests_translateSet processSet for X
  by unfold_locales (simp_all add: apiTests_translateSet_def processSet_def)

end
