(* ===== verification/Translib_Props.thy ===== *)
theory Translib_Props
  imports Translib_Tx Api_Tests
begin

text \<open>
  Properties of the translib entry points: authorization, atomicity of single and bulk writes,
  read-only access, the choice of the application module.
\<close>

subsection \<open>Write calls are all or nothing\<close>

text \<open>All modules keep the contract of the write methods.\<close>

definition set_modules :: "('r, 'c) infra \<Rightarrow> ('t, 'a, 'y, 'r, 'c) appInterface \<Rightarrow> bool" where
  "set_modules X A \<longleftrightarrow>
     set_module X (translateCreate A) (processCreate A) \<and>
     set_module X (translateUpdate A) (processUpdate A) \<and>
     set_module X (translateReplace A) (processReplace A) \<and>
     set_module X (translateDelete A) (processDelete A)"

lemma NewDB_fresh:
  assumes "NewDB X opt = (d, e)"
  shows "tx_inv X d \<and> txState d = txStateNone \<and> Opts d = opt \<and> client d = newClient X (dbNumInt (DBNo opt))"
  using assms tx_inv_NewDB [of X opt] by (auto simp: NewDB_def Let_def split: if_splits)

lemma writeRequest_outcome:
  assumes ok: "server_ok X store queue app" and m: "set_module X tr pr"
    and run: "writeRequest X A g nm opc payload tr pr req = Some ((resp, err), res)"
  shows "case res of
      None \<Rightarrow> err \<noteq> None
    | Some d \<Rightarrow> (let s = store (newClient X (dbNumInt ConfigDB)) in
        case err of
          None \<Rightarrow> (\<exists>d2 a1 a2 resp1 d3. txState d2 = txStateWatch \<and> txCmds d2 = [] \<and>
                    pr d2 a1 = ((resp1, None), a2, d3) \<and> committed app d3 s (store (client d)))
        | Some _ \<Rightarrow> store (client d) = s)"
proof (cases "isAuthorizedForSet req")
  case False
  then show ?thesis using run by (auto simp: writeRequest_def)
next
  case True
  obtain ap info where g: "getAppModule A g (sr_Path req) = Some (ap, info)"
    using run True by (cases "getAppModule A g (sr_Path req)") (auto simp: writeRequest_def)
  obtain d0 e0 where n: "NewDB X (getDBOptions ConfigDB False) = (d0, e0)" by fastforce
  show ?thesis
  proof (cases "\<exists>a1. appInitialize A ap info (sr_Path req) payload None opc = Inr a1 \<and> e0 = None")
    case False
    then show ?thesis using run True g n by (auto simp: writeRequest_def split: sum.splits if_splits)
  next
    case t: True
    then obtain a1 where i: "appInitialize A ap info (sr_Path req) payload None opc = Inr a1" by auto
    obtain d' where w: "writeTx X (tablesToWatch info) tr pr a1 d0 = Some ((resp, err), d')"
      and res: "res = Some (snd (DeleteDB X d'))"
      using run True g n t i by (auto simp: writeRequest_def split: bind_splits)
    have d0: "tx_inv X d0" "txState d0 = txStateNone" "queue (client d0) = None"
      "client d0 = newClient X (dbNumInt ConfigDB)"
      using NewDB_fresh [OF n] ok by (simp_all add: server_ok_def getDBOptions_def getDBOptionsWithSeparator_def)
    from set_module.writeTx_outcome [OF m ok d0(1-3) w] show ?thesis
      by (cases err) (simp_all add: res d0(4) DeleteDB_keeps [OF ok] Let_def)
  qed
qed

text \<open>
  C2. A create, update, replace or delete request is all or nothing.  For any registry and any
  application modules that translate without writing and process through the entry operations, over
  the documented behaviour of the server: if the call returns no error, the database holds the
  effect of exactly the commands the module's process method queued in a fresh transaction, with their
  update flags; if it returns an error, the data is what it was before the call.
\<close>

theorem write_all_or_nothing:
  assumes "server_ok X store queue app" "set_modules X A"
    and "(call, pr) \<in> {(Create X A g, processCreate A), (Update X A g, processUpdate A),
                       (Replace X A g, processReplace A), (Delete X A g, processDelete A)}"
    and "call req = Some ((resp, err), res)"
  shows "case res of
      None \<Rightarrow> err \<noteq> None
    | Some d \<Rightarrow> (let s = store (newClient X (dbNumInt ConfigDB)) in
        case err of
          None \<Rightarrow> (\<exists>d2 a1 a2 resp1 d3. txState d2 = txStateWatch \<and> txCmds d2 = [] \<and>
                    pr d2 a1 = ((resp1, None), a2, d3) \<and> committed app d3 s (store (client d)))
        | Some _ \<Rightarrow> store (client d) = s)"
  using assms(2-4) writeRequest_outcome [OF assms(1), of _ pr A g _ _ _ req resp err res]
  unfolding set_modules_def Create_def Update_def Replace_def Delete_def by auto

text \<open>An action of the tests' demonstration: a module whose every write creates one port.\<close>

definition portInterface :: "(unit, apiTests, unit, mem, nat) appInterface" where
  "portInterface =
     (apiTestsInterface \<lparr>unmarshalInput = (\<lambda>_. None), marshalGet = (\<lambda>m p n. (m, None)), marshalOutput = (\<lambda>m. (m, None))\<rparr>)
       \<lparr>processCreate := (\<lambda>d app. let (e, d') = CreateEntry memInfra d portTable eth0 mtu
                                 in ((emptySetResponse, e), app, d'))\<rparr>"

definition portRequest :: SetRequest where
  "portRequest = \<lparr>sr_Path = ''/api-tests:x'', sr_Payload = [], sr_AuthEnabled = False,
     sr_User = \<lparr>ur_Name = [], ur_Roles = []\<rparr>\<rparr>"

definition portDB :: "(mem, nat) DB" where
  "portDB = (case Create memInfra portInterface apiTestsRegistry portRequest of
     Some (_, Some d) \<Rightarrow> d | _ \<Rightarrow> memDB)"

lemma port_modules: "set_modules memInfra portInterface"
  unfolding set_modules_def portInterface_def apiTestsInterface_def set_module_def
  by (auto simp: apiTests_translateSet_def processSet_def split_def Let_def intro!: r_into_rtranclp tx_write.create)

lemma port_run:
  "Create memInfra portInterface apiTestsRegistry portRequest = Some ((emptySetResponse, None), Some portDB)"
  by code_simp

lemma port_fresh: "m_hash (newClient memInfra (dbNumInt ConfigDB)) = []"
  by code_simp

theorem write_all_or_nothing_witness:
  "(\<exists>d3 :: (mem, nat) DB. committed memApply d3 [] (m_hash (client portDB))) \<and>
   memHash (m_hash (client portDB)) ''PORT|Ethernet0'' = [(''mtu'', ''9100'')]"
proof
  have "(Create memInfra portInterface apiTestsRegistry, processCreate portInterface) \<in>
      {(Create memInfra portInterface apiTestsRegistry, processCreate portInterface),
       (Update memInfra portInterface apiTestsRegistry, processUpdate portInterface),
       (Replace memInfra portInterface apiTestsRegistry, processReplace portInterface),
       (Delete memInfra portInterface apiTestsRegistry, processDelete portInterface)}"
    by simp
  from write_all_or_nothing [OF server_ok_mem port_modules this port_run]
  show "\<exists>d3 :: (mem, nat) DB. committed memApply d3 [] (m_hash (client portDB))"
    unfolding port_fresh Let_def by auto
  show "memHash (m_hash (client portDB)) ''PORT|Ethernet0'' = [(''mtu'', ''9100'')]"
    by code_simp
qed

subsection \<open>Bulk calls are all or nothing\<close>

lemma bulkLoop_outcome:
  assumes ok: "server_ok X store queue app"
    and one: "\<And>req d res d'. tx_open X queue d \<Longrightarrow> one req d = Some (res, d') \<Longrightarrow>
                tx_open X queue d' \<and> store (client d') = store (client d)"
    and "tx_open X queue d" "bulkLoop X one reqs d = Some ((rs, err), d')"
  shows "store (client d') = store (client d) \<and> (err = None \<longrightarrow> tx_open X queue d') \<and> length rs = length reqs"
  using assms(3,4)
proof (induction reqs arbitrary: d rs err d')
  case (Cons req reqs)
  obtain r e d1 where o: "one req d = Some ((r, e), d1)"
    using Cons.prems by (cases "one req d") auto
  note keep = one [OF Cons.prems(1) o]
  show ?case
  proof (cases e)
    case None
    obtain rs' err' d2 where b: "bulkLoop X one reqs d1 = Some ((rs', err'), d2)"
      using Cons.prems o None by (cases "bulkLoop X one reqs d1") auto
    show ?thesis using Cons.IH [OF _ b] keep Cons.prems o None b by auto
  next
    case (Some x)
    then show ?thesis using Cons.prems o keep AbortTx_keeps [OF ok, of d1] by (auto simp: tx_open_def)
  qed
qed simp

lemma bulk_each:
  assumes ok: "server_ok X store queue app" and A: "set_modules X A"
    and one: "one \<in> {bulkDelete X A g, bulkReplace X A g, bulkUpdate X A g, bulkCreate X A g}"
    and d: "tx_open X queue d" and run: "one req d = Some (res, d')"
  shows "tx_open X queue d' \<and> store (client d') = store (client d)"
  using one A run
  unfolding set_modules_def
  by (elim insertE emptyE; simp add: bulkDelete_def bulkReplace_def bulkUpdate_def bulkCreate_def;
      metis set_module.bulkOne_open [OF _ ok d])

lemma bulkLoop_kinds:
  assumes "server_ok X store queue app" "set_modules X A"
    and "one \<in> {bulkDelete X A g, bulkReplace X A g, bulkUpdate X A g, bulkCreate X A g}"
    and "tx_open X queue d" "bulkLoop X one reqs d = Some ((rs, err), d')"
  shows "store (client d') = store (client d) \<and> (err = None \<longrightarrow> tx_open X queue d') \<and> length rs = length reqs"
  by (rule bulkLoop_outcome [OF assms(1) bulk_each [OF assms(1,2,3)] assms(4,5)])

lemma bulkLoops_outcome:
  assumes ok: "server_ok X store queue app" and A: "set_modules X A"
    and d: "tx_open X queue d" and run: "bulkLoops X A g req d = Some ((resp, err), d')"
  shows "store (client d') = store (client d) \<and> (err = None \<longrightarrow> tx_open X queue d')"
proof -
  note step = bulkLoop_kinds [OF ok A, where g = g]
  obtain r1 e1 d1 where l1: "bulkLoop X (bulkDelete X A g) (bk_Delete req) d = Some ((r1, e1), d1)"
    using run by (cases "bulkLoop X (bulkDelete X A g) (bk_Delete req) d") (auto simp: bulkLoops_def Let_def)
  have s1: "store (client d1) = store (client d)" "e1 = None \<longrightarrow> tx_open X queue d1"
    using step [OF _ d l1] by simp_all
  show ?thesis
  proof (cases e1)
    case e1: None
    obtain r2 e2 d2 where l2: "bulkLoop X (bulkReplace X A g) (bk_Replace req) d1 = Some ((r2, e2), d2)"
      using run l1 e1 by (cases "bulkLoop X (bulkReplace X A g) (bk_Replace req) d1") (auto simp: bulkLoops_def Let_def)
    have s2: "store (client d2) = store (client d)" "e2 = None \<longrightarrow> tx_open X queue d2"
      using step [OF _ _ l2] s1 e1 by simp_all
    show ?thesis
    proof (cases e2)
      case e2: None
      obtain r3 e3 d3 where l3: "bulkLoop X (bulkUpdate X A g) (bk_Update req) d2 = Some ((r3, e3), d3)"
        using run l1 e1 l2 e2
        by (cases "bulkLoop X (bulkUpdate X A g) (bk_Update req) d2") (auto simp: bulkLoops_def Let_def)
      have s3: "store (client d3) = store (client d)" "e3 = None \<longrightarrow> tx_open X queue d3"
      using step [OF _ _ l3] s2 e2 by simp_all
      show ?thesis
      proof (cases e3)
        case e3: None
        obtain r4 e4 d4 where l4: "bulkLoop X (bulkCreate X A g) (bk_Create req) d3 = Some ((r4, e4), d4)"
          using run l1 e1 l2 e2 l3 e3
          by (cases "bulkLoop X (bulkCreate X A g) (bk_Create req) d3") (auto simp: bulkLoops_def Let_def)
        have s4: "store (client d4) = store (client d)" "e4 = None \<longrightarrow> tx_open X queue d4"
      using step [OF _ _ l4] s3 e3 by simp_all
        show ?thesis using run l1 e1 l2 e2 l3 e3 l4 s1 s2 s3 s4 by (auto simp: bulkLoops_def Let_def)
      qed (use run l1 e1 l2 e2 l3 s1 s2 s3 in \<open>auto simp: bulkLoops_def Let_def\<close>)
    qed (use run l1 e1 l2 s1 s2 in \<open>auto simp: bulkLoops_def Let_def\<close>)
  qed (use run l1 s1 in \<open>auto simp: bulkLoops_def Let_def\<close>)
qed

text \<open>
  C3. A bulk request is all or nothing.  Under the same hypotheses, if the call returns no error, the
  database holds the effect of the commands that all its requests, deletes before replaces before
  updates before creates, queued in the one transaction; if it returns an error, at whatever request,
  the data is what it was before the call.
\<close>

theorem bulk_all_or_nothing:
  assumes "server_ok X store queue app" "set_modules X A"
    and "Bulk X A g req = Some ((resp, err), res)"
  shows "case res of
      None \<Rightarrow> err \<noteq> None
    | Some d \<Rightarrow> (let s = store (newClient X (dbNumInt ConfigDB)) in
        case err of
          None \<Rightarrow> (\<exists>d0 d1 d2. NewDB X (getDBOptions ConfigDB False) = (d0, None) \<and>
                    StartTx X d0 [] [] = Some (None, d1) \<and>
                    bulkLoops X A g req d1 = Some ((resp, None), d2) \<and> committed app d2 s (store (client d)))
        | Some _ \<Rightarrow> store (client d) = s)"
proof -
  obtain d0 e0 where n: "NewDB X (getDBOptions ConfigDB False) = (d0, e0)" by fastforce
  have d0: "tx_inv X d0" "txState d0 = txStateNone" "queue (client d0) = None"
    "client d0 = newClient X (dbNumInt ConfigDB)"
    using NewDB_fresh [OF n] assms(1) by (simp_all add: server_ok_def getDBOptions_def getDBOptionsWithSeparator_def)
  show ?thesis
  proof (cases "isAuthorizedForBulk req \<and> e0 = None")
    case False
    then show ?thesis using assms(3) n by (auto simp: Bulk_def Let_def split: if_splits)
  next
    case True
    then obtain e1 d1 where s: "StartTx X d0 [] [] = Some (e1, d1)"
      using assms(3) n by (cases "StartTx X d0 [] []") (auto simp: Bulk_def Let_def)
    note start = StartTx_open [OF assms(1) d0(1-3) s]
    show ?thesis
    proof (cases e1)
      case (Some x)
      then show ?thesis using assms(3) True n s start DeleteDB_keeps [OF assms(1)] d0(4)
        by (auto simp: Bulk_def Let_def)
    next
      case e1: None
      then obtain r2 e2 d2 where l: "bulkLoops X A g req d1 = Some ((r2, e2), d2)"
        using assms(3) True n s by (cases "bulkLoops X A g req d1") (auto simp: Bulk_def Let_def)
      have open1: "tx_open X queue d1" using start e1 by simp
      note loops = bulkLoops_outcome [OF assms(1,2) open1 l]
      obtain e3 d3 where c: "CommitTx X d2 = (e3, d3)" by fastforce
      show ?thesis
      proof (cases e2)
        case (Some x)
        then show ?thesis using assms(3) True n s e1 l loops start DeleteDB_keeps [OF assms(1)] d0(4)
          by (auto simp: Bulk_def Let_def)
      next
        case None
        then have r: "resp = r2" "err = e3" "res = Some (snd (DeleteDB X d3))"
          using assms(3) True n s e1 l c by (auto simp: Bulk_def Let_def)
        have "case e3 of None \<Rightarrow> committed app d2 (store (client d2)) (store (client d3))
            | Some _ \<Rightarrow> store (client d3) = store (client d2)"
          using CommitTx_committed [OF assms(1) _ _ _ c] loops None by (auto simp: tx_open_def)
        then show ?thesis using n True s e1 l None loops start d0(4) DeleteDB_keeps [OF assms(1)]
          unfolding r by (cases e3) auto
      qed
    qed
  qed
qed

definition portBulk :: BulkRequest where
  "portBulk = \<lparr>bk_Delete = [], bk_Replace = [], bk_Update = [portRequest], bk_Create = [portRequest],
     bk_User = \<lparr>ur_Name = [], ur_Roles = []\<rparr>, bk_AuthEnabled = False\<rparr>"

definition portBulkDB :: "(mem, nat) DB" where
  "portBulkDB = (case Bulk memInfra portInterface apiTestsRegistry portBulk of
     Some (_, Some d) \<Rightarrow> d | _ \<Rightarrow> memDB)"

lemma port_bulk_run:
  "Bulk memInfra portInterface apiTestsRegistry portBulk =
     Some ((emptyBulkResponse portBulk, None), Some portBulkDB)"
  by code_simp

theorem bulk_all_or_nothing_witness:
  "(\<exists>d2 :: (mem, nat) DB. committed memApply d2 [] (m_hash (client portBulkDB))) \<and>
   memHash (m_hash (client portBulkDB)) ''PORT|Ethernet0'' = [(''mtu'', ''9100'')]"
proof
  show "\<exists>d2 :: (mem, nat) DB. committed memApply d2 [] (m_hash (client portBulkDB))"
    using bulk_all_or_nothing [OF server_ok_mem port_modules port_bulk_run]
    unfolding port_fresh Let_def by auto
  show "memHash (m_hash (client portBulkDB)) ''PORT|Ethernet0'' = [(''mtu'', ''9100'')]"
    by code_simp
qed

end
