(* ===== verification/Translib_Access.thy ===== *)
theory Translib_Access
  imports Translib_Tx Api_Tests
begin

text \<open>
  Who may call translib, which database objects a read or an action can change, which application
  module serves a path, and that write calls return.
\<close>

subsection \<open>Authorization\<close>

text \<open>
  C7. With authorization enabled, a user without the role admin changes nothing: create, update,
  replace, delete and bulk answer \<^verbatim>\<open>AuthorizationError\<close>, whatever the registry, the modules and the
  server are; no module is called and no database object is opened.
\<close>

theorem unauthorized_no_effect:
  assumes "sr_AuthEnabled req" "''admin'' \<notin> set (ur_Roles (sr_User req))"
    and "bk_AuthEnabled breq" "''admin'' \<notin> set (ur_Roles (bk_User breq))"
  shows "Create X A g req = Some ((emptySetResponse, Some (unauthorized ''Create'' (sr_Path req))), None) \<and>
    Update X A g req = Some ((emptySetResponse, Some (unauthorized ''Update'' (sr_Path req))), None) \<and>
    Replace X A g req = Some ((emptySetResponse, Some (unauthorized ''Replace'' (sr_Path req))), None) \<and>
    Delete X A g req = Some ((emptySetResponse, Some (unauthorized ''Delete'' (sr_Path req))), None) \<and>
    Bulk X A g breq = Some ((emptyBulkResponse breq, Some (unauthorized ''Action'' [])), None)"
  using assms
  by (simp add: Create_def Update_def Replace_def Delete_def Bulk_def writeRequest_def
      isAuthorizedForSet_def isAuthorizedForBulk_def hasAdmin_iff Let_def)

definition guestRequest :: SetRequest where
  "guestRequest = \<lparr>sr_Path = ''/api-tests:x'', sr_Payload = [], sr_AuthEnabled = True,
     sr_User = \<lparr>ur_Name = ''guest'', ur_Roles = [''operator'']\<rparr>\<rparr>"

definition guestBulk :: BulkRequest where
  "guestBulk = \<lparr>bk_Delete = [guestRequest], bk_Replace = [], bk_Update = [], bk_Create = [],
     bk_User = sr_User guestRequest, bk_AuthEnabled = True\<rparr>"

definition plainJson :: json_funs where
  "plainJson = \<lparr>unmarshalInput = (\<lambda>_. None), marshalGet = (\<lambda>m p n. (m, None)), marshalOutput = (\<lambda>m. (m, None))\<rparr>"

definition memApps :: "(unit, apiTests, unit, mem, nat) appInterface" where
  "memApps = apiTestsInterface plainJson"

theorem unauthorized_no_effect_witness:
  "Create memInfra memApps apiTestsRegistry guestRequest =
     Some ((emptySetResponse, Some (unauthorized ''Create'' ''/api-tests:x'')), None)"
  using unauthorized_no_effect [of guestRequest guestBulk memInfra memApps apiTestsRegistry]
  by (simp add: guestRequest_def guestBulk_def)

subsection \<open>Reads and actions\<close>

text \<open>No write operation replaces the options of an object, and on a write-disabled one no command is sent.\<close>

interpretation frame_writes: write_closed X "\<lambda>d. Opts d = opts \<and> (IsWriteDisabled opts \<longrightarrow> client d = r)"
  for X opts r
proof (unfold_locales, goal_cases)
  case (2 d op ts key val)
  then show ?case by (cases "IsWriteDisabled opts") (auto simp: doWrite_disabled)
qed simp

lemma tx_write_frame:
  assumes "tx_write X d d'" "Opts d = opts \<and> (IsWriteDisabled opts \<longrightarrow> client d = r)"
  shows "Opts d' = opts \<and> (IsWriteDisabled opts \<longrightarrow> client d' = r)"
  using assms(1)
proof cases
  case (deleteKeys ts key e)
  then show ?thesis using assms(2) by (rule frame_writes.I_DeleteKeys)
next
  case (deleteTable ts e)
  then show ?thesis using assms(2) by (rule frame_writes.I_DeleteTable)
qed (use assms(2) frame_writes.I_writes(1-5) in simp_all)

lemma tx_writes_frame:
  assumes "(tx_write X)\<^sup>*\<^sup>* d d'"
  shows "Opts d' = Opts d \<and> (IsWriteDisabled (Opts d) \<longrightarrow> client d' = client d)"
  using assms by (induction rule: rtranclp_induct) (auto dest: tx_write_frame)

text \<open>The contract of the methods that get the whole array: on every object they use the entry operations.\<close>

definition entry_access :: "('r, 'c) infra \<Rightarrow> ('r, 'c) dbs \<Rightarrow> ('r, 'c) dbs \<Rightarrow> bool" where
  "entry_access X D D' \<longleftrightarrow> (\<forall>n. rel_option (tx_write X)\<^sup>*\<^sup>* (D n) (D' n))"

lemma entry_access_trans: "entry_access X D D' \<Longrightarrow> entry_access X D' D'' \<Longrightarrow> entry_access X D D''"
  unfolding entry_access_def
proof
  fix n
  assume "\<forall>n. rel_option (tx_write X)\<^sup>*\<^sup>* (D n) (D' n)" "\<forall>n. rel_option (tx_write X)\<^sup>*\<^sup>* (D' n) (D'' n)"
  then have "rel_option (tx_write X)\<^sup>*\<^sup>* (D n) (D' n)" "rel_option (tx_write X)\<^sup>*\<^sup>* (D' n) (D'' n)" by auto
  then show "rel_option (tx_write X)\<^sup>*\<^sup>* (D n) (D'' n)"
    by (cases "D n"; cases "D' n"; cases "D'' n") auto
qed

lemma entry_access_refl: "entry_access X D D"
  by (simp add: entry_access_def option.rel_refl)

text \<open>Redis clients can be created.\<close>

definition clients_open :: "('r, 'c) infra \<Rightarrow> bool" where
  "clients_open X \<longleftrightarrow> (\<forall>n. newClient X n \<noteq> nilClient X)"

definition freshDB :: "('r, 'c) infra \<Rightarrow> DBNum \<Rightarrow> bool \<Rightarrow> ('r, 'c) DB" where
  "freshDB X n dis = fst (NewDB X (getDBOptions n dis))"

lemma getDBOptions_simps:
  "n \<noteq> SnmpDB \<Longrightarrow> DBNo (getDBOptions n b) = n \<and> IsWriteDisabled (getDBOptions n b) = b \<and>
     InitIndicator (getDBOptions n b) = []"
  by (cases n) (auto simp: getDBOptions_def getDBOptionsWithSeparator_def)

lemma NewDB_opens:
  "clients_open X \<Longrightarrow> n \<noteq> SnmpDB \<Longrightarrow> NewDB X (getDBOptions n b) = (freshDB X n b, None)"
  using getDBOptions_simps [of n b] by (auto simp: NewDB_def clients_open_def freshDB_def Let_def)

lemma freshDB_simps:
  "n \<noteq> SnmpDB \<Longrightarrow> DBNo (Opts (freshDB X n b)) = n \<and> IsWriteDisabled (Opts (freshDB X n b)) = b \<and>
     client (freshDB X n b) = newClient X (dbNumInt n)"
  using getDBOptions_simps [of n b] by (auto simp: NewDB_def freshDB_def Let_def)

lemma openDbs_opens:
  assumes "clients_open X"
  shows "distinct (map fst xs) \<Longrightarrow> SnmpDB \<notin> fst ` set xs \<Longrightarrow>
    openDbs X xs D = ((\<lambda>n. case map_of xs n of Some b \<Rightarrow> Some (freshDB X n b) | None \<Rightarrow> D n), None)"
proof (induction xs arbitrary: D)
  case (Cons x xs)
  obtain n b where x: "x = (n, b)" by fastforce
  have "map_of xs n = None" using Cons.prems x by (auto simp: map_of_eq_None_iff)
  then show ?case using Cons x by (auto simp: NewDB_opens [OF assms] fun_eq_iff split: option.split)
qed simp

lemma map_of_dbsToOpen:
  "map_of (dbsToOpen b) n = (if n = SnmpDB then None else Some (b \<or> n = ConfigDB))"
  by (cases n; cases b; simp add: dbsToOpen_def)

definition freshDbs :: "('r, 'c) infra \<Rightarrow> bool \<Rightarrow> ('r, 'c) dbs" where
  "freshDbs X b = (\<lambda>n. if n = SnmpDB then None else Some (freshDB X n (b \<or> n = ConfigDB)))"

lemma getAllDbs_opens:
  assumes "clients_open X"
  shows "getAllDbs X b = ((freshDbs X b, None), [])"
proof -
  have "distinct (map fst (dbsToOpen b))" "SnmpDB \<notin> fst ` set (dbsToOpen b)"
    by (simp_all add: dbsToOpen_def)
  from openDbs_opens [OF assms this, of "\<lambda>_. None"] show ?thesis
    by (simp add: getAllDbs_def map_of_dbsToOpen fun_eq_iff freshDbs_def)
qed

definition openedDBs :: "DBNum list" where
  "openedDBs = [ApplDB, AsicDB, CountersDB, LogLevelDB, ConfigDB, FlexCounterDB, StateDB, ErrorDB, UserDB]"

text \<open>What is left of the connections when the array is closed after entry operations.\<close>

lemma closed_after_access:
  assumes "entry_access X (freshDbs X b) D"
  shows "map (\<lambda>d. DBNo (Opts d)) (snd (closeAllDbs X D)) = openedDBs \<and>
    (\<forall>d \<in> set (snd (closeAllDbs X D)). b \<or> DBNo (Opts d) = ConfigDB \<longrightarrow>
       client d = snd (closeClient X (newClient X (dbNumInt (DBNo (Opts d))))))"
proof -
  have some: "\<exists>d. D n = Some d \<and> DBNo (Opts d) = n \<and>
      (b \<or> n = ConfigDB \<longrightarrow> client d = newClient X (dbNumInt n))" if "n \<noteq> SnmpDB" for n
  proof -
    have "rel_option (tx_write X)\<^sup>*\<^sup>* (Some (freshDB X n (b \<or> n = ConfigDB))) (D n)"
      using assms [unfolded entry_access_def freshDbs_def, rule_format, of n] that by simp
    then obtain d where d: "D n = Some d" "(tx_write X)\<^sup>*\<^sup>* (freshDB X n (b \<or> n = ConfigDB)) d"
      by (auto simp: option_rel_Some1)
    with tx_writes_frame [OF d(2)] freshDB_simps [OF that, of X "b \<or> n = ConfigDB"] show ?thesis by auto
  qed
  have none: "D SnmpDB = None"
    using assms [unfolded entry_access_def freshDbs_def, rule_format, of SnmpDB] by simp
  have "D n = (if n = SnmpDB then None else Some (the (D n)))" for n
    using some [of n] none by auto
  then have "closeAllDbs X D = closeAllDbs X (\<lambda>n. if n = SnmpDB then None else Some (the (D n)))"
    by (rule arg_cong [OF ext])
  then have "snd (closeAllDbs X D) = map (\<lambda>n. snd (DeleteDB X (the (D n)))) openedDBs"
    by (simp add: closeAllDbs_def allDBNums_def openedDBs_def)
  moreover have "DBNo (Opts (snd (DeleteDB X (the (D n))))) = n \<and>
      (b \<or> n = ConfigDB \<longrightarrow> client (snd (DeleteDB X (the (D n)))) =
         snd (closeClient X (newClient X (dbNumInt n))))" if "n \<in> set openedDBs" for n
    using some [of n] that by (auto simp: openedDBs_def DeleteDB_def withClient_def)
  ultimately show ?thesis by (auto simp: comp_def intro!: map_idI)
qed

lemma Get_closed:
  assumes X: "clients_open X"
    and tr: "\<And>D a. entry_access X D (snd (snd (translateGet A D a)))"
    and pr: "\<And>D a. entry_access X D (snd (snd (processGet A D a)))"
    and run: "Get X A g req = Some (res, closed)" "closed \<noteq> []"
  obtains D where "entry_access X (freshDbs X True) D"
    "closed = snd (closeAllDbs X D)"
proof -
  let ?D = "freshDbs X True"
  obtain ap info where m: "getAppModule A g (gr_Path req) = Some (ap, info)"
    using run by (cases "getAppModule A g (gr_Path req)") (auto simp: Get_def isAuthorizedForGet_def)
  obtain a1 where i: "appInitialize A ap info (gr_Path req) None (Some (gr_Depth req)) GET = Inr a1"
    using run m by (cases "appInitialize A ap info (gr_Path req) None (Some (gr_Depth req)) GET")
      (auto simp: Get_def isAuthorizedForGet_def)
  obtain e2 a2 D1 where t: "translateGet A ?D a1 = (e2, a2, D1)" by (metis surj_pair)
  obtain r3 a3 D2 where p: "processGet A D1 a2 = (r3, a3, D2)" by (metis surj_pair)
  have D1: "entry_access X ?D D1" using tr [of ?D a1] t by simp
  then have "entry_access X ?D D2" using entry_access_trans pr [of D1 a2] p by fastforce
  then show thesis
    using run(1) m i t p D1 that getAllDbs_opens [OF X, of True]
    by (cases e2) (auto simp: Get_def isAuthorizedForGet_def)
qed

lemma Action_closed:
  assumes X: "clients_open X"
    and tr: "\<And>D a. entry_access X D (snd (snd (translateAction A D a)))"
    and pr: "\<And>D a. entry_access X D (snd (snd (processAction A D a)))"
    and run: "Action X A g req = Some (res, closed)" "closed \<noteq> []"
  obtains D where "entry_access X (freshDbs X False) D"
    "closed = snd (closeAllDbs X D)"
proof -
  let ?D = "freshDbs X False"
  obtain ap info where m: "getAppModule A g (sr_Path req) = Some (ap, info)"
    using run by (cases "getAppModule A g (sr_Path req)") (auto simp: Action_def isAuthorizedForAction_def)
  let ?i = "appInitialize A ap (info\<lparr>isNative := True\<rparr>) (sr_Path req) (Some (sr_Payload req)) None GET"
  obtain a1 where i: "?i = Inr a1"
    using run m by (cases ?i) (auto simp: Action_def isAuthorizedForAction_def)
  obtain e2 a2 D1 where t: "translateAction A ?D a1 = (e2, a2, D1)" by (metis surj_pair)
  obtain r3 a3 D2 where p: "processAction A D1 a2 = (r3, a3, D2)" by (metis surj_pair)
  have D1: "entry_access X ?D D1" using tr [of ?D a1] t by simp
  then have "entry_access X ?D D2" using entry_access_trans pr [of D1 a2] p by fastforce
  then show thesis
    using run(1) m i t p D1 that getAllDbs_opens [OF X, of False]
    by (cases e2) (auto simp: Action_def isAuthorizedForAction_def)
qed

text \<open>
  C8. A read opens the nine databases translib uses, never the one of SNMP, closes each of them, and
  leaves every connection as it was opened: whatever a module does with the entry operations, no
  write reaches a server.
\<close>

theorem get_readonly:
  assumes "clients_open X"
    and "\<And>D a. entry_access X D (snd (snd (translateGet A D a)))"
    and "\<And>D a. entry_access X D (snd (snd (processGet A D a)))"
    and "Get X A g req = Some (res, closed)" "closed \<noteq> []"
  shows "map (\<lambda>d. DBNo (Opts d)) closed = openedDBs \<and>
      (\<forall>d \<in> set closed. client d = snd (closeClient X (newClient X (dbNumInt (DBNo (Opts d))))))"
  by (rule Get_closed [OF assms]) (use closed_after_access [of X True] in auto)

lemma clients_open_mem: "clients_open memInfra"
  by (simp add: clients_open_def memInfra_def)

lemma memApps_access:
  "entry_access X D (snd (snd (translateGet memApps D a)))" "entry_access X D (snd (snd (processGet memApps D a)))"
  "entry_access X D (snd (snd (translateAction memApps D a)))"
  "entry_access X D (snd (snd (processAction memApps D a)))"
  by (simp_all add: memApps_def apiTestsInterface_def apiTests_translateGet_def apiTests_processGet_def
      apiTests_translateAction_def apiTests_processAction_def entry_access_refl Let_def split_def
      split: option.split)

definition sampleGet :: GetRequest where
  "sampleGet = \<lparr>gr_Path = ''/api-tests:sample'', gr_Depth = 0, gr_AuthEnabled = False,
     gr_User = \<lparr>ur_Name = [], ur_Roles = []\<rparr>\<rparr>"

definition sampleClosed :: "(mem, nat) DB list" where
  "sampleClosed = snd (the (Get memInfra memApps apiTestsRegistry sampleGet))"

lemma sample_run:
  "Get memInfra memApps apiTestsRegistry sampleGet =
     Some ((\<lparr>rg_Payload = ''Hello, world!'', rg_ErrSrc = ProtoErr\<rparr>, None), sampleClosed)"
  by code_simp

theorem get_readonly_witness:
  "map (\<lambda>d. DBNo (Opts d)) sampleClosed = openedDBs \<and>
   map client sampleClosed =
     map (\<lambda>d. snd (closeClient memInfra (newClient memInfra (dbNumInt (DBNo (Opts d)))))) sampleClosed"
proof -
  have "sampleClosed \<noteq> []" by code_simp
  from get_readonly [OF clients_open_mem memApps_access(1,2) sample_run this] show ?thesis
    by (auto intro: map_cong)
qed

text \<open>
  An action can write, but not to the configuration database: its object is opened write-disabled,
  and its connection is closed as it was opened.
\<close>

theorem action_config_readonly:
  assumes "clients_open X"
    and "\<And>D a. entry_access X D (snd (snd (translateAction A D a)))"
    and "\<And>D a. entry_access X D (snd (snd (processAction A D a)))"
    and "Action X A g req = Some (res, closed)" "closed \<noteq> []"
  shows "map (\<lambda>d. DBNo (Opts d)) closed = openedDBs \<and>
      (\<forall>d \<in> set closed. DBNo (Opts d) = ConfigDB \<longrightarrow>
         client d = snd (closeClient X (newClient X (dbNumInt ConfigDB))))"
  by (rule Action_closed [OF assms]) (use closed_after_access [of X False] in auto)

definition actionClosed :: "(mem, nat) DB list" where
  "actionClosed = snd (the (Action memInfra memApps apiTestsRegistry (guestRequest\<lparr>sr_Payload := ''{}''\<rparr>)))"

lemma action_run:
  "Action memInfra memApps apiTestsRegistry (guestRequest\<lparr>sr_Payload := ''{}''\<rparr>) =
     Some ((\<lparr>rg_Payload = [], rg_ErrSrc = AppErr\<rparr>, Some (InvalidArgs ''Invalid rpc input'' [])), actionClosed)"
  by code_simp

theorem action_config_readonly_witness:
  "map (\<lambda>d. DBNo (Opts d)) actionClosed = openedDBs \<and>
   client (actionClosed ! 4) = snd (closeClient memInfra (newClient memInfra (dbNumInt ConfigDB)))"
proof -
  have "actionClosed \<noteq> []" by code_simp
  moreover have "actionClosed ! 4 \<in> set actionClosed" "DBNo (Opts (actionClosed ! 4)) = ConfigDB" by code_simp+
  ultimately show ?thesis
    using action_config_readonly [OF clients_open_mem memApps_access(3,4) action_run] by blast
qed

subsection \<open>The application module of a path\<close>

text \<open>
  When no registered pattern is a proper beginning of another, the module of a path does not depend
  on the order in which Go visits the registry: it is the module registered for the pattern that
  begins the path, and the default module \<^verbatim>\<open>*\<close> when there is none.
\<close>

theorem app_module_choice:
  assumes "gomap_wf (appMap g)" "prefixFree (appMap g)"
  shows "((p, info) \<in> set (appMap g) \<and> hasPrefix path p \<longrightarrow> getAppModuleInfo g path = Some info) \<and>
    ((\<forall>q \<in> fst ` set (appMap g). \<not> hasPrefix path q) \<longrightarrow>
       getAppModuleInfo g path = mapGet (appMap g) ''*'') \<and>
    (\<forall>m. gomap_wf m \<and> set m = set (appMap g) \<longrightarrow>
       getAppModuleInfo (g\<lparr>appMap := m\<rparr>) path = getAppModuleInfo g path)"
proof (intro conjI impI allI)
  show "getAppModuleInfo g path = Some info" if "(p, info) \<in> set (appMap g) \<and> hasPrefix path p"
    using firstPrefix_unique [OF assms, of p info path] that by (simp add: getAppModuleInfo_def)
  show default: "getAppModuleInfo g path = mapGet (appMap g) ''*''"
    if "\<forall>q \<in> fst ` set (appMap g). \<not> hasPrefix path q"
    using firstPrefix_None [of path "appMap g"] that by (auto simp: getAppModuleInfo_def)
  fix m assume m: "gomap_wf m \<and> set m = set (appMap g)"
  then have pf: "prefixFree m" using assms(2) by (simp add: prefixFree_def)
  have star: "mapGet m ''*'' = mapGet (appMap g) ''*''" using mapGet_perm m assms(1) by metis
  show "getAppModuleInfo (g\<lparr>appMap := m\<rparr>) path = getAppModuleInfo g path"
  proof (cases "firstPrefix path (appMap g)")
    case None
    then have "firstPrefix path m = None" using m by (simp add: firstPrefix_None)
    with None star show ?thesis by (simp add: getAppModuleInfo_def)
  next
    case (Some app)
    then obtain q where "(q, app) \<in> set m" "hasPrefix path q" using firstPrefix_Some m by metis
    then have "firstPrefix path m = Some app" using firstPrefix_unique m pf by blast
    with Some show ?thesis by (simp add: getAppModuleInfo_def)
  qed
qed

definition twoModules :: "unit registry" where
  "twoModules = the (register ''*'' (apiTestsInfo\<lparr>isNative := False\<rparr>) apiTestsRegistry)"

theorem app_module_choice_witness:
  "getAppModuleInfo twoModules ''/api-tests:x'' = Some apiTestsInfo \<and>
   getAppModuleInfo twoModules ''/openconfig-acl:acl'' = Some (apiTestsInfo\<lparr>isNative := False\<rparr>)"
proof -
  have wf: "gomap_wf (appMap twoModules)" by code_simp
  have pf: "prefixFree (appMap twoModules)"
    unfolding prefixFree_def by code_simp
  have "(''/api-tests:'', apiTestsInfo) \<in> set (appMap twoModules)" by code_simp
  moreover have "hasPrefix ''/api-tests:x'' ''/api-tests:''" by code_simp
  moreover have "\<forall>q \<in> fst ` set (appMap twoModules). \<not> hasPrefix ''/openconfig-acl:acl'' q" by code_simp
  moreover have "mapGet (appMap twoModules) ''*'' = Some (apiTestsInfo\<lparr>isNative := False\<rparr>)" by code_simp
  ultimately show ?thesis
    using app_module_choice [OF wf pf, of "''/api-tests:''" apiTestsInfo "''/api-tests:x''"]
      app_module_choice [OF wf pf, of "''/api-tests:''" apiTestsInfo "''/openconfig-acl:acl''"]
    by metis
qed

subsection \<open>Write calls return\<close>

text \<open>A watch key does not make the decoding of keys panic: it has no wildcard, or every key the server
  returns for it has a table separator.\<close>

definition watch_decodes :: "('r, 'c) infra \<Rightarrow> ('r, 'c) DB \<Rightarrow> WatchKeys \<Rightarrow> bool" where
  "watch_decodes X d w \<longleftrightarrow>
     (let redisKey = key2redis (Opts d) (wk_Ts w) (wk_Key w)
      in containsStr redisKey ''*'' \<longrightarrow>
         (\<forall>rk \<in> set (fst (redisKeys X (client d) redisKey)). redis2key (Opts d) (wk_Ts w) rk \<noteq> None))"

lemma those_Some: "(\<forall>x \<in> set xs. f x \<noteq> None) \<Longrightarrow> those (map f xs) \<noteq> None"
  by (induction xs) auto

lemma watchArgs_Some: "watch_decodes X d w \<Longrightarrow> watchArgs X d w \<noteq> None"
  using those_Some [of "fst (redisKeys X (client d) (key2redis (Opts d) (wk_Ts w) (wk_Key w)))"
      "redis2key (Opts d) (wk_Ts w)"]
  by (auto simp: watchArgs_def watch_decodes_def Let_def split: prod.split option.split)

lemma watchArgs_cv [simp]: "watchArgs X (d\<lparr>cv := c\<rparr>) w = watchArgs X d w"
  by (simp add: watchArgs_def Let_def split: prod.split option.split)

lemma StartTx_Some: "(\<forall>w \<in> set keys. watch_decodes X d w) \<Longrightarrow> StartTx X d keys tss \<noteq> None"
  using those_Some [of keys "watchArgs X (d\<lparr>cv := fst (sessOpen X)\<rparr>)"] watchArgs_Some [of X d]
  by (auto simp: StartTx_def performWatch_def Let_def split_def)

lemma writeTx_Some:
  assumes "\<And>d a. \<forall>w \<in> set (fst (fst (tr d a))). watch_decodes X (snd (snd (tr d a))) w"
  shows "writeTx X tables tr pr a d \<noteq> None"
proof -
  obtain keys e a1 d1 where t: "tr d a = ((keys, e), a1, d1)" by (metis surj_pair)
  then obtain e2 d2 where "StartTx X d1 keys tables = Some (e2, d2)"
    using StartTx_Some [of keys X d1 tables] assms [of d a] by (cases "StartTx X d1 keys tables") auto
  then show ?thesis using t by (auto simp: writeTx_def Let_def split: prod.split)
qed

lemma writeRequest_Some:
  assumes "getAppModule A g (sr_Path req) \<noteq> None"
    and "\<And>d a. \<forall>w \<in> set (fst (fst (tr d a))). watch_decodes X (snd (snd (tr d a))) w"
  shows "writeRequest X A g nm opc payload tr pr req \<noteq> None"
proof -
  obtain ap info where "getAppModule A g (sr_Path req) = Some (ap, info)" using assms(1) by auto
  then show ?thesis
    using writeTx_Some [where tr = tr, OF assms(2), where tables = "tablesToWatch info" and pr = pr]
    by (auto simp: writeRequest_def Let_def bind_eq_None_conv simp del: not_None_eq split: sum.split prod.split)
qed



end
