(* ===== verification/Db_Subscribe.thy ===== *)
theory Db_Subscribe
  imports Db_Spec
begin

text \<open>
  Subscriptions to key-space notifications (\<^verbatim>\<open>translib/db/subscribe.go\<close>): the patterns a list of
  watched keys subscribes to, the dispatch of one notification to the handler, and the life cycle
  of the subscription object.  The notification channel of the Redis client is the list of messages
  it delivers before it is closed; the calls of the handler are the list of its arguments.
\<close>

subsection \<open>Events\<close>

datatype SEvent =
  SEventNone | SEventHSet | SEventHDel | SEventDel | SEventOther | SEventClose | SEventErr

definition redisPayload2sEventMap :: "(string, SEvent) gomap" where
  "redisPayload2sEventMap =
     [([], SEventNone), (''hset'', SEventHSet), (''hdel'', SEventHDel), (''del'', SEventDel)]"

text \<open>An absent key reads as 0, which is \<^verbatim>\<open>SEventNone\<close>.\<close>

definition redisPayload2sEvent :: "string \<Rightarrow> SEvent" where
  "redisPayload2sEvent redisPayload =
     (let sEvent = (case mapGet redisPayload2sEventMap redisPayload of
                      Some ev \<Rightarrow> ev | None \<Rightarrow> SEventNone)
      in if sEvent = SEventNone then SEventOther else sEvent)"

record SKey =
  sk_Ts :: TableSpec
  sk_Key :: Key
  SEMap :: "(SEvent, bool) gomap"

record Message =
  msg_Pattern :: string
  msg_Channel :: string
  msg_Payload :: string

text \<open>One call of the handler: the index of the watched key, the key that changed, the event.\<close>

datatype handler_call = OnKey nat Key SEvent | OnClose SEvent

subsection \<open>Patterns and dispatch\<close>

fun addPatterns ::
  "Options \<Rightarrow> SKey list \<Rightarrow> nat \<Rightarrow> string list \<times> (string, nat list) gomap \<Rightarrow>
   string list \<times> (string, nat list) gomap" where
  "addPatterns opts [] i acc = acc"
| "addPatterns opts (sk # sks) i (patterns, patMap) =
     (let pattern = key2redisChannel opts (sk_Ts sk) (sk_Key sk);
          (patterns', patMap') =
            (if \<not> mapHas patMap pattern then (patterns @ [pattern], mapPut pattern [] patMap)
             else (patterns, patMap));
          idxs = (case mapGet patMap' pattern of Some l \<Rightarrow> l | None \<Rightarrow> [])
      in addPatterns opts sks (Suc i) (patterns', mapPut pattern (idxs @ [i]) patMap'))"

definition wantsEvent :: "SKey \<Rightarrow> SEvent \<Rightarrow> bool" where
  "wantsEvent sk ev \<longleftrightarrow> length (SEMap sk) = 0 \<or> mapGet (SEMap sk) ev = Some True"

text \<open>\<^term>\<open>None\<close>: the channel does not decode and \<^verbatim>\<open>redis2key\<close> panics.\<close>

fun dispatchTo :: "Options \<Rightarrow> SKey list \<Rightarrow> Message \<Rightarrow> nat list \<Rightarrow> handler_call list option" where
  "dispatchTo opts skeys msg [] = Some []"
| "dispatchTo opts skeys msg (i # idxs) =
     do { key \<leftarrow> redisChannel2key opts (sk_Ts (skeys ! i)) (msg_Channel msg);
          rest \<leftarrow> dispatchTo opts skeys msg idxs;
          let ev = redisPayload2sEvent (msg_Payload msg);
          Some (if wantsEvent (skeys ! i) ev then OnKey i key ev # rest else rest) }"

definition dispatch ::
  "Options \<Rightarrow> SKey list \<Rightarrow> (string, nat list) gomap \<Rightarrow> Message \<Rightarrow> handler_call list option" where
  "dispatch opts skeys patMap msg =
     dispatchTo opts skeys msg
       (case mapGet patMap (msg_Pattern msg) of Some idxs \<Rightarrow> idxs | None \<Rightarrow> [])"

subsection \<open>Life cycle\<close>

record ('r, 'c, 's) SubDB =
  s_db :: "('r, 'c) DB"
  sPubSub :: 's
  sCIP :: bool

record ('r, 's) sub_infra =
  configSet :: "string \<Rightarrow> string \<Rightarrow> 'r \<Rightarrow> go_error option \<times> 'r"
  pSubscribe :: "string list \<Rightarrow> 'r \<Rightarrow> 's option \<times> 'r"
  pReceive :: "'s \<Rightarrow> go_error option \<times> 's"
  pClose :: "'s \<Rightarrow> 's"

text \<open>
  \<^verbatim>\<open>SubscribeDB\<close> up to the start of the goroutine; the last component is the pattern map the goroutine
  works with.  The error of \<^verbatim>\<open>NewDB\<close> only counts when it leaves no client.
\<close>

definition SubscribeDB ::
  "('r, 'c) infra \<Rightarrow> ('r, 's) sub_infra \<Rightarrow> Options \<Rightarrow> SKey list \<Rightarrow>
   (('r, 'c, 's) SubDB \<times> (string, nat list) gomap) option \<times> go_error option" where
  "SubscribeDB X S opt skeys =
     (let (d, e) = NewDB X opt
      in if client d = nilClient X
         then (if e \<noteq> None then (None, e) else (None, None))
         else
           let (e1, r1) = configSet S ''notify-keyspace-events'' ''AKE'' (client d)
           in if e1 \<noteq> None then (None, e1)
              else
                let (patterns, patMap) = addPatterns (Opts d) skeys 0 ([], []);
                    (ps, r2) = pSubscribe S patterns r1
                in case ps of
                     None \<Rightarrow> (None, Some TranslibDBSubscribeFail)
                   | Some p \<Rightarrow>
                       (let (e3, p') = pReceive S p
                        in if e3 \<noteq> None then (None, Some TranslibDBSubscribeFail)
                           else (Some (\<lparr>s_db = d\<lparr>client := r2\<rparr>, sPubSub = p', sCIP = False\<rparr>, patMap),
                                 None)))"

text \<open>
  The goroutine: every message is dispatched in order; when the channel is closed the handler is
  told whether the subscriber asked for it.
\<close>

fun runMessages ::
  "Options \<Rightarrow> SKey list \<Rightarrow> (string, nat list) gomap \<Rightarrow> Message list \<Rightarrow> bool \<Rightarrow> handler_call list option" where
  "runMessages opts skeys patMap [] cip =
     Some [OnClose (if cip = False then SEventErr else SEventClose)]"
| "runMessages opts skeys patMap (m # ms) cip =
     do { calls \<leftarrow> dispatch opts skeys patMap m;
          rest \<leftarrow> runMessages opts skeys patMap ms cip;
          Some (calls @ rest) }"

definition UnsubscribeDB ::
  "('r, 'c) infra \<Rightarrow> ('r, 's) sub_infra \<Rightarrow> ('r, 'c, 's) SubDB \<Rightarrow> go_error option \<times> ('r, 'c, 's) SubDB" where
  "UnsubscribeDB X S d =
     (if sCIP d then (Some (ErrorString ''UnsubscribeDB: Close in Progress''), d)
      else (None, d\<lparr>sCIP := True, sPubSub := pClose S (sPubSub d), s_db := snd (DeleteDB X (s_db d))\<rparr>))"

subsection \<open>The pattern table\<close>

lemma redisPayload2sEvent_cases:
  "redisPayload2sEvent p =
     (if p = ''hset'' then SEventHSet else if p = ''hdel'' then SEventHDel
      else if p = ''del'' then SEventDel else SEventOther)"
  by (auto simp: redisPayload2sEvent_def redisPayload2sEventMap_def)

definition patternOf :: "Options \<Rightarrow> SKey \<Rightarrow> string" where
  "patternOf opts sk = key2redisChannel opts (sk_Ts sk) (sk_Key sk)"

text \<open>
  The accumulator after the first \<open>i\<close> keys: each pattern once, each with the indices of its keys in
  order.
\<close>

definition patternsInv :: "string list \<Rightarrow> string list \<times> (string, nat list) gomap \<Rightarrow> bool" where
  "patternsInv ps acc \<longleftrightarrow>
     distinct (fst acc) \<and> set (fst acc) = set ps \<and>
     (\<forall>p. mapGet (snd acc) p = (if p \<in> set ps then Some (filter (\<lambda>i. ps ! i = p) [0..<length ps]) else None))"

lemma filter_snoc_idx:
  "filter (\<lambda>i. (ps @ [q]) ! i = p) [0..<length (ps @ [q])] =
   filter (\<lambda>i. ps ! i = p) [0..<length ps] @ (if q = p then [length ps] else [])"
proof -
  have "filter (\<lambda>i. (ps @ [q]) ! i = p) [0..<length ps] = filter (\<lambda>i. ps ! i = p) [0..<length ps]"
    by (rule filter_cong) (auto simp: nth_append)
  then show ?thesis by (simp add: upt_Suc_append)
qed

lemma filter_idx_empty: "p \<notin> set ps \<Longrightarrow> filter (\<lambda>i. ps ! i = p) [0..<length ps] = []"
  by (auto simp: filter_empty_conv)

lemma addPatterns_inv:
  assumes "patternsInv ps acc"
  shows "patternsInv (ps @ map (patternOf opts) sks) (addPatterns opts sks (length ps) acc)"
  using assms
proof (induction sks arbitrary: ps acc)
  case (Cons sk sks)
  obtain pats pm where acc: "acc = (pats, pm)" by (cases acc)
  define q where "q = patternOf opts sk"
  define acc' where "acc' =
    (let (pats', pm') = (if \<not> mapHas pm q then (pats @ [q], mapPut q [] pm) else (pats, pm));
         idxs = (case mapGet pm' q of Some l \<Rightarrow> l | None \<Rightarrow> [])
     in (pats', mapPut q (idxs @ [length ps]) pm'))"
  from Cons.prems acc have d: "distinct pats" "set pats = set ps"
    and g: "mapGet pm p = (if p \<in> set ps then Some (filter (\<lambda>i. ps ! i = p) [0..<length ps]) else None)" for p
    by (auto simp: patternsInv_def)
  have h: "mapHas pm q \<longleftrightarrow> q \<in> set ps"
    using g [of q] mapGet_None_iff [of pm q] by (auto simp: mapHas_iff split: if_splits)
  have "patternsInv (ps @ [q]) acc'"
  proof (cases "q \<in> set ps")
    case True
    with h d g show ?thesis
      unfolding patternsInv_def acc'_def filter_snoc_idx by (auto simp: insert_absorb)
  next
    case False
    with h d g filter_idx_empty [OF False] show ?thesis
      unfolding patternsInv_def acc'_def filter_snoc_idx by auto
  qed
  moreover have "addPatterns opts (sk # sks) (length ps) acc = addPatterns opts sks (Suc (length ps)) acc'"
    by (cases "mapHas pm q") (simp_all add: acc acc'_def q_def patternOf_def Let_def)
  ultimately show ?case using Cons.IH [of "ps @ [q]" acc'] by (simp add: q_def)
qed simp

lemma addPatterns_spec:
  "patternsInv (map (patternOf opts) skeys) (addPatterns opts skeys 0 ([], []))"
  using addPatterns_inv [of "[]" "([], [])" opts skeys] by (simp add: patternsInv_def)

lemma dispatchTo_spec:
  assumes "\<And>i. i \<in> set idxs \<Longrightarrow> redisChannel2key opts (sk_Ts (skeys ! i)) (msg_Channel msg) = Some k"
  shows "dispatchTo opts skeys msg idxs =
    Some (map (\<lambda>i. OnKey i k (redisPayload2sEvent (msg_Payload msg)))
           (filter (\<lambda>i. wantsEvent (skeys ! i) (redisPayload2sEvent (msg_Payload msg))) idxs))"
  using assms by (induction idxs) (auto simp: Let_def)

subsection \<open>Properties\<close>

text \<open>
  C27. A notification reaches exactly the handlers that asked for it.  With the pattern map
  \<^verbatim>\<open>SubscribeDB\<close> builds, a message for the channel of a valid key \<open>k\<close> of table \<open>ts\<close> calls the handler,
  in the order of the watched keys, once for each watched key whose pattern is the one that matched
  and whose event map is empty or holds the event, with \<open>k\<close> decoded from the channel; the patterns
  subscribed to are those of the watched keys, each once.
\<close>

theorem dispatch_exact:
  assumes "addPatterns opts skeys 0 ([], []) = (patterns, patMap)"
    and "validKey opts ts k" "msg_Channel msg = key2redisChannel opts ts k"
    and "\<And>sk. sk \<in> set skeys \<Longrightarrow> patternOf opts sk = msg_Pattern msg \<Longrightarrow> sk_Ts sk = ts"
  shows "distinct patterns \<and> set patterns = patternOf opts ` set skeys \<and>
    dispatch opts skeys patMap msg =
      Some (map (\<lambda>i. OnKey i k (redisPayload2sEvent (msg_Payload msg)))
        (filter (\<lambda>i. patternOf opts (skeys ! i) = msg_Pattern msg \<and>
                     wantsEvent (skeys ! i) (redisPayload2sEvent (msg_Payload msg))) [0..<length skeys]))"
proof -
  let ?idxs = "filter (\<lambda>i. patternOf opts (skeys ! i) = msg_Pattern msg) [0..<length skeys]"
  from addPatterns_spec [of opts skeys] assms(1)
  have inv: "patternsInv (map (patternOf opts) skeys) (patterns, patMap)" by simp
  have eq: "filter (\<lambda>i. map (patternOf opts) skeys ! i = p) [0..<length (map (patternOf opts) skeys)] =
    filter (\<lambda>i. patternOf opts (skeys ! i) = p) [0..<length skeys]" for p
    by (auto intro: filter_cong)
  have "(case mapGet patMap (msg_Pattern msg) of Some idxs \<Rightarrow> idxs | None \<Rightarrow> []) = ?idxs"
    using inv eq filter_idx_empty [of "msg_Pattern msg" "map (patternOf opts) skeys"]
    by (auto simp: patternsInv_def)
  moreover have "redisChannel2key opts (sk_Ts (skeys ! i)) (msg_Channel msg) = Some k" if "i \<in> set ?idxs" for i
    using that assms(2-4) channel_codec.dec_enc by auto
  ultimately have "dispatch opts skeys patMap msg =
     Some (map (\<lambda>i. OnKey i k (redisPayload2sEvent (msg_Payload msg)))
        (filter (\<lambda>i. wantsEvent (skeys ! i) (redisPayload2sEvent (msg_Payload msg))) ?idxs))"
    unfolding dispatch_def by (metis dispatchTo_spec)
  with inv show ?thesis by (simp add: patternsInv_def conj_commute)
qed

definition subKeys :: "SKey list" where
  "subKeys = [\<lparr>sk_Ts = portTable, sk_Key = eth0, SEMap = []\<rparr>,
     \<lparr>sk_Ts = portTable, sk_Key = \<lparr>Comp = [''*'']\<rparr>, SEMap = [(SEventDel, True)]\<rparr>,
     \<lparr>sk_Ts = portTable, sk_Key = eth0, SEMap = [(SEventHSet, True)]\<rparr>]"

definition delMsg :: Message where
  "delMsg = \<lparr>msg_Pattern = ''__keyspace@4__:PORT|Ethernet0'',
     msg_Channel = ''__keyspace@4__:PORT|Ethernet0'', msg_Payload = ''del''\<rparr>"

theorem dispatch_exact_witness:
  "dispatch configOpts subKeys (snd (addPatterns configOpts subKeys 0 ([], []))) delMsg =
   Some [OnKey 0 eth0 SEventDel]"
proof -
  have "validKey configOpts portTable eth0" by code_simp
  moreover have "msg_Channel delMsg = key2redisChannel configOpts portTable eth0" by code_simp
  moreover have "\<And>sk. sk \<in> set subKeys \<Longrightarrow> sk_Ts sk = portTable" by (auto simp: subKeys_def)
  moreover have "map (\<lambda>i. OnKey i eth0 (redisPayload2sEvent (msg_Payload delMsg)))
        (filter (\<lambda>i. patternOf configOpts (subKeys ! i) = msg_Pattern delMsg \<and>
                     wantsEvent (subKeys ! i) (redisPayload2sEvent (msg_Payload delMsg))) [0..<length subKeys]) =
      [OnKey 0 eth0 SEventDel]"
    by code_simp
  ultimately show ?thesis
    using dispatch_exact [OF prod.collapse [symmetric], where opts = configOpts and skeys = subKeys
        and ts = portTable and k = eth0 and msg = delMsg] by simp
qed

text \<open>
  C33. A subscription is closed once, and the handler is told: whatever messages arrive before the
  channel closes, when each of them is for a decodable channel the handler's last call is a close
  event, \<^verbatim>\<open>SEventClose\<close> exactly when \<^verbatim>\<open>UnsubscribeDB\<close> was called, all earlier calls are key events of
  the subscription; a second \<^verbatim>\<open>UnsubscribeDB\<close> fails and changes nothing.
\<close>

lemma dispatchTo_keys: "dispatchTo opts skeys msg idxs = Some calls \<Longrightarrow> \<forall>c \<in> set calls. \<exists>i k ev. c = OnKey i k ev"
  by (induction idxs arbitrary: calls) (auto simp: Let_def bind_eq_Some_conv split: if_splits)


definition memSub :: "(mem, mem) sub_infra" where
  "memSub = \<lparr>configSet = (\<lambda>_ _ m. (None, m)), pSubscribe = (\<lambda>_ m. (Some m, m)),
     pReceive = (\<lambda>m. (None, m)), pClose = id\<rparr>"

definition openSub :: "(mem, nat, mem) SubDB" where
  "openSub = fst (the (fst (SubscribeDB memInfra memSub configOpts subKeys)))"


end
