(* ===== verification/Translib_Subscribe.thy ===== *)
theory Translib_Subscribe
  imports Translib Db_Subscribe "HOL-Library.Multiset"
begin

text \<open>
  Subscriptions of translib clients (\<^verbatim>\<open>translib/subscribe.go\<close> and \<^verbatim>\<open>Subscribe\<close> of \<^verbatim>\<open>translib.go\<close>).

  Objects that the maps share through pointers live in lists of the state, and a pointer is an index:
  \<open>ninfos\<close> (\<^verbatim>\<open>notificationInfo\<close>), \<open>sinfos\<close> (\<^verbatim>\<open>subscribeInfo\<close>), \<open>skeys\<close> (\<^verbatim>\<open>db.SKey\<close>), \<open>sdbs\<close> (the
  subscription objects with the variables of their goroutine) and \<open>dbsets\<close> (the database objects that
  the notification infos of one call share).  Channels and queues of the caller are numbers.  What is
  put into the queues is logged with the notification info it is about.
\<close>

record ('a, 't) notificationInfo = notificationTarget +
  ni_path :: string
  ni_app :: 'a
  ni_appInfo :: "'t appInfo"
  ni_cache :: string
  ni_sKey :: "nat option"
  ni_dbs :: nat

record subscribeInfo =
  syncDone :: bool
  si_q :: nat
  nInfoArr :: "nat list"
  si_stop :: nat
  sDBs :: "nat list"

record ('r, 'c, 's) sub_conn =
  sc_db :: "('r, 'c, 's) SubDB"
  sc_keys :: "nat list"
  sc_patMap :: "(string, nat list) gomap"
  sc_running :: bool

record ('a, 't, 'r, 'c, 's) subs =
  ninfos :: "('a, 't) notificationInfo list"
  sinfos :: "subscribeInfo list"
  skeys :: "SKey list"
  sdbs :: "('r, 'c, 's) sub_conn list"
  dbsets :: "('r, 'c) dbs list"
  nMap :: "nat \<Rightarrow> nat option"
  sMap :: "nat \<Rightarrow> nat option"
  stopMap :: "nat \<Rightarrow> nat option"
  cleanupMap :: "nat \<Rightarrow> nat option"
  watching :: "nat list"
  puts :: "(nat \<times> nat \<times> SubscribeResponse) list"

definition emptySubs :: "('a, 't, 'r, 'c, 's) subs" where
  "emptySubs = \<lparr>ninfos = [], sinfos = [], skeys = [], sdbs = [], dbsets = [], nMap = Map.empty,
     sMap = Map.empty, stopMap = Map.empty, cleanupMap = Map.empty, watching = [], puts = []\<rparr>"

subsection \<open>Payloads and notifications\<close>

definition getJson ::
  "('t, 'a, 'y, 'r, 'c) appInterface \<Rightarrow> nat \<Rightarrow> ('a, 't, 'r, 'c, 's) subs \<Rightarrow>
   (string \<times> go_error option) \<times> ('a, 't, 'r, 'c, 's) subs" where
  "getJson A n st =
     (let ni = ninfos st ! n;
          back = (\<lambda>app dbs. st\<lparr>ninfos := (ninfos st)[n := ni\<lparr>ni_app := app\<rparr>],
                                dbsets := (dbsets st)[ni_dbs ni := dbs]\<rparr>)
      in case appInitialize A (ni_app ni) (ni_appInfo ni) (ni_path ni) None None GET of
           Inl err \<Rightarrow> (([], Some err), st)
         | Inr app1 \<Rightarrow>
             (let (err1, app2, dbs1) = translateGet A (dbsets st ! ni_dbs ni) app1
              in if err1 \<noteq> None then (([], err1), back app2 dbs1)
                 else let ((resp, err2), app3, dbs2) = processGet A dbs1 app2
                      in ((if err2 = None then rg_Payload resp else [], err2), back app3 dbs2)))"

definition setCache :: "nat \<Rightarrow> string \<Rightarrow> ('a, 't, 'r, 'c, 's) subs \<Rightarrow> ('a, 't, 'r, 'c, 's) subs" where
  "setCache n json st = st\<lparr>ninfos := (ninfos st)[n := (ninfos st ! n)\<lparr>ni_cache := json\<rparr>]\<rparr>"

text \<open>The variable \<^verbatim>\<open>err\<close> that \<^verbatim>\<open>updateCache\<close> returns is never assigned.\<close>

definition updateCache ::
  "('t, 'a, 'y, 'r, 'c) appInterface \<Rightarrow> nat \<Rightarrow> ('a, 't, 'r, 'c, 's) subs \<Rightarrow>
   go_error option \<times> ('a, 't, 'r, 'c, 's) subs" where
  "updateCache A n st =
     (let ((json, err1), st1) = getJson A n st
      in (None, setCache n (if err1 = None then json else ''{}'') st1))"

definition isCacheChanged ::
  "('t, 'a, 'y, 'r, 'c) appInterface \<Rightarrow> nat \<Rightarrow> ('a, 't, 'r, 'c, 's) subs \<Rightarrow>
   bool \<times> ('a, 't, 'r, 'c, 's) subs" where
  "isCacheChanged A n st =
     (let ((json0, err), st1) = getJson A n st;
          json = (if err \<noteq> None then ''{}'' else json0)
      in if ni_cache (ninfos st1 ! n) = json then (False, st1) else (True, setCache n json st1))"

text \<open>\<open>clock\<close> gives the time of the notifications of the process, in the order they are sent.\<close>

definition sendNotification ::
  "(nat \<Rightarrow> int) \<Rightarrow> nat \<Rightarrow> nat \<Rightarrow> bool \<Rightarrow> ('a, 't, 'r, 'c, 's) subs \<Rightarrow> ('a, 't, 'r, 'c, 's) subs" where
  "sendNotification clock s n isTerminated st =
     (let si = sinfos st ! s; ni = ninfos st ! n
      in st\<lparr>puts := puts st @ [(n, si_q si,
           \<lparr>sn_Path = ni_path ni, sn_Payload = ni_cache ni, sn_Timestamp = clock (length (puts st)),
            SyncComplete = syncDone si, IsTerminated = isTerminated\<rparr>)]\<rparr>)"

subsection \<open>Start and end of a subscription\<close>

definition registerKey :: "nat \<Rightarrow> nat \<Rightarrow> ('a, 't, 'r, 'c, 's) subs \<Rightarrow> ('a, 't, 'r, 'c, 's) subs" where
  "registerKey s n st =
     (let ni = ninfos st ! n; k = length (skeys st)
      in st\<lparr>skeys := skeys st @ [\<lparr>sk_Ts = nt_table ni, sk_Key = nt_key ni, SEMap = []\<rparr>],
            ninfos := (ninfos st)[n := ni\<lparr>ni_sKey := Some k\<rparr>],
            nMap := (nMap st)(k \<mapsto> n), sMap := (sMap st)(n \<mapsto> s)\<rparr>)"

definition forget :: "nat \<Rightarrow> ('a, 't, 'r, 'c, 's) subs \<Rightarrow> ('a, 't, 'r, 'c, 's) subs" where
  "forget n st =
     st\<lparr>nMap := (case ni_sKey (ninfos st ! n) of Some k \<Rightarrow> (nMap st)(k := None) | None \<Rightarrow> nMap st),
        sMap := (sMap st)(n := None)\<rparr>"

text \<open>\<^verbatim>\<open>SubscribeDB\<close> returns no object exactly when it returns an error.\<close>

definition startDBSubscribe ::
  "('r, 'c) infra \<Rightarrow> ('r, 's) sub_infra \<Rightarrow> Options \<Rightarrow> nat list \<Rightarrow> nat \<Rightarrow> ('a, 't, 'r, 'c, 's) subs \<Rightarrow>
   go_error option \<times> ('a, 't, 'r, 'c, 's) subs" where
  "startDBSubscribe X S opt nInfoList s st =
     (let st1 = fold (registerKey s) nInfoList st;
          sKeyList = [length (skeys st)..<length (skeys st1)];
          (sDB, err) = SubscribeDB X S opt (map (\<lambda>k. skeys st1 ! k) sKeyList)
      in case sDB of
           Some (sub, patMap) \<Rightarrow>
             (let d = length (sdbs st1); si = sinfos st1 ! s
              in (err, st1\<lparr>sdbs := sdbs st1 @ [\<lparr>sc_db = sub, sc_keys = sKeyList, sc_patMap = patMap, sc_running = True\<rparr>],
                           sinfos := (sinfos st1)[s := si\<lparr>sDBs := sDBs si @ [d]\<rparr>],
                           cleanupMap := (cleanupMap st1)(d \<mapsto> s)\<rparr>))
         | None \<Rightarrow> (err, fold forget nInfoList st1))"

definition unsubscribe ::
  "('r, 'c) infra \<Rightarrow> ('r, 's) sub_infra \<Rightarrow> nat \<Rightarrow> ('a, 't, 'r, 'c, 's) subs \<Rightarrow> ('a, 't, 'r, 'c, 's) subs" where
  "unsubscribe X S d st =
     (let c = sdbs st ! d in st\<lparr>sdbs := (sdbs st)[d := c\<lparr>sc_db := snd (UnsubscribeDB X S (sc_db c))\<rparr>]\<rparr>)"

definition cleanup ::
  "('r, 'c) infra \<Rightarrow> ('r, 's) sub_infra \<Rightarrow> nat \<Rightarrow> ('a, 't, 'r, 'c, 's) subs \<Rightarrow> ('a, 't, 'r, 'c, 's) subs" where
  "cleanup X S stop st =
     (case stopMap st stop of
        None \<Rightarrow> st
      | Some s \<Rightarrow>
          (let si = sinfos st ! s;
               st1 = fold forget (nInfoArr si) (fold (unsubscribe X S) (sDBs si) st)
           in st1\<lparr>stopMap := (stopMap st1)(stop := None)\<rparr>))"

text \<open>The loop over the databases of \<^verbatim>\<open>startSubscribe\<close>, in the order the map is ranged over.\<close>

fun startLoop ::
  "('r, 'c) infra \<Rightarrow> ('r, 's) sub_infra \<Rightarrow> nat \<Rightarrow> (DBNum, nat list) gomap \<Rightarrow> ('a, 't, 'r, 'c, 's) subs \<Rightarrow>
   go_error option \<times> ('a, 't, 'r, 'c, 's) subs" where
  "startLoop X S s [] st = (None, st)"
| "startLoop X S s ((dbno, arr) # rest) st =
     (let (err, st1) = startDBSubscribe X S (getDBOptions dbno True) arr s st
      in if err \<noteq> None then (err, cleanup X S (si_stop (sinfos st1 ! s)) st1)
         else
           let si = sinfos st1 ! s
           in startLoop X S s rest (st1\<lparr>sinfos := (sinfos st1)[s := si\<lparr>nInfoArr := nInfoArr si @ arr\<rparr>]\<rparr>))"

text \<open>The loop that sends the initial payloads; \<^verbatim>\<open>updateCache\<close> never fails, so its error exit is dead.\<close>

fun syncLoop ::
  "(nat \<Rightarrow> int) \<Rightarrow> ('t, 'a, 'y, 'r, 'c) appInterface \<Rightarrow> nat \<Rightarrow> nat list \<Rightarrow> ('a, 't, 'r, 'c, 's) subs \<Rightarrow>
   ('a, 't, 'r, 'c, 's) subs" where
  "syncLoop clock A s [] st = st"
| "syncLoop clock A s (n # rest) st =
     (let st1 = snd (updateCache A n st);
          st2 = (if rest = [] then st1\<lparr>sinfos := (sinfos st1)[s := (sinfos st1 ! s)\<lparr>syncDone := True\<rparr>]\<rparr> else st1)
      in syncLoop clock A s rest (sendNotification clock s n False st2))"

definition startSubscribe ::
  "(nat \<Rightarrow> int) \<Rightarrow> ('t, 'a, 'y, 'r, 'c) appInterface \<Rightarrow> ('r, 'c) infra \<Rightarrow> ('r, 's) sub_infra \<Rightarrow> nat \<Rightarrow>
   (DBNum, nat list) gomap \<Rightarrow> ('a, 't, 'r, 'c, 's) subs \<Rightarrow> go_error option \<times> ('a, 't, 'r, 'c, 's) subs" where
  "startSubscribe clock A X S s dbNotificationMap st =
     (let stop = si_stop (sinfos st ! s);
          (err, st1) = startLoop X S s dbNotificationMap (st\<lparr>stopMap := (stopMap st)(stop \<mapsto> s)\<rparr>)
      in if err \<noteq> None then (err, st1)
         else
           let st2 = syncLoop clock A s (nInfoArr (sinfos st1 ! s)) st1
           in (None, st2\<lparr>watching := watching st2 @ [stop]\<rparr>))"

text \<open>The goroutine \<^verbatim>\<open>stophandler\<close>, once its channel is signalled.\<close>

definition stophandler ::
  "('r, 'c) infra \<Rightarrow> ('r, 's) sub_infra \<Rightarrow> nat \<Rightarrow> ('a, 't, 'r, 'c, 's) subs \<Rightarrow> ('a, 't, 'r, 'c, 's) subs" where
  "stophandler X S stop st = cleanup X S stop (st\<lparr>watching := remove1 stop (watching st)\<rparr>)"

subsection \<open>The entry point\<close>

text \<open>
  One round of the loop of \<^verbatim>\<open>Subscribe\<close>: the response for the path, the error it sets, and the
  notification info it registers, if it does.
\<close>

definition subscribeOne ::
  "('t, 'a, 'y, 'r, 'c) appInterface \<Rightarrow> 't registry \<Rightarrow> string \<Rightarrow> nat \<Rightarrow> go_error option \<Rightarrow> ('r, 'c) dbs \<Rightarrow>
   (IsSubscribeResponse \<times> go_error option \<times> ('a, 't) notificationInfo option \<times> ('r, 'c) dbs) option" where
  "subscribeOne A g path dbsAddr sErr dbs =
     do { let resp = initialIsSubscribe path;
          (app, info) \<leftarrow> getAppModule A g path;
          let ((nOpts, nInfo, errApp), app1, dbs1) = translateSubscribe A dbs path app;
          Some (case errApp of
              Some e \<Rightarrow>
                (withNotificationOpts nOpts (resp\<lparr>is_Err := Some e, MinInterval := maxSubsInterval\<rparr>),
                 (if sErr = None then Some e else sErr), None, dbs1)
            | None \<Rightarrow>
                (let resp1 = withNotificationOpts nOpts resp
                 in case nInfo of
                      None \<Rightarrow>
                        (let e = NotSupportedError \<lparr>errFormat = ''Subscribe not supported'', errArgs = [], errPath = path\<rparr>
                         in (resp1\<lparr>is_Err := Some e\<rparr>, Some e, None, dbs1))
                    | Some nt \<Rightarrow>
                        (resp1\<lparr>IsOnChangeSupported := True\<rparr>, sErr,
                         Some \<lparr>nt_table = nt_table nt, nt_key = nt_key nt, nt_dbno = nt_dbno nt,
                           nt_needCache = nt_needCache nt, ni_path = path, ni_app = app1, ni_appInfo = info,
                           ni_cache = [], ni_sKey = None, ni_dbs = dbsAddr\<rparr>, dbs1))) }"

text \<open>The loop; \<open>ns\<close> are the infos allocated so far, \<open>m\<close> the map from databases to their addresses.\<close>

fun subscribeLoop ::
  "('t, 'a, 'y, 'r, 'c) appInterface \<Rightarrow> 't registry \<Rightarrow> nat \<Rightarrow> string list \<Rightarrow> go_error option \<Rightarrow>
   ('a, 't) notificationInfo list \<Rightarrow> (DBNum, nat list) gomap \<Rightarrow> ('r, 'c) dbs \<Rightarrow>
   (IsSubscribeResponse list \<times> go_error option \<times> ('a, 't) notificationInfo list \<times>
    (DBNum, nat list) gomap \<times> ('r, 'c) dbs) option" where
  "subscribeLoop A g dbsAddr [] sErr ns m dbs = Some ([], sErr, ns, m, dbs)"
| "subscribeLoop A g dbsAddr (path # paths) sErr ns m dbs =
     do { (resp, sErr1, nInfo, dbs1) \<leftarrow> subscribeOne A g path dbsAddr sErr dbs;
          (resps, res) \<leftarrow>
            (case nInfo of
               None \<Rightarrow> subscribeLoop A g dbsAddr paths sErr1 ns m dbs1
             | Some ni \<Rightarrow>
                 (let old = (case mapGet m (nt_dbno ni) of Some l \<Rightarrow> l | None \<Rightarrow> [])
                  in subscribeLoop A g dbsAddr paths sErr1 (ns @ [ni])
                       (mapPut (nt_dbno ni) (old @ [length ns]) m) dbs1));
          Some (resp # resps, res) }"

text \<open>
  \<open>order\<close> is the order in which the range over the map visits its entries, \<open>q\<close> and \<open>stop\<close> are the queue
  and the channel of the request.  \<^term>\<open>None\<close>: a panic.
\<close>

definition Subscribe ::
  "(nat \<Rightarrow> int) \<Rightarrow> ((DBNum, nat list) gomap \<Rightarrow> (DBNum, nat list) gomap) \<Rightarrow> ('r, 'c) infra \<Rightarrow> ('r, 's) sub_infra \<Rightarrow>
   ('t, 'a, 'y, 'r, 'c) appInterface \<Rightarrow> 't registry \<Rightarrow> SubscribeRequest \<Rightarrow> nat \<Rightarrow> nat \<Rightarrow>
   ('a, 't, 'r, 'c, 's) subs \<Rightarrow>
   ((IsSubscribeResponse list \<times> go_error option) \<times> ('a, 't, 'r, 'c, 's) subs) option" where
  "Subscribe clock order X S A g req q stop st =
     (let resp = map initialIsSubscribe (sb_Paths req)
      in if \<not> isAuthorizedForSubscribe req then Some ((resp, Some (unauthorized ''Action'' [])), st)
         else
           let ((dbs, err), closed) = getAllDbs X True
           in if err \<noteq> None then Some ((resp, err), st)
              else
                do { (resps, sErr, ns, m, dbs1) \<leftarrow>
                       subscribeLoop A g (length (dbsets st)) (sb_Paths req) None (ninfos st) [] dbs;
                     let st1 = st\<lparr>ninfos := ns, dbsets := dbsets st @ [dbs1]\<rparr>;
                     if sErr \<noteq> None then Some ((resps, sErr), st1)
                     else
                       let si = \<lparr>syncDone = False, si_q = q, nInfoArr = [], si_stop = stop, sDBs = []\<rparr>;
                           (err2, st2) = startSubscribe clock A X S (length (sinfos st1)) (order m)
                                           (st1\<lparr>sinfos := sinfos st1 @ [si]\<rparr>)
                       in Some ((resps, err2), st2) })"

subsection \<open>Notifications\<close>

text \<open>\<^term>\<open>None\<close>: the index 0 of an empty \<^verbatim>\<open>nInfoArr\<close>.\<close>

definition notificationHandler ::
  "(nat \<Rightarrow> int) \<Rightarrow> ('t, 'a, 'y, 'r, 'c) appInterface \<Rightarrow> nat \<Rightarrow> nat option \<Rightarrow> SEvent \<Rightarrow>
   ('a, 't, 'r, 'c, 's) subs \<Rightarrow> ('a, 't, 'r, 'c, 's) subs option" where
  "notificationHandler clock A d sKey event st =
     (if event \<in> {SEventHSet, SEventHDel, SEventDel}
      then Some
        (case sKey of
           None \<Rightarrow> st
         | Some k \<Rightarrow>
             (case nMap st k of
                None \<Rightarrow> st
              | Some n \<Rightarrow>
                  (case sMap st n of
                     None \<Rightarrow> st
                   | Some s \<Rightarrow>
                       (let (isChanged, st1) = isCacheChanged A n st
                        in if isChanged then sendNotification clock s n False st1 else st1))))
      else if event = SEventErr
      then (case cleanupMap st d of
              None \<Rightarrow> Some st
            | Some s \<Rightarrow>
                (case nInfoArr (sinfos st ! s) of
                   [] \<Rightarrow> None
                 | n # _ \<Rightarrow> Some (sendNotification clock s n True st)))
      else Some st)"

text \<open>
  The process: a client subscribes, with a stop channel that no running subscription has, and the range
  over the map visits its entries in some order; the channel is signalled; the goroutine of a
  subscription object calls the handler for a message, or when the message channel is closed; other
  clients change the databases.
\<close>

inductive sub_step ::
  "(nat \<Rightarrow> int) \<Rightarrow> ('r, 'c) infra \<Rightarrow> ('r, 's) sub_infra \<Rightarrow> ('t, 'a, 'y, 'r, 'c) appInterface \<Rightarrow> 't registry \<Rightarrow>
   ('a, 't, 'r, 'c, 's) subs \<Rightarrow> ('a, 't, 'r, 'c, 's) subs \<Rightarrow> bool"
  for clock X S A g where
  subscribed: "stopMap st stop = None \<Longrightarrow> \<forall>m. mset (order m) = mset m \<Longrightarrow>
     Subscribe clock order X S A g req q stop st = Some (res, st') \<Longrightarrow> sub_step clock X S A g st st'"
| stopped: "stop \<in> set (watching st) \<Longrightarrow> sub_step clock X S A g st (stophandler X S stop st)"
| notified: "d < length (sdbs st) \<Longrightarrow> sc_running (sdbs st ! d) \<Longrightarrow>
     dispatch (Opts (s_db (sc_db (sdbs st ! d)))) (map (\<lambda>k. skeys st ! k) (sc_keys (sdbs st ! d)))
       (sc_patMap (sdbs st ! d)) msg = Some calls \<Longrightarrow>
     OnKey i key event \<in> set calls \<Longrightarrow>
     notificationHandler clock A d (Some (sc_keys (sdbs st ! d) ! i)) event st = Some st' \<Longrightarrow>
     sub_step clock X S A g st st'"
| ended: "d < length (sdbs st) \<Longrightarrow> sc_running (sdbs st ! d) \<Longrightarrow>
     notificationHandler clock A d None (if sCIP (sc_db (sdbs st ! d)) = False then SEventErr else SEventClose)
       (st\<lparr>sdbs := (sdbs st)[d := (sdbs st ! d)\<lparr>sc_running := False\<rparr>]\<rparr>) = Some st' \<Longrightarrow>
     sub_step clock X S A g st st'"
| outside: "length ds = length (dbsets st) \<Longrightarrow> sub_step clock X S A g st (st\<lparr>dbsets := ds\<rparr>)"

end
