(* ===== verification/Translib_Subscribe_Props.thy ===== *)
theory Translib_Subscribe_Props
  imports Translib_Subscribe
begin

text \<open>
  What the subscription registry guarantees: the maps are consistent in every state the process
  reaches, a started subscription sends each payload once at first and then only when it changed,
  a call that fails leaves no trace in the maps, and nothing is sent after the stop channel was
  signalled.
\<close>

subsection \<open>Frames of the operations\<close>

lemma SubscribeDB_result:
  "SubscribeDB X S opt ks = (r, e) \<Longrightarrow> (r = None) = (e \<noteq> None)"
  "SubscribeDB X S opt ks = (Some (sub, pm), e) \<Longrightarrow> \<not> sCIP sub"
  by (auto simp: SubscribeDB_def NewDB_def Let_def split: if_splits prod.splits option.splits)

text \<open>Reading the payload changes the module and the database objects only.\<close>

lemma getJson_frame:
  "\<exists>app ds. snd (getJson A n st) = st\<lparr>ninfos := (ninfos st)[n := (ninfos st ! n)\<lparr>ni_app := app\<rparr>], dbsets := ds\<rparr> \<and>
     length ds = length (dbsets st)"
proof (cases "appInitialize A (ni_app (ninfos st ! n)) (ni_appInfo (ninfos st ! n)) (ni_path (ninfos st ! n)) None None GET")
  case (Inl err)
  then show ?thesis
    by (intro exI [of _ "ni_app (ninfos st ! n)"] exI [of _ "dbsets st"]) (simp add: getJson_def Let_def)
next
  case (Inr app1)
  obtain err1 app2 dbs1 where t: "translateGet A (dbsets st ! ni_dbs (ninfos st ! n)) app1 = (err1, app2, dbs1)"
    by (metis surj_pair)
  obtain resp err2 app3 dbs2 where p: "processGet A dbs1 app2 = ((resp, err2), app3, dbs2)" by (metis surj_pair)
  show ?thesis
    by (rule exI [of _ "if err1 = None then app3 else app2"],
        rule exI [of _ "(dbsets st)[ni_dbs (ninfos st ! n) := if err1 = None then dbs2 else dbs1]"])
       (simp add: getJson_def Let_def Inr t p)
qed

definition withCache :: "nat \<Rightarrow> 'a \<Rightarrow> string \<Rightarrow> ('r, 'c) dbs list \<Rightarrow> ('a, 't, 'r, 'c, 's) subs \<Rightarrow> ('a, 't, 'r, 'c, 's) subs" where
  "withCache n app json ds st =
     st\<lparr>ninfos := (ninfos st)[n := (ninfos st ! n)\<lparr>ni_app := app, ni_cache := json\<rparr>], dbsets := ds\<rparr>"

lemma setCache_withCache:
  assumes "n < length (ninfos st)"
  shows "setCache n json (st\<lparr>ninfos := (ninfos st)[n := (ninfos st ! n)\<lparr>ni_app := app\<rparr>], dbsets := ds\<rparr>) =
    withCache n app json ds st"
  using assms by (simp add: setCache_def withCache_def)

lemma getJson_result:
  obtains json err app ds where
    "getJson A n st = ((json, err), st\<lparr>ninfos := (ninfos st)[n := (ninfos st ! n)\<lparr>ni_app := app\<rparr>], dbsets := ds\<rparr>)"
    "length ds = length (dbsets st)"
  using getJson_frame [of A n st] by (metis surj_pair snd_conv)

lemma updateCache_frame:
  assumes "n < length (ninfos st)"
  shows "\<exists>app json ds. updateCache A n st = (None, withCache n app json ds st) \<and> length ds = length (dbsets st)"
proof -
  obtain json err app ds where j:
    "getJson A n st = ((json, err), st\<lparr>ninfos := (ninfos st)[n := (ninfos st ! n)\<lparr>ni_app := app\<rparr>], dbsets := ds\<rparr>)"
    "length ds = length (dbsets st)" by (rule getJson_result)
  then have "updateCache A n st = (None, withCache n app (if err = None then json else ''{}'') ds st)"
    unfolding updateCache_def by (simp only: Let_def prod.case setCache_withCache [OF assms])
  with j(2) show ?thesis by blast
qed

lemma isCacheChanged_frame:
  assumes "n < length (ninfos st)"
  shows "\<exists>app json ds. isCacheChanged A n st = (json \<noteq> ni_cache (ninfos st ! n), withCache n app json ds st) \<and>
    length ds = length (dbsets st)"
proof -
  obtain json0 err app ds where j:
    "getJson A n st = ((json0, err), st\<lparr>ninfos := (ninfos st)[n := (ninfos st ! n)\<lparr>ni_app := app\<rparr>], dbsets := ds\<rparr>)"
    "length ds = length (dbsets st)" by (rule getJson_result)
  define json where "json = (if err \<noteq> None then ''{}'' else json0)"
  let ?st1 = "st\<lparr>ninfos := (ninfos st)[n := (ninfos st ! n)\<lparr>ni_app := app\<rparr>], dbsets := ds\<rparr>"
  have c: "ni_cache (ninfos ?st1 ! n) = ni_cache (ninfos st ! n)" using assms by simp
  have i: "isCacheChanged A n st =
      (if ni_cache (ninfos st ! n) = json then (False, ?st1) else (True, withCache n app json ds st))"
    unfolding isCacheChanged_def j(1)
    by (simp only: Let_def prod.case setCache_withCache [OF assms] c json_def [symmetric])
  have "?st1 = withCache n app json ds st" if "ni_cache (ninfos st ! n) = json"
    using assms by (simp add: withCache_def that [symmetric])
  with i have "isCacheChanged A n st = (json \<noteq> ni_cache (ninfos st ! n), withCache n app json ds st)"
    by (cases "ni_cache (ninfos st ! n) = json") simp_all
  with j(2) show ?thesis by blast
qed

lemma withCache_simps [simp]:
  "sinfos (withCache n app json ds st) = sinfos st" "skeys (withCache n app json ds st) = skeys st"
  "sdbs (withCache n app json ds st) = sdbs st" "dbsets (withCache n app json ds st) = ds"
  "nMap (withCache n app json ds st) = nMap st" "sMap (withCache n app json ds st) = sMap st"
  "stopMap (withCache n app json ds st) = stopMap st" "cleanupMap (withCache n app json ds st) = cleanupMap st"
  "watching (withCache n app json ds st) = watching st" "puts (withCache n app json ds st) = puts st"
  "length (ninfos (withCache n app json ds st)) = length (ninfos st)"
  by (simp_all add: withCache_def)

lemma withCache_info:
  "ninfos (withCache n app json ds st) = (ninfos st)[n := (ninfos st ! n)\<lparr>ni_app := app, ni_cache := json\<rparr>]"
  by (simp add: withCache_def)

lemma list_update_proj: "f x = f (xs ! n) \<Longrightarrow> f (xs[n := x] ! i) = f (xs ! i)"
  by (cases "n < length xs"; cases "i = n") (simp_all add: list_update_beyond)

lemma withCache_info_simps [simp]:
  "ni_sKey (ninfos (withCache n app json ds st) ! i) = ni_sKey (ninfos st ! i)"
  "ni_path (ninfos (withCache n app json ds st) ! i) = ni_path (ninfos st ! i)"
  "n < length (ninfos st) \<Longrightarrow> ni_cache (ninfos (withCache n app json ds st) ! i) =
     (if i = n then json else ni_cache (ninfos st ! i))"
  "i \<noteq> n \<Longrightarrow> ninfos (withCache n app json ds st) ! i = ninfos st ! i"
  unfolding withCache_info by (simp_all add: list_update_proj)

lemma sendNotification_simps [simp]:
  "ninfos (sendNotification clock s n t st) = ninfos st" "sinfos (sendNotification clock s n t st) = sinfos st"
  "skeys (sendNotification clock s n t st) = skeys st" "sdbs (sendNotification clock s n t st) = sdbs st"
  "dbsets (sendNotification clock s n t st) = dbsets st" "nMap (sendNotification clock s n t st) = nMap st"
  "sMap (sendNotification clock s n t st) = sMap st" "stopMap (sendNotification clock s n t st) = stopMap st"
  "cleanupMap (sendNotification clock s n t st) = cleanupMap st"
  "watching (sendNotification clock s n t st) = watching st"
  by (simp_all add: sendNotification_def Let_def)

text \<open>The payloads sent for a notification info, the closing notice apart.\<close>

definition sentTo :: "nat \<Rightarrow> ('a, 't, 'r, 'c, 's) subs \<Rightarrow> string list" where
  "sentTo n st =
     map (\<lambda>(m, q, r). sn_Payload r) (filter (\<lambda>(m, q, r). m = n \<and> \<not> IsTerminated r) (puts st))"

lemma sentTo_cong: "puts st' = puts st \<Longrightarrow> sentTo n st' = sentTo n st"
  by (simp add: sentTo_def)

lemma sentTo_send:
  "sentTo m (sendNotification clock s n t st) =
     sentTo m st @ (if m = n \<and> \<not> t then [ni_cache (ninfos st ! n)] else [])"
  by (auto simp: sentTo_def sendNotification_def Let_def)

subsection \<open>The invariant\<close>

definition maps_ok :: "('a, 't, 'r, 'c, 's) subs \<Rightarrow> bool" where
  "maps_ok st \<longleftrightarrow>
     (\<forall>k n. nMap st k = Some n \<longrightarrow>
        k < length (skeys st) \<and> n < length (ninfos st) \<and> ni_sKey (ninfos st ! n) = Some k \<and> sMap st n \<noteq> None) \<and>
     (\<forall>n s. sMap st n = Some s \<longrightarrow>
        s < length (sinfos st) \<and> n < length (ninfos st) \<and> n \<in> set (nInfoArr (sinfos st ! s)) \<and>
        stopMap st (si_stop (sinfos st ! s)) = Some s) \<and>
     (\<forall>c s. stopMap st c = Some s \<longrightarrow>
        s < length (sinfos st) \<and> si_stop (sinfos st ! s) = c \<and> c \<in> set (watching st) \<and>
        (\<forall>n \<in> set (nInfoArr (sinfos st ! s)). sMap st n = Some s \<and>
           (\<exists>k. ni_sKey (ninfos st ! n) = Some k \<and> nMap st k = Some n)))"

definition dbs_ok :: "('a, 't, 'r, 'c, 's) subs \<Rightarrow> bool" where
  "dbs_ok st \<longleftrightarrow>
     (\<forall>d s. cleanupMap st d = Some s \<longrightarrow>
        s < length (sinfos st) \<and> nInfoArr (sinfos st ! s) \<noteq> [] \<and> d \<in> set (sDBs (sinfos st ! s))) \<and>
     (\<forall>s < length (sinfos st). \<forall>d \<in> set (sDBs (sinfos st ! s)).
        d < length (sdbs st) \<and> (stopMap st (si_stop (sinfos st ! s)) = Some s \<or> sCIP (sc_db (sdbs st ! d)))) \<and>
     (\<forall>s < length (sinfos st). \<forall>n \<in> set (nInfoArr (sinfos st ! s)). n < length (ninfos st))"

definition sent_ok :: "('a, 't, 'r, 'c, 's) subs \<Rightarrow> bool" where
  "sent_ok st \<longleftrightarrow>
     (\<forall>n. distinct_adj (sentTo n st) \<and> (length (ninfos st) \<le> n \<longrightarrow> sentTo n st = []) \<and>
        (sMap st n \<noteq> None \<longrightarrow> sentTo n st \<noteq> [] \<and> last (sentTo n st) = ni_cache (ninfos st ! n)))"

definition sub_inv :: "('a, 't, 'r, 'c, 's) subs \<Rightarrow> bool" where
  "sub_inv st \<longleftrightarrow> maps_ok st \<and> dbs_ok st \<and> sent_ok st"

lemma sub_inv_empty: "sub_inv emptySubs"
  by (simp add: sub_inv_def maps_ok_def dbs_ok_def sent_ok_def sentTo_def emptySubs_def)

text \<open>The parts of the state that each of the three reads.\<close>

lemma maps_ok_cong:
  assumes "maps_ok st" "nMap st' = nMap st" "sMap st' = sMap st" "stopMap st' = stopMap st"
    "length (skeys st') = length (skeys st)" "length (ninfos st') = length (ninfos st)"
    "\<And>n. ni_sKey (ninfos st' ! n) = ni_sKey (ninfos st ! n)" "sinfos st' = sinfos st" "watching st' = watching st"
  shows "maps_ok st'"
  using assms(1) unfolding maps_ok_def assms(2-9) .

lemma dbs_ok_cong:
  assumes "dbs_ok st" "cleanupMap st' = cleanupMap st" "stopMap st' = stopMap st" "sinfos st' = sinfos st"
    "length (ninfos st') = length (ninfos st)" "length (sdbs st') = length (sdbs st)"
    "\<And>d. d < length (sdbs st) \<Longrightarrow> sCIP (sc_db (sdbs st' ! d)) = sCIP (sc_db (sdbs st ! d))"
  shows "dbs_ok st'"
  using assms(1) assms(7) unfolding dbs_ok_def assms(2-6) by metis

lemmas [simp] = list_update_proj

lemma maps_okD:
  assumes "maps_ok st"
  shows "nMap st k = Some n \<Longrightarrow> k < length (skeys st)" "nMap st k = Some n \<Longrightarrow> n < length (ninfos st)"
    "nMap st k = Some n \<Longrightarrow> ni_sKey (ninfos st ! n) = Some k"
    "sMap st n = Some s \<Longrightarrow> s < length (sinfos st)" "sMap st n = Some s \<Longrightarrow> n < length (ninfos st)"
    "sMap st n = Some s \<Longrightarrow> n \<in> set (nInfoArr (sinfos st ! s))"
    "sMap st n = Some s \<Longrightarrow> stopMap st (si_stop (sinfos st ! s)) = Some s"
    "stopMap st c = Some s \<Longrightarrow> s < length (sinfos st)" "stopMap st c = Some s \<Longrightarrow> si_stop (sinfos st ! s) = c"
    "stopMap st c = Some s \<Longrightarrow> c \<in> set (watching st)"
    "stopMap st c = Some s \<Longrightarrow> n \<in> set (nInfoArr (sinfos st ! s)) \<Longrightarrow> sMap st n = Some s"
    "stopMap st c = Some s \<Longrightarrow> n \<in> set (nInfoArr (sinfos st ! s)) \<Longrightarrow>
       \<exists>k. ni_sKey (ninfos st ! n) = Some k \<and> nMap st k = Some n"
  using assms unfolding maps_ok_def by blast+

lemma maps_okI:
  assumes "\<And>k n. nMap st k = Some n \<Longrightarrow>
       k < length (skeys st) \<and> n < length (ninfos st) \<and> ni_sKey (ninfos st ! n) = Some k \<and> sMap st n \<noteq> None"
    and "\<And>n s. sMap st n = Some s \<Longrightarrow>
       s < length (sinfos st) \<and> n < length (ninfos st) \<and> n \<in> set (nInfoArr (sinfos st ! s)) \<and>
       stopMap st (si_stop (sinfos st ! s)) = Some s"
    and "\<And>c s. stopMap st c = Some s \<Longrightarrow>
       s < length (sinfos st) \<and> si_stop (sinfos st ! s) = c \<and> c \<in> set (watching st)"
    and "\<And>c s n. stopMap st c = Some s \<Longrightarrow> n \<in> set (nInfoArr (sinfos st ! s)) \<Longrightarrow>
       sMap st n = Some s \<and> (\<exists>k. ni_sKey (ninfos st ! n) = Some k \<and> nMap st k = Some n)"
  shows "maps_ok st"
  unfolding maps_ok_def using assms by blast

subsection \<open>Notifications keep the invariant\<close>

lemma changed_notification_inv:
  assumes "sub_inv st" "sMap st n = Some s" "n < length (ninfos st)" "json \<noteq> ni_cache (ninfos st ! n)"
  shows "sub_inv (sendNotification clock s n False (withCache n app json ds st))"
proof -
  let ?st' = "sendNotification clock s n False (withCache n app json ds st)"
  have "maps_ok ?st'" by (rule maps_ok_cong [of st]) (use assms(1) in \<open>simp_all add: sub_inv_def\<close>)
  moreover have "dbs_ok ?st'" by (rule dbs_ok_cong [of st]) (use assms(1) in \<open>simp_all add: sub_inv_def\<close>)
  moreover have sent: "sentTo m ?st' = sentTo m st @ (if m = n then [json] else [])" for m
    using assms(3) by (simp add: sentTo_send sentTo_cong [of "withCache n app json ds st" st])
  have "sent_ok ?st'"
    using assms unfolding sub_inv_def sent_ok_def sent by (auto simp: distinct_adj_append_iff)
  ultimately show ?thesis by (simp add: sub_inv_def)
qed

lemma unchanged_payload_inv:
  assumes "sub_inv st" "n < length (ninfos st)"
  shows "sub_inv (withCache n app (ni_cache (ninfos st ! n)) ds st)"
proof -
  let ?st' = "withCache n app (ni_cache (ninfos st ! n)) ds st"
  have "maps_ok ?st'" by (rule maps_ok_cong [of st]) (use assms(1) in \<open>simp_all add: sub_inv_def\<close>)
  moreover have "dbs_ok ?st'" by (rule dbs_ok_cong [of st]) (use assms(1) in \<open>simp_all add: sub_inv_def\<close>)
  moreover have "sent_ok ?st'"
    using assms by (simp add: sub_inv_def sent_ok_def sentTo_cong [of ?st' st])
  ultimately show ?thesis by (simp add: sub_inv_def)
qed

lemma terminated_notification_inv:
  assumes "sub_inv st"
  shows "sub_inv (sendNotification clock s n True st)"
proof -
  let ?st' = "sendNotification clock s n True st"
  have "maps_ok ?st'" by (rule maps_ok_cong [of st]) (use assms(1) in \<open>simp_all add: sub_inv_def\<close>)
  moreover have "dbs_ok ?st'" by (rule dbs_ok_cong [of st]) (use assms(1) in \<open>simp_all add: sub_inv_def\<close>)
  moreover have "sent_ok ?st'" using assms by (simp add: sub_inv_def sent_ok_def sentTo_send)
  ultimately show ?thesis by (simp add: sub_inv_def)
qed

text \<open>What a call of the handler can do.\<close>

lemma notificationHandler_cases:
  assumes "sub_inv st" "notificationHandler clock A d sKey event st = Some st'"
  obtains (Nothing) "st' = st"
  | (Same) k n app ds where "sKey = Some k" "nMap st k = Some n" "n < length (ninfos st)"
      "st' = withCache n app (ni_cache (ninfos st ! n)) ds st"
  | (Changed) k n s app json ds where "sKey = Some k" "nMap st k = Some n" "sMap st n = Some s" "n < length (ninfos st)"
      "json \<noteq> ni_cache (ninfos st ! n)" "st' = sendNotification clock s n False (withCache n app json ds st)"
  | (Terminated) s n where "event = SEventErr" "cleanupMap st d = Some s" "n \<in> set (nInfoArr (sinfos st ! s))"
      "st' = sendNotification clock s n True st"
proof -
  consider "event \<in> {SEventHSet, SEventHDel, SEventDel}" | "event = SEventErr"
    | "event \<notin> {SEventHSet, SEventHDel, SEventDel}" "event \<noteq> SEventErr" by blast
  then show thesis
  proof cases
    case 1
    show thesis
    proof (cases "\<exists>k n s. sKey = Some k \<and> nMap st k = Some n \<and> sMap st n = Some s")
      case False
      then have "st' = st"
        using assms(2) 1 by (auto simp: notificationHandler_def split: option.splits if_splits)
      then show thesis by (rule Nothing)
    next
      case True
      then obtain k n s where k: "sKey = Some k" "nMap st k = Some n" "sMap st n = Some s" by blast
      then have n: "n < length (ninfos st)" using assms(1) maps_okD by (auto simp: sub_inv_def)
      obtain app json ds where c: "isCacheChanged A n st = (json \<noteq> ni_cache (ninfos st ! n), withCache n app json ds st)"
        using isCacheChanged_frame [OF n] by blast
      have st': "st' = (if json \<noteq> ni_cache (ninfos st ! n)
          then sendNotification clock s n False (withCache n app json ds st) else withCache n app json ds st)"
        using assms(2) 1 k c by (simp add: notificationHandler_def)
      show thesis
        by (cases "json = ni_cache (ninfos st ! n)") (use Same Changed k n st' in auto)
    qed
  next
    case 2
    show thesis
    proof (cases "cleanupMap st d")
      case None
      then show thesis using assms(2) 2 Nothing by (simp add: notificationHandler_def)
    next
      case (Some s)
      then show thesis using assms(2) 2
        by (cases "nInfoArr (sinfos st ! s)") (auto simp: notificationHandler_def intro: Terminated)
    qed
  next
    case 3
    then have "st' = st" using assms(2) by (simp add: notificationHandler_def)
    then show thesis by (rule Nothing)
  qed
qed

lemma notificationHandler_inv:
  assumes "sub_inv st" "notificationHandler clock A d sKey event st = Some st'"
  shows "sub_inv st'"
  using assms
proof (cases rule: notificationHandler_cases)
  case (Same k n app ds)
  then show ?thesis using unchanged_payload_inv [OF assms(1)] by simp
next
  case (Changed k n s app json ds)
  then show ?thesis using changed_notification_inv [OF assms(1)] by simp
qed (use assms(1) terminated_notification_inv in auto)

text \<open>The handler never panics: the notification infos of a subscription with a database are not empty.\<close>

lemma notificationHandler_returns:
  assumes "sub_inv st"
  shows "notificationHandler clock A d sKey event st \<noteq> None"
  using assms by (auto simp: notificationHandler_def sub_inv_def dbs_ok_def split: option.splits list.splits)

subsection \<open>The end of a subscription\<close>

lemma unsubscribe_fold:
  "\<exists>sd. fold (unsubscribe X S) ds st = st\<lparr>sdbs := sd\<rparr> \<and> length sd = length (sdbs st) \<and>
     (\<forall>d < length sd. sCIP (sc_db (sd ! d)) = (sCIP (sc_db (sdbs st ! d)) \<or> d \<in> set ds)) \<and>
     (\<forall>d. d \<notin> set ds \<longrightarrow> sd ! d = sdbs st ! d)"
proof (induction ds arbitrary: st)
  case Nil
  show ?case by (intro exI [of _ "sdbs st"]) simp
next
  case (Cons d ds)
  let ?st1 = "unsubscribe X S d st"
  have 1: "?st1 = st\<lparr>sdbs := sdbs ?st1\<rparr>" "length (sdbs ?st1) = length (sdbs st)"
    by (simp_all add: unsubscribe_def Let_def)
  have 2: "sCIP (sc_db (sdbs ?st1 ! i)) = (sCIP (sc_db (sdbs st ! i)) \<or> i = d)" if "i < length (sdbs st)" for i
    using that by (cases "i = d") (auto simp: unsubscribe_def UnsubscribeDB_def Let_def)
  have 3: "sdbs ?st1 ! i = sdbs st ! i" if "i \<noteq> d" for i
    using that by (simp add: unsubscribe_def Let_def)
  obtain sd where sd: "fold (unsubscribe X S) ds ?st1 = ?st1\<lparr>sdbs := sd\<rparr>" "length sd = length (sdbs ?st1)"
    "\<forall>i < length sd. sCIP (sc_db (sd ! i)) = (sCIP (sc_db (sdbs ?st1 ! i)) \<or> i \<in> set ds)"
    "\<forall>i. i \<notin> set ds \<longrightarrow> sd ! i = sdbs ?st1 ! i"
    using Cons.IH by blast
  have "?st1\<lparr>sdbs := sd\<rparr> = st\<lparr>sdbs := sd\<rparr>" by (subst 1(1)) simp
  then show ?case using sd 1(2) 2 3 by (intro exI [of _ sd]) auto
qed

definition keysOf :: "nat list \<Rightarrow> ('a, 't) notificationInfo list \<Rightarrow> nat set" where
  "keysOf ns infos = {k. \<exists>n \<in> set ns. ni_sKey (infos ! n) = Some k}"

definition forgetAll :: "nat list \<Rightarrow> ('a, 't, 'r, 'c, 's) subs \<Rightarrow> ('a, 't, 'r, 'c, 's) subs" where
  "forgetAll ns st = st\<lparr>nMap := nMap st |` (- keysOf ns (ninfos st)), sMap := sMap st |` (- set ns)\<rparr>"

lemma forget_form:
  "forget n st = st\<lparr>nMap := nMap st |` (- keysOf [n] (ninfos st)), sMap := sMap st |` (- {n})\<rparr>"
proof -
  have "(case ni_sKey (ninfos st ! n) of Some k \<Rightarrow> (nMap st)(k := None) | None \<Rightarrow> nMap st) = nMap st |` (- keysOf [n] (ninfos st))"
    by (auto simp: keysOf_def restrict_map_def fun_eq_iff split: option.splits)
  moreover have "(sMap st)(n := None) = sMap st |` (- {n})" by (auto simp: restrict_map_def)
  ultimately show ?thesis by (simp add: forget_def)
qed

lemma forget_fold: "fold forget ns st = forgetAll ns st"
proof (induction ns arbitrary: st)
  case Nil
  show ?case by (simp add: forgetAll_def keysOf_def restrict_map_def)
next
  case (Cons n ns)
  have "- keysOf [n] (ninfos st) \<inter> - keysOf ns (ninfos st) = - keysOf (n # ns) (ninfos st)" by (auto simp: keysOf_def)
  moreover have "- {n} \<inter> - set ns = - set (n # ns)" by auto
  ultimately show ?case using Cons.IH [of "forget n st"]
    by (simp add: forgetAll_def) (simp add: forget_form restrict_restrict)
qed

lemma cleanup_form:
  assumes "stopMap st c = Some s"
  obtains sd where "cleanup X S c st =
      (forgetAll (nInfoArr (sinfos st ! s)) st)\<lparr>sdbs := sd, stopMap := (stopMap st)(c := None)\<rparr>"
    "length sd = length (sdbs st)"
    "\<And>d. d < length sd \<Longrightarrow> sCIP (sc_db (sd ! d)) = (sCIP (sc_db (sdbs st ! d)) \<or> d \<in> set (sDBs (sinfos st ! s)))"
    "\<And>d. d \<notin> set (sDBs (sinfos st ! s)) \<Longrightarrow> sd ! d = sdbs st ! d"
proof -
  obtain sd where sd: "fold (unsubscribe X S) (sDBs (sinfos st ! s)) st = st\<lparr>sdbs := sd\<rparr>"
    "length sd = length (sdbs st)"
    "\<forall>d < length sd. sCIP (sc_db (sd ! d)) = (sCIP (sc_db (sdbs st ! d)) \<or> d \<in> set (sDBs (sinfos st ! s)))"
    "\<forall>d. d \<notin> set (sDBs (sinfos st ! s)) \<longrightarrow> sd ! d = sdbs st ! d"
    using unsubscribe_fold by blast
  show thesis
  proof (rule that [of sd])
    have "cleanup X S c st =
        (forgetAll (nInfoArr (sinfos st ! s)) (st\<lparr>sdbs := sd\<rparr>))\<lparr>stopMap := (stopMap st)(c := None)\<rparr>"
      unfolding cleanup_def assms by (simp only: option.case Let_def sd(1) forget_fold) (simp add: forgetAll_def)
    then show "cleanup X S c st =
        (forgetAll (nInfoArr (sinfos st ! s)) st)\<lparr>sdbs := sd, stopMap := (stopMap st)(c := None)\<rparr>"
      by (simp add: forgetAll_def)
  qed (use sd in simp_all)
qed

lemma maps_ok_watching:
  assumes "maps_ok st" "\<And>c s. stopMap st c = Some s \<Longrightarrow> c \<in> set ws"
  shows "maps_ok (st\<lparr>watching := ws\<rparr>)"
proof -
  have eq: "nMap (st\<lparr>watching := ws\<rparr>) = nMap st" "sMap (st\<lparr>watching := ws\<rparr>) = sMap st"
    "stopMap (st\<lparr>watching := ws\<rparr>) = stopMap st" "skeys (st\<lparr>watching := ws\<rparr>) = skeys st"
    "ninfos (st\<lparr>watching := ws\<rparr>) = ninfos st" "sinfos (st\<lparr>watching := ws\<rparr>) = sinfos st"
    "watching (st\<lparr>watching := ws\<rparr>) = ws" by simp_all
  show ?thesis using assms unfolding maps_ok_def eq by blast
qed

lemma stophandler_inv:
  assumes "sub_inv st"
  shows "sub_inv (stophandler X S c st)"
proof (cases "stopMap st c")
  case None
  let ?st' = "st\<lparr>watching := remove1 c (watching st)\<rparr>"
  have eq: "stophandler X S c st = ?st'" using None by (simp add: stophandler_def cleanup_def)
  have m: "maps_ok st" using assms by (simp add: sub_inv_def)
  have "maps_ok ?st'"
  proof (rule maps_ok_watching [OF m])
    fix c' s assume "stopMap st c' = Some s"
    then show "c' \<in> set (remove1 c (watching st))"
      using None maps_okD(10) [OF m] by (cases "c' = c") (auto simp: in_set_remove1)
  qed
  moreover have "dbs_ok ?st'" by (rule dbs_ok_cong [of st]) (use assms in \<open>simp_all add: sub_inv_def\<close>)
  moreover have "sent_ok ?st'" using assms by (simp add: sub_inv_def sent_ok_def sentTo_cong [of ?st' st])
  ultimately show ?thesis by (simp add: eq sub_inv_def)
next
  case (Some s)
  let ?w = "remove1 c (watching st)"
  let ?arr = "nInfoArr (sinfos st ! s)"
  note m = maps_okD [OF assms [unfolded sub_inv_def, THEN conjunct1]]
  obtain sd where st': "cleanup X S c (st\<lparr>watching := ?w\<rparr>) =
      (forgetAll ?arr (st\<lparr>watching := ?w\<rparr>))\<lparr>sdbs := sd, stopMap := (stopMap st)(c := None)\<rparr>"
    and sd: "length sd = length (sdbs st)"
      "\<And>d. d < length sd \<Longrightarrow> sCIP (sc_db (sd ! d)) = (sCIP (sc_db (sdbs st ! d)) \<or> d \<in> set (sDBs (sinfos st ! s)))"
    by (rule cleanup_form [of "st\<lparr>watching := ?w\<rparr>" c s X S]) (use Some in simp_all)
  let ?st' = "stophandler X S c st"
  have eq: "?st' = st\<lparr>watching := ?w, nMap := nMap st |` (- keysOf ?arr (ninfos st)), sMap := sMap st |` (- set ?arr),
      sdbs := sd, stopMap := (stopMap st)(c := None)\<rparr>"
    unfolding stophandler_def st' forgetAll_def by simp
  have w: "c' \<in> set ?w \<longleftrightarrow> c' \<in> set (watching st)" if "c' \<noteq> c" for c'
    using that by (simp add: in_set_remove1)
  have arr: "sMap st n = Some s" "\<exists>k. ni_sKey (ninfos st ! n) = Some k \<and> nMap st k = Some n" if "n \<in> set ?arr" for n
    using m(11,12) [OF Some that] by simp_all
  have "maps_ok ?st'"
  proof (rule maps_okI)
    fix k n assume "nMap ?st' k = Some n"
    then have k: "nMap st k = Some n" "\<forall>n' \<in> set ?arr. ni_sKey (ninfos st ! n') \<noteq> Some k"
      by (auto simp: eq restrict_map_def keysOf_def split: if_splits)
    with m(3) have "n \<notin> set ?arr" by blast
    then show "k < length (skeys ?st') \<and> n < length (ninfos ?st') \<and> ni_sKey (ninfos ?st' ! n) = Some k \<and> sMap ?st' n \<noteq> None"
      using k(1) m(1-3) [OF k(1)] \<open>n \<notin> set ?arr\<close> assms by (simp add: eq sub_inv_def maps_ok_def)
  next
    fix n s' assume "sMap ?st' n = Some s'"
    then have n: "sMap st n = Some s'" "n \<notin> set ?arr" by (auto simp: eq restrict_map_def split: if_splits)
    have "si_stop (sinfos st ! s') \<noteq> c" using m(6,7) [OF n(1)] n(2) Some by auto
    then show "s' < length (sinfos ?st') \<and> n < length (ninfos ?st') \<and> n \<in> set (nInfoArr (sinfos ?st' ! s')) \<and>
        stopMap ?st' (si_stop (sinfos ?st' ! s')) = Some s'"
      using m(4-7) [OF n(1)] by (simp add: eq)
  next
    fix c' s' assume "stopMap ?st' c' = Some s'"
    then have c': "stopMap st c' = Some s'" "c' \<noteq> c" by (auto simp: eq split: if_splits)
    then show "s' < length (sinfos ?st') \<and> si_stop (sinfos ?st' ! s') = c' \<and> c' \<in> set (watching ?st')"
      using m(8-10) [OF c'(1)] w [OF c'(2)] by (simp add: eq)
  next
    fix c' s' n assume "stopMap ?st' c' = Some s'" "n \<in> set (nInfoArr (sinfos ?st' ! s'))"
    then have c': "stopMap st c' = Some s'" "c' \<noteq> c" and n: "n \<in> set (nInfoArr (sinfos st ! s'))"
      by (auto simp: eq split: if_splits)
    then have "s' \<noteq> s" using m(9) [OF c'(1)] m(9) [OF Some] by auto
    obtain k where k: "ni_sKey (ninfos st ! n) = Some k" "nMap st k = Some n" using m(12) [OF c'(1) n] by blast
    have n': "n \<notin> set ?arr" using m(11) [OF c'(1) n] arr(1) [of n] \<open>s' \<noteq> s\<close> by auto
    have "\<forall>n' \<in> set ?arr. ni_sKey (ninfos st ! n') \<noteq> Some k" using arr(2) k(2) n' by force
    then have "k \<notin> keysOf ?arr (ninfos st)" by (simp add: keysOf_def)
    then show "sMap ?st' n = Some s' \<and> (\<exists>k. ni_sKey (ninfos ?st' ! n) = Some k \<and> nMap ?st' k = Some n)"
      using m(11) [OF c'(1) n] n' k by (simp add: eq)
  qed
  moreover have "dbs_ok ?st'"
  proof -
    have "stopMap ?st' (si_stop (sinfos st ! s')) = Some s' \<or> sCIP (sc_db (sd ! d))"
      if "s' < length (sinfos st)" "d \<in> set (sDBs (sinfos st ! s'))" for s' d
    proof (cases "si_stop (sinfos st ! s') = c \<and> s' = s")
      case True
      have "d < length (sdbs st)" using assms that by (auto simp: sub_inv_def dbs_ok_def)
      then show ?thesis using True that sd by simp
    next
      case False
      have "d < length (sdbs st)" "stopMap st (si_stop (sinfos st ! s')) = Some s' \<or> sCIP (sc_db (sdbs st ! d))"
        using assms that by (auto simp: sub_inv_def dbs_ok_def)
      then show ?thesis using False Some sd by (auto simp: eq)
    qed
    then show ?thesis using assms sd(1) unfolding sub_inv_def dbs_ok_def by (simp add: eq)
  qed
  moreover have "sent_ok ?st'"
  proof -
    have "sentTo n ?st' = sentTo n st" for n by (rule sentTo_cong) (simp add: eq)
    then show ?thesis using assms unfolding sub_inv_def sent_ok_def by (auto simp: eq restrict_map_def)
  qed
  ultimately show ?thesis by (simp add: sub_inv_def)
qed

end
