(* ===== verification/Translib_Subscribe_Start.thy ===== *)
theory Translib_Subscribe_Start
  imports Translib_Subscribe_Props
begin

text \<open>
  The start of a subscription: the state between the rounds of the loops of \<^verbatim>\<open>startSubscribe\<close>, compared
  with the state before it, and what a call that fails leaves behind.
\<close>

subsection \<open>The state while a subscription is started\<close>

text \<open>
  \<open>b\<close> is the state before, \<open>s\<close> the new subscription, \<open>R\<close> the infos in the maps and \<open>ready\<close> those of the
  subscription; \<open>sd\<close> is the flag \<^verbatim>\<open>syncDone\<close>.
\<close>

definition starting ::
  "('a, 't, 'r, 'c, 's) subs \<Rightarrow> nat \<Rightarrow> bool \<Rightarrow> nat set \<Rightarrow> nat list \<Rightarrow> ('a, 't, 'r, 'c, 's) subs \<Rightarrow> bool" where
  "starting b s sd R ready st \<longleftrightarrow>
     length (ninfos st) = length (ninfos b) \<and>
     sinfos st = (sinfos b)[s := (sinfos b ! s)\<lparr>nInfoArr := ready, syncDone := sd,
       sDBs := [length (sdbs b)..<length (sdbs st)]\<rparr>] \<and>
     (\<forall>n. ni_path (ninfos st ! n) = ni_path (ninfos b ! n)) \<and>
     (\<forall>n. sMap b n \<noteq> None \<longrightarrow> ninfos st ! n = ninfos b ! n) \<and>
     sMap st = (\<lambda>n. if n \<in> R then Some s else sMap b n) \<and>
     (\<forall>k n. (nMap st k = Some n) = (nMap b k = Some n \<or> n \<in> R \<and> ni_sKey (ninfos st ! n) = Some k)) \<and>
     (\<forall>n \<in> R. \<exists>k. length (skeys b) \<le> k \<and> k < length (skeys st) \<and> ni_sKey (ninfos st ! n) = Some k) \<and>
     (\<forall>n \<in> R. n < length (ninfos b) \<and> sMap b n = None) \<and> set ready \<subseteq> R \<and>
     length (skeys b) \<le> length (skeys st) \<and>
     stopMap st = (stopMap b)(si_stop (sinfos b ! s) \<mapsto> s) \<and>
     length (sdbs b) \<le> length (sdbs st) \<and> (\<forall>d < length (sdbs b). sdbs st ! d = sdbs b ! d) \<and>
     cleanupMap st = (\<lambda>d. if length (sdbs b) \<le> d \<and> d < length (sdbs st) then Some s else cleanupMap b d) \<and>
     (ready = [] \<longrightarrow> length (sdbs st) = length (sdbs b)) \<and> watching st = watching b"

text \<open>What holds of the state before.\<close>

definition startable :: "('a, 't, 'r, 'c, 's) subs \<Rightarrow> nat \<Rightarrow> bool" where
  "startable b s \<longleftrightarrow> sub_inv b \<and> s < length (sinfos b) \<and> nInfoArr (sinfos b ! s) = [] \<and> sDBs (sinfos b ! s) = [] \<and>
     stopMap b (si_stop (sinfos b ! s)) = None"

lemma startable_free:
  assumes "startable b s"
  shows "stopMap b c \<noteq> Some s" "sMap b n \<noteq> Some s" "cleanupMap b d \<noteq> Some s"
proof -
  have m: "maps_ok b" "dbs_ok b" using assms by (auto simp: startable_def sub_inv_def)
  show c: "stopMap b c \<noteq> Some s" for c
    using maps_okD(9) [OF m(1), of c s] assms by (auto simp: startable_def)
  show "sMap b n \<noteq> Some s" using maps_okD(7) [OF m(1), of n s] c by blast
  show "cleanupMap b d \<noteq> Some s" using m(2) assms by (auto simp: dbs_ok_def startable_def)
qed

lemma startingD:
  assumes "starting b s sd R ready st"
  shows "length (ninfos st) = length (ninfos b)"
    "sinfos st = (sinfos b)[s := (sinfos b ! s)\<lparr>nInfoArr := ready, syncDone := sd, sDBs := [length (sdbs b)..<length (sdbs st)]\<rparr>]"
    "ni_path (ninfos st ! n) = ni_path (ninfos b ! n)" "sMap b n \<noteq> None \<Longrightarrow> ninfos st ! n = ninfos b ! n"
    "sMap st = (\<lambda>n. if n \<in> R then Some s else sMap b n)"
    "nMap st k = Some n \<longleftrightarrow> nMap b k = Some n \<or> n \<in> R \<and> ni_sKey (ninfos st ! n) = Some k"
    "n \<in> R \<Longrightarrow> \<exists>k. length (skeys b) \<le> k \<and> k < length (skeys st) \<and> ni_sKey (ninfos st ! n) = Some k"
    "n \<in> R \<Longrightarrow> n < length (ninfos b)" "n \<in> R \<Longrightarrow> sMap b n = None" "set ready \<subseteq> R"
    "length (skeys b) \<le> length (skeys st)" "stopMap st = (stopMap b)(si_stop (sinfos b ! s) \<mapsto> s)"
    "length (sdbs b) \<le> length (sdbs st)" "d < length (sdbs b) \<Longrightarrow> sdbs st ! d = sdbs b ! d"
    "cleanupMap st = (\<lambda>d. if length (sdbs b) \<le> d \<and> d < length (sdbs st) then Some s else cleanupMap b d)"
    "ready = [] \<longrightarrow> length (sdbs st) = length (sdbs b)" "watching st = watching b"
  using assms unfolding starting_def by blast+

lemma startingI:
  assumes "length (ninfos st) = length (ninfos b)"
    "sinfos st = (sinfos b)[s := (sinfos b ! s)\<lparr>nInfoArr := ready, syncDone := sd, sDBs := [length (sdbs b)..<length (sdbs st)]\<rparr>]"
    "\<And>n. ni_path (ninfos st ! n) = ni_path (ninfos b ! n)" "\<And>n. sMap b n \<noteq> None \<Longrightarrow> ninfos st ! n = ninfos b ! n"
    "sMap st = (\<lambda>n. if n \<in> R then Some s else sMap b n)"
    "\<And>k n. nMap st k = Some n \<longleftrightarrow> nMap b k = Some n \<or> n \<in> R \<and> ni_sKey (ninfos st ! n) = Some k"
    "\<And>n. n \<in> R \<Longrightarrow> \<exists>k. length (skeys b) \<le> k \<and> k < length (skeys st) \<and> ni_sKey (ninfos st ! n) = Some k"
    "\<And>n. n \<in> R \<Longrightarrow> n < length (ninfos b) \<and> sMap b n = None" "set ready \<subseteq> R"
    "length (skeys b) \<le> length (skeys st)" "stopMap st = (stopMap b)(si_stop (sinfos b ! s) \<mapsto> s)"
    "length (sdbs b) \<le> length (sdbs st)" "\<And>d. d < length (sdbs b) \<Longrightarrow> sdbs st ! d = sdbs b ! d"
    "cleanupMap st = (\<lambda>d. if length (sdbs b) \<le> d \<and> d < length (sdbs st) then Some s else cleanupMap b d)"
    "ready = [] \<longrightarrow> length (sdbs st) = length (sdbs b)" "watching st = watching b"
  shows "starting b s sd R ready st"
  unfolding starting_def using assms by blast

lemma starting_begin:
  assumes "startable b s" "\<not> syncDone (sinfos b ! s)"
  shows "starting b s False {} [] (b\<lparr>stopMap := (stopMap b)(si_stop (sinfos b ! s) \<mapsto> s)\<rparr>)"
proof -
  have "(sinfos b ! s)\<lparr>nInfoArr := [], syncDone := False, sDBs := []\<rparr> = sinfos b ! s"
    using assms by (cases "sinfos b ! s") (simp add: startable_def)
  then show ?thesis by (intro startingI) (auto simp: fun_eq_iff)
qed

text \<open>A key is registered.\<close>

lemma starting_registerKey:
  assumes "startable b s" "starting b s sd R ready st" "n < length (ninfos b)" "sMap b n = None" "n \<notin> R"
  shows "starting b s sd (insert n R) ready (registerKey s n st)"
proof -
  note D = startingD [OF assms(2)]
  let ?k = "length (skeys st)" and ?st' = "registerKey s n st"
  have f: "sinfos ?st' = sinfos st" "sdbs ?st' = sdbs st" "stopMap ?st' = stopMap st" "cleanupMap ?st' = cleanupMap st"
    "watching ?st' = watching st" "length (skeys ?st') = Suc ?k" "length (ninfos ?st') = length (ninfos st)"
    "nMap ?st' = (nMap st)(?k \<mapsto> n)" "sMap ?st' = (sMap st)(n \<mapsto> s)"
    "ninfos ?st' = (ninfos st)[n := (ninfos st ! n)\<lparr>ni_sKey := Some ?k\<rparr>]"
    by (simp_all add: registerKey_def Let_def)
  have i: "ninfos ?st' ! m = (if m = n then (ninfos st ! n)\<lparr>ni_sKey := Some ?k\<rparr> else ninfos st ! m)" for m
    using assms(3) D(1) by (simp add: f)
  have old: "k < ?k" if "nMap b k = Some m" for k m
    using maps_okD(1) [of b k m] that D(11) assms(1) by (auto simp: startable_def sub_inv_def)
  have new: "k < ?k" if "m \<in> R" "ni_sKey (ninfos st ! m) = Some k" for k m using D(7) [OF that(1)] that(2) by auto
  have "(nMap ?st' k = Some m) = (nMap b k = Some m \<or> m \<in> insert n R \<and> ni_sKey (ninfos ?st' ! m) = Some k)" for k m
  proof (cases "k = ?k")
    case True
    have "nMap b ?k \<noteq> Some m" "\<not> (m \<in> R \<and> ni_sKey (ninfos st ! m) = Some ?k)" using old new by blast+
    then show ?thesis using True by (auto simp: f(8) i)
  next
    case False
    then show ?thesis using D(6) [of k m] assms(5) by (auto simp: f(8) i)
  qed
  moreover have "\<exists>k. length (skeys b) \<le> k \<and> k < length (skeys ?st') \<and> ni_sKey (ninfos ?st' ! m) = Some k"
    if "m \<in> insert n R" for m
  proof (cases "m = n")
    case True
    then show ?thesis using D(11) by (simp add: i f(6))
  next
    case False
    then show ?thesis using D(7) [of m] that by (auto simp: i f(6) less_Suc_eq)
  qed
  moreover have "ni_path (ninfos ?st' ! m) = ni_path (ninfos b ! m)" for m using D(3) by (simp add: i)
  moreover have "ninfos ?st' ! m = ninfos b ! m" if "sMap b m \<noteq> None" for m
    using that D(4) assms(4) by (auto simp: i)
  moreover have "sMap ?st' = (\<lambda>m. if m \<in> insert n R then Some s else sMap b m)"
    unfolding f(9) D(5) by (auto simp: fun_eq_iff)
  moreover have "m < length (ninfos b) \<and> sMap b m = None" if "m \<in> insert n R" for m
    using that assms(3,4) D(8,9) by auto
  moreover have "set ready \<subseteq> insert n R" "length (skeys b) \<le> length (skeys ?st')" using D(10,11) f(6) by auto
  ultimately show ?thesis
    by (intro startingI) (use D(1,2,12-17) in \<open>simp_all only: f(1-5,7)\<close>)
qed

lemma starting_registerKeys:
  assumes "startable b s" "starting b s sd R ready st" "distinct arr"
    "\<And>n. n \<in> set arr \<Longrightarrow> n < length (ninfos b) \<and> sMap b n = None \<and> n \<notin> R"
  shows "starting b s sd (R \<union> set arr) ready (fold (registerKey s) arr st)"
  using assms(2-4)
proof (induction arr arbitrary: R st)
  case (Cons n arr)
  have "starting b s sd (insert n R) ready (registerKey s n st)"
    using Cons.prems by (intro starting_registerKey [OF assms(1)]) auto
  from Cons.IH [OF this] have "starting b s sd (insert n R \<union> set arr) ready (fold (registerKey s) arr (registerKey s n st))"
    using Cons.prems by auto
  then show ?case by simp
qed simp

lemma registerKeys_frame:
  "puts (fold (registerKey s) arr st) = puts st \<and> sdbs (fold (registerKey s) arr st) = sdbs st"
  by (induction arr arbitrary: st) (simp_all add: registerKey_def Let_def)

text \<open>The infos of a database whose subscription failed are forgotten.\<close>

lemma starting_forgetAll:
  assumes "starting b s sd R ready st" "maps_ok b" "set arr \<subseteq> R" "set ready \<inter> set arr = {}"
  shows "starting b s sd (R - set arr) ready (forgetAll arr st)"
proof -
  note D = startingD [OF assms(1)]
  let ?st' = "forgetAll arr st"
  have f: "sinfos ?st' = sinfos st" "sdbs ?st' = sdbs st" "stopMap ?st' = stopMap st" "cleanupMap ?st' = cleanupMap st"
    "watching ?st' = watching st" "skeys ?st' = skeys st" "ninfos ?st' = ninfos st"
    "nMap ?st' = nMap st |` (- keysOf arr (ninfos st))" "sMap ?st' = sMap st |` (- set arr)"
    by (simp_all add: forgetAll_def)
  have inR: "k \<notin> keysOf arr (ninfos st)" if "nMap b k = Some m" for k m
    using that maps_okD(1) [OF assms(2) that] D(7) assms(3) by (force simp: keysOf_def)
  have other: "k \<notin> keysOf arr (ninfos st)" if "m \<in> R - set arr" "ni_sKey (ninfos st ! m) = Some k" for k m
  proof
    assume "k \<in> keysOf arr (ninfos st)"
    then obtain m' where "m' \<in> set arr" "ni_sKey (ninfos st ! m') = Some k" by (auto simp: keysOf_def)
    with assms(3) that D(6) [of k m'] D(6) [of k m] show False by auto
  qed
  have "(nMap ?st' k = Some m) = (nMap b k = Some m \<or> m \<in> R - set arr \<and> ni_sKey (ninfos ?st' ! m) = Some k)" for k m
    using D(6) [of k m] inR [of k m] other [of m k] by (auto simp: f(7,8) restrict_map_def keysOf_def)
  moreover have "sMap ?st' = (\<lambda>m. if m \<in> R - set arr then Some s else sMap b m)"
    unfolding f(9) D(5) using D(9) assms(3) by (auto simp: fun_eq_iff restrict_map_def)
  moreover have "set ready \<subseteq> R - set arr" using D(10) assms(4) by blast
  ultimately show ?thesis
    by (intro startingI) (use D(1-4,7-9,11-17) in \<open>simp_all only: f(1-7) Diff_iff\<close>)
qed

subsection \<open>The loop over the databases\<close>

lemma starting_sinfo:
  assumes "startable b s" "starting b s sd R ready st"
  shows "sinfos st ! s = (sinfos b ! s)\<lparr>nInfoArr := ready, syncDone := sd, sDBs := [length (sdbs b)..<length (sdbs st)]\<rparr>"
    "length (sinfos st) = length (sinfos b)" "i \<noteq> s \<Longrightarrow> sinfos st ! i = sinfos b ! i"
  using startingD(2) [OF assms(2)] assms(1) by (simp_all add: startable_def)

lemma startDBSubscribe_cases:
  assumes "startable b s" "starting b s sd (set ready) ready st" "distinct arr" "arr \<noteq> []"
    "\<forall>n \<in> set arr. n < length (ninfos b) \<and> sMap b n = None \<and> n \<notin> set ready"
    "startDBSubscribe X S opt arr s st = (err, st1)"
  shows "puts st1 = puts st"
    "err \<noteq> None \<Longrightarrow> starting b s sd (set ready) ready st1"
    "err = None \<Longrightarrow> starting b s sd (set (ready @ arr)) (ready @ arr)
       (st1\<lparr>sinfos := (sinfos st1)[s := (sinfos st1 ! s)\<lparr>nInfoArr := nInfoArr (sinfos st1 ! s) @ arr\<rparr>]\<rparr>)"
proof -
  let ?st0 = "fold (registerKey s) arr st"
  let ?keys = "[length (skeys st)..<length (skeys ?st0)]"
  have 0: "starting b s sd (set ready \<union> set arr) ready ?st0"
    by (rule starting_registerKeys [OF assms(1-3)]) (use assms(5) in auto)
  note D = startingD [OF 0]
  obtain r e where r: "SubscribeDB X S opt (map (\<lambda>k. skeys ?st0 ! k) ?keys) = (r, e)" by (metis surj_pair)
  have "puts st1 = puts st \<and> (err \<noteq> None \<longrightarrow> starting b s sd (set ready) ready st1) \<and>
      (err = None \<longrightarrow> starting b s sd (set (ready @ arr)) (ready @ arr)
       (st1\<lparr>sinfos := (sinfos st1)[s := (sinfos st1 ! s)\<lparr>nInfoArr := nInfoArr (sinfos st1 ! s) @ arr\<rparr>]\<rparr>))"
  proof (cases r)
    case None
    then obtain y where e: "err = Some y" "st1 = forgetAll arr ?st0"
      using SubscribeDB_result(1) [OF r] assms(6) r by (auto simp: startDBSubscribe_def Let_def forget_fold)
    have "starting b s sd (set ready \<union> set arr - set arr) ready (forgetAll arr ?st0)"
      by (rule starting_forgetAll [OF 0]) (use assms(1,5) in \<open>auto simp: startable_def sub_inv_def\<close>)
    moreover have "set ready \<union> set arr - set arr = set ready" using assms(5) by blast
    ultimately show ?thesis using e registerKeys_frame [of s arr st] by (simp add: forgetAll_def)
  next
    case (Some p)
    obtain sub pm where p: "p = (sub, pm)" by (cases p)
    let ?d = "length (sdbs ?st0)"
    let ?c = "\<lparr>sc_db = sub, sc_keys = ?keys, sc_patMap = pm, sc_running = True\<rparr>"
    have e: "err = None" "st1 = ?st0\<lparr>sdbs := sdbs ?st0 @ [?c],
        sinfos := (sinfos ?st0)[s := (sinfos ?st0 ! s)\<lparr>sDBs := sDBs (sinfos ?st0 ! s) @ [?d]\<rparr>],
        cleanupMap := (cleanupMap ?st0)(?d \<mapsto> s)\<rparr>"
      using SubscribeDB_result(1) [OF r] assms(6) r Some p by (auto simp: startDBSubscribe_def Let_def)
    define st2 where "st2 = st1\<lparr>sinfos := (sinfos st1)[s := (sinfos st1 ! s)\<lparr>nInfoArr := nInfoArr (sinfos st1 ! s) @ arr\<rparr>]\<rparr>"
    have f: "ninfos st2 = ninfos ?st0" "sMap st2 = sMap ?st0" "nMap st2 = nMap ?st0" "skeys st2 = skeys ?st0"
      "stopMap st2 = stopMap ?st0" "watching st2 = watching ?st0" "sdbs st2 = sdbs ?st0 @ [?c]"
      "cleanupMap st2 = (cleanupMap ?st0)(?d \<mapsto> s)" "puts st1 = puts ?st0"
      by (simp_all add: st2_def e)
    have "s < length (sinfos b)" using assms(1) by (simp add: startable_def)
    then have si: "sinfos st2 = (sinfos b)[s := (sinfos b ! s)\<lparr>nInfoArr := ready @ arr, syncDone := sd,
        sDBs := [length (sdbs b)..<length (sdbs st2)]\<rparr>]"
      using D(13) by (cases "sinfos b ! s") (simp add: st2_def e D(2) upt_Suc_append)
    have "starting b s sd (set (ready @ arr)) (ready @ arr) st2"
    proof (rule startingI)
      show "cleanupMap st2 = (\<lambda>d. if length (sdbs b) \<le> d \<and> d < length (sdbs st2) then Some s else cleanupMap b d)"
        using D(13) unfolding f(7,8) D(15) by (auto simp: fun_eq_iff less_Suc_eq)
      show "ready @ arr = [] \<longrightarrow> length (sdbs st2) = length (sdbs b)" using assms(4) by simp
      show "sdbs st2 ! d = sdbs b ! d" if "d < length (sdbs b)" for d
        using that D(13) D(14) [OF that] by (simp add: f(7) nth_append)
      show "sMap st2 = (\<lambda>n. if n \<in> set (ready @ arr) then Some s else sMap b n)" using D(5) by (simp add: f(2))
      show "(nMap st2 k = Some n) = (nMap b k = Some n \<or> n \<in> set (ready @ arr) \<and> ni_sKey (ninfos st2 ! n) = Some k)" for k n
        using D(6) [of k n] by (simp only: f(1,3) set_append)
    qed (use si D in \<open>simp_all add: f\<close>)
    with e(1) f(9) registerKeys_frame [of s arr st] show ?thesis unfolding st2_def by simp
  qed
  then show "puts st1 = puts st" "err \<noteq> None \<Longrightarrow> starting b s sd (set ready) ready st1"
    "err = None \<Longrightarrow> starting b s sd (set (ready @ arr)) (ready @ arr)
       (st1\<lparr>sinfos := (sinfos st1)[s := (sinfos st1 ! s)\<lparr>nInfoArr := nInfoArr (sinfos st1 ! s) @ arr\<rparr>]\<rparr>)"
    by blast+
qed

text \<open>What a failed start leaves: the maps, the queues and the stop handlers as they were.\<close>

definition aborted :: "('a, 't, 'r, 'c, 's) subs \<Rightarrow> ('a, 't, 'r, 'c, 's) subs \<Rightarrow> bool" where
  "aborted b st \<longleftrightarrow> sub_inv st \<and> nMap st = nMap b \<and> sMap st = sMap b \<and> stopMap st = stopMap b \<and>
     puts st = puts b \<and> watching st = watching b \<and> length (ninfos st) = length (ninfos b)"

lemma starting_cleanup:
  assumes "startable b s" "starting b s sd (set ready) ready st" "puts st = puts b"
  shows "aborted b (cleanup X S (si_stop (sinfos st ! s)) st)"
proof -
  note D = startingD [OF assms(2)] and si = starting_sinfo [OF assms(1,2)]
  let ?c = "si_stop (sinfos b ! s)"
  have m: "maps_ok b" and inv: "sub_inv b" and stop: "stopMap b ?c = None"
    using assms(1) by (auto simp: startable_def sub_inv_def)
  note free = startable_free [OF assms(1)]
  have sm: "stopMap st ?c = Some s" by (simp add: D(12))
  obtain sdb where cl: "cleanup X S ?c st = (forgetAll ready st)\<lparr>sdbs := sdb, stopMap := (stopMap st)(?c := None)\<rparr>"
    and sdb: "length sdb = length (sdbs st)"
      "\<And>d. d < length sdb \<Longrightarrow> sCIP (sc_db (sdb ! d)) = (sCIP (sc_db (sdbs st ! d)) \<or> d \<in> {length (sdbs b)..<length (sdbs st)})"
      "\<And>d. d \<notin> {length (sdbs b)..<length (sdbs st)} \<Longrightarrow> sdb ! d = sdbs st ! d"
    using si(1) by (auto intro: cleanup_form [OF sm, of X S])
  let ?st' = "cleanup X S ?c st"
  have inR: "k \<notin> keysOf ready (ninfos st)" if "nMap b k = Some n" for k n
    using that maps_okD(1) [OF m that] D(7) by (force simp: keysOf_def)
  have nM: "nMap ?st' = nMap b"
  proof
    fix k
    have "nMap ?st' k = Some n \<longleftrightarrow> nMap b k = Some n" for n
      using D(6) [of k n] inR [of k n] by (auto simp: cl forgetAll_def restrict_map_def keysOf_def)
    then show "nMap ?st' k = nMap b k" by (metis not_Some_eq)
  qed
  have sM: "sMap ?st' = sMap b"
    using D(9) by (auto simp: cl forgetAll_def D(5) restrict_map_def fun_eq_iff)
  have stM: "stopMap ?st' = stopMap b" using stop by (auto simp: cl forgetAll_def D(12) fun_eq_iff)
  have f: "ninfos ?st' = ninfos st" "sinfos ?st' = sinfos st" "skeys ?st' = skeys st" "watching ?st' = watching b"
    "puts ?st' = puts b" "sdbs ?st' = sdb" "cleanupMap ?st' = cleanupMap st"
    using assms(3) D(17) by (simp_all add: cl forgetAll_def)
  have "maps_ok ?st'"
  proof (rule maps_okI)
    fix k n assume "nMap ?st' k = Some n"
    then have k: "nMap b k = Some n" by (simp add: nM)
    then have "sMap b n \<noteq> None" using m by (auto simp: maps_ok_def)
    with maps_okD(1-3) [OF m k] D(1,4,11)
    show "k < length (skeys ?st') \<and> n < length (ninfos ?st') \<and> ni_sKey (ninfos ?st' ! n) = Some k \<and> sMap ?st' n \<noteq> None"
      by (simp add: f sM)
  next
    fix n s' assume "sMap ?st' n = Some s'"
    then have n: "sMap b n = Some s'" by (simp add: sM)
    with free(2) have "s' \<noteq> s" by blast
    with maps_okD(4-7) [OF m n] D(1) si(2,3)
    show "s' < length (sinfos ?st') \<and> n < length (ninfos ?st') \<and> n \<in> set (nInfoArr (sinfos ?st' ! s')) \<and>
        stopMap ?st' (si_stop (sinfos ?st' ! s')) = Some s'"
      by (simp add: f stM)
  next
    fix c s' assume "stopMap ?st' c = Some s'"
    then have c: "stopMap b c = Some s'" by (simp add: stM)
    with free(1) have "s' \<noteq> s" by blast
    with maps_okD(8-10) [OF m c] si(2,3)
    show "s' < length (sinfos ?st') \<and> si_stop (sinfos ?st' ! s') = c \<and> c \<in> set (watching ?st')"
      by (simp add: f)
  next
    fix c s' n assume "stopMap ?st' c = Some s'" "n \<in> set (nInfoArr (sinfos ?st' ! s'))"
    then have c: "stopMap b c = Some s'" "n \<in> set (nInfoArr (sinfos ?st' ! s'))" by (simp_all add: stM)
    with free(1) have "s' \<noteq> s" by blast
    with c si(3) have n: "n \<in> set (nInfoArr (sinfos b ! s'))" by (simp add: f)
    from maps_okD(11,12) [OF m c(1) n] D(4)
    show "sMap ?st' n = Some s' \<and> (\<exists>k. ni_sKey (ninfos ?st' ! n) = Some k \<and> nMap ?st' k = Some n)"
      by (auto simp: f sM nM)
  qed
  moreover have "dbs_ok ?st'"
    unfolding dbs_ok_def
  proof (intro conjI allI impI ballI)
    fix d s' assume d: "cleanupMap ?st' d = Some s'"
    have "s' < length (sinfos st) \<and> nInfoArr (sinfos st ! s') \<noteq> [] \<and> d \<in> set (sDBs (sinfos st ! s'))"
    proof (cases "length (sdbs b) \<le> d \<and> d < length (sdbs st)")
      case True
      then show ?thesis using d D(16) si(1,2) assms(1) by (auto simp: f D(15) startable_def)
    next
      case False
      then have old: "cleanupMap b d = Some s'" using d by (simp add: f D(15) split: if_splits)
      with free(3) have "s' \<noteq> s" by blast
      with old inv si(2,3) show ?thesis by (simp add: sub_inv_def dbs_ok_def)
    qed
    then show "s' < length (sinfos ?st')" "nInfoArr (sinfos ?st' ! s') \<noteq> []" "d \<in> set (sDBs (sinfos ?st' ! s'))"
      by (simp_all add: f)
  next
    fix s' d assume s': "s' < length (sinfos ?st')" and d: "d \<in> set (sDBs (sinfos ?st' ! s'))"
    have old: "d < length (sdbs b) \<and> (stopMap b (si_stop (sinfos b ! s')) = Some s' \<or> sCIP (sc_db (sdbs b ! d)))" if "s' \<noteq> s"
      using that s' d inv si(2,3) by (simp add: f sub_inv_def dbs_ok_def)
    have new: "length (sdbs b) \<le> d \<and> d < length (sdbs st)" if "s' = s" using that d si(1) by (simp add: f)
    show "d < length (sdbs ?st')" using old new sdb(1) D(13) by (cases "s' = s") (auto simp: f)
    show "stopMap ?st' (si_stop (sinfos ?st' ! s')) = Some s' \<or> sCIP (sc_db (sdbs ?st' ! d))"
      using old new sdb si(3) D(13,14) by (cases "s' = s") (auto simp: f stM)
  next
    fix s' n assume "s' < length (sinfos ?st')" "n \<in> set (nInfoArr (sinfos ?st' ! s'))"
    then show "n < length (ninfos ?st')"
      using inv si D(1,8,10) by (cases "s' = s") (auto simp: f sub_inv_def dbs_ok_def)
  qed
  moreover have "sent_ok ?st'"
  proof -
    have "sentTo n ?st' = sentTo n b" for n by (rule sentTo_cong) (simp add: f)
    then show ?thesis using inv D(1,4) unfolding sub_inv_def sent_ok_def by (simp add: f sM)
  qed
  ultimately have "sub_inv ?st'" by (simp add: sub_inv_def)
  moreover have "si_stop (sinfos st ! s) = ?c" by (simp add: si(1))
  ultimately show ?thesis using nM sM stM f D(1) by (simp add: aborted_def)
qed

lemma startLoop_result:
  assumes "startable b s" "starting b s sd (set ready) ready st" "puts st = puts b"
    "distinct (ready @ concat (map snd m))" "\<forall>p \<in> set m. snd p \<noteq> []"
    "\<forall>n \<in> set (concat (map snd m)). n < length (ninfos b) \<and> sMap b n = None"
    "startLoop X S s m st = (err, st')"
  shows "if err = None
    then starting b s sd (set (ready @ concat (map snd m))) (ready @ concat (map snd m)) st' \<and> puts st' = puts b
    else aborted b st'"
  using assms(2-7)
proof (induction m arbitrary: ready st)
  case (Cons p m)
  obtain d arr where p: "p = (d, arr)" by (cases p)
  obtain e st1 where 1: "startDBSubscribe X S (getDBOptions d True) arr s st = (e, st1)" by (metis surj_pair)
  have arr: "distinct arr" "arr \<noteq> []"
    "\<forall>n \<in> set arr. n < length (ninfos b) \<and> sMap b n = None \<and> n \<notin> set ready"
    using Cons.prems(3-5) by (auto simp: p)
  note r = startDBSubscribe_cases [OF assms(1) Cons.prems(1) arr 1]
  show ?case
  proof (cases e)
    case None
    let ?st2 = "st1\<lparr>sinfos := (sinfos st1)[s := (sinfos st1 ! s)\<lparr>nInfoArr := nInfoArr (sinfos st1 ! s) @ arr\<rparr>]\<rparr>"
    have s2: "starting b s sd (set (ready @ arr)) (ready @ arr) ?st2" by (rule r(3) [OF None])
    have "startLoop X S s m ?st2 = (err, st')"
      using Cons.prems(6) by (simp add: p 1 None Let_def)
    moreover have "puts ?st2 = puts b" using Cons.prems(2) r(1) by simp
    moreover have eq: "(ready @ arr) @ concat (map snd m) = ready @ concat (map snd (p # m))" by (simp add: p)
    moreover have "distinct ((ready @ arr) @ concat (map snd m))" unfolding eq by (rule Cons.prems(3))
    ultimately show ?thesis
      using Cons.IH [of "ready @ arr" ?st2] s2 Cons.prems(4,5) unfolding eq by simp
  next
    case (Some y)
    then have "err = e" "st' = cleanup X S (si_stop (sinfos st1 ! s)) st1"
      using Cons.prems(6) by (simp_all add: p 1 Let_def)
    with Some show ?thesis
      using starting_cleanup [OF assms(1) r(2)] r(1) Cons.prems(2) by simp
  qed
qed simp

subsection \<open>The initial payloads\<close>

lemma starting_withCache:
  assumes "starting b s sd R ready st" "n \<in> R"
  shows "starting b s sd R ready (withCache n app json ds st)"
proof -
  note D = startingD [OF assms(1)]
  show ?thesis
  proof (rule startingI)
    show "ninfos (withCache n app json ds st) ! m = ninfos b ! m" if "sMap b m \<noteq> None" for m
      using that D(4) D(9) [OF assms(2)] by (cases "m = n") auto
    show "(nMap (withCache n app json ds st) k = Some m) =
        (nMap b k = Some m \<or> m \<in> R \<and> ni_sKey (ninfos (withCache n app json ds st) ! m) = Some k)" for k m
      using D(6) by simp
    show "sMap (withCache n app json ds st) = (\<lambda>n. if n \<in> R then Some s else sMap b n)" using D(5) by simp
  qed (use D in simp_all)
qed

lemma starting_send:
  assumes "starting b s sd R ready st"
  shows "starting b s sd R ready (sendNotification clock s n t st)"
  using assms unfolding starting_def by simp

lemma starting_syncDone:
  assumes "startable b s" "starting b s sd R ready st"
  shows "starting b s sd' R ready (st\<lparr>sinfos := (sinfos st)[s := (sinfos st ! s)\<lparr>syncDone := sd'\<rparr>]\<rparr>)"
proof -
  have "(sinfos st ! s)\<lparr>syncDone := sd'\<rparr> =
      (sinfos b ! s)\<lparr>nInfoArr := ready, syncDone := sd', sDBs := [length (sdbs b)..<length (sdbs st)]\<rparr>"
    unfolding starting_sinfo(1) [OF assms] by (cases "sinfos b ! s") simp
  then have "(sinfos st)[s := (sinfos st ! s)\<lparr>syncDone := sd'\<rparr>] =
      (sinfos b)[s := (sinfos b ! s)\<lparr>nInfoArr := ready, syncDone := sd', sDBs := [length (sdbs b)..<length (sdbs st)]\<rparr>]"
    by (simp only: startingD(2) [OF assms(2)] list_update_overwrite)
  with assms(2) show ?thesis unfolding starting_def by simp
qed

text \<open>What one round sends.\<close>

definition initialNotice :: "('a, 't, 'r, 'c, 's) subs \<Rightarrow> nat \<Rightarrow> bool \<Rightarrow> nat \<Rightarrow> nat \<times> nat \<times> string \<times> bool \<times> bool" where
  "initialNotice b s done n = (n, si_q (sinfos b ! s), ni_path (ninfos b ! n), done, False)"

definition notice :: "nat \<times> nat \<times> SubscribeResponse \<Rightarrow> nat \<times> nat \<times> string \<times> bool \<times> bool" where
  "notice p = (case p of (n, q, r) \<Rightarrow> (n, q, sn_Path r, SyncComplete r, IsTerminated r))"

lemma syncLoop_result:
  assumes "startable b s" "starting b s False (set ready) ready st" "set rest \<subseteq> set ready" "distinct rest"
  shows "starting b s (rest \<noteq> []) (set ready) ready (syncLoop clock A s rest st) \<and>
    (\<forall>n. n \<notin> set rest \<longrightarrow> ni_cache (ninfos (syncLoop clock A s rest st) ! n) = ni_cache (ninfos st ! n)) \<and>
    (\<forall>n. sentTo n (syncLoop clock A s rest st) =
       sentTo n st @ (if n \<in> set rest then [ni_cache (ninfos (syncLoop clock A s rest st) ! n)] else [])) \<and>
    (\<exists>news. puts (syncLoop clock A s rest st) = puts st @ news \<and>
       map notice news = map (\<lambda>n. initialNotice b s (n = last rest) n) rest)"
  using assms(2-4)
proof (induction rest arbitrary: st)
  case Nil
  then show ?case by simp
next
  case (Cons n rest)
  note D = startingD [OF Cons.prems(1)]
  have n: "n \<in> set ready" "n < length (ninfos st)" using Cons.prems(2) D(1,8,10) by auto
  obtain app json ds where u: "updateCache A n st = (None, withCache n app json ds st)"
    using updateCache_frame [OF n(2)] by blast
  let ?st1 = "withCache n app json ds st"
  have 1: "starting b s False (set ready) ready ?st1" by (rule starting_withCache [OF Cons.prems(1) n(1)])
  define st2 where "st2 = (if rest = [] then ?st1\<lparr>sinfos := (sinfos ?st1)[s := (sinfos ?st1 ! s)\<lparr>syncDone := True\<rparr>]\<rparr> else ?st1)"
  have 2: "starting b s (rest = []) (set ready) ready st2"
    using 1 starting_syncDone [OF assms(1) 1, of True] by (simp add: st2_def)
  let ?st3 = "sendNotification clock s n False st2"
  have 3: "starting b s (rest = []) (set ready) ready ?st3" by (rule starting_send [OF 2])
  have f: "ninfos st2 = ninfos ?st1" "puts st2 = puts st" by (simp_all add: st2_def)
  have loop: "syncLoop clock A s (n # rest) st = syncLoop clock A s rest ?st3"
    by (simp add: u st2_def Let_def)
  have si: "sinfos st2 ! s = (sinfos b ! s)\<lparr>nInfoArr := ready, syncDone := (rest = []), sDBs := [length (sdbs b)..<length (sdbs st2)]\<rparr>"
    by (rule starting_sinfo(1) [OF assms(1) 2])
  obtain r where p: "puts ?st3 = puts st @ [r]" "notice r = initialNotice b s (rest = []) n"
    using D(3) by (simp add: sendNotification_def Let_def f(2) notice_def initialNotice_def si f(1))
  have s3: "sentTo m ?st3 = sentTo m st @ (if m = n then [json] else [])" for m
    using n(2) by (simp add: sentTo_send f(1) sentTo_cong [OF f(2)])
  have c3: "ni_cache (ninfos ?st3 ! m) = (if m = n then json else ni_cache (ninfos st ! m))" for m
    using n(2) by (simp add: f(1))
  show ?case
  proof (cases "rest = []")
    case True
    then show ?thesis using 3 p s3 c3 unfolding loop by simp
  next
    case False
    with 3 Cons.IH [of ?st3] Cons.prems(2,3) have
      IH: "starting b s True (set ready) ready (syncLoop clock A s rest ?st3)"
      "\<forall>m. m \<notin> set rest \<longrightarrow> ni_cache (ninfos (syncLoop clock A s rest ?st3) ! m) = ni_cache (ninfos ?st3 ! m)"
      "\<forall>m. sentTo m (syncLoop clock A s rest ?st3) = sentTo m ?st3 @
         (if m \<in> set rest then [ni_cache (ninfos (syncLoop clock A s rest ?st3) ! m)] else [])"
      "\<exists>news. puts (syncLoop clock A s rest ?st3) = puts ?st3 @ news \<and>
         map notice news = map (\<lambda>m. initialNotice b s (m = last rest) m) rest"
      by auto
    from IH(4) obtain news where news: "puts (syncLoop clock A s rest ?st3) = puts ?st3 @ news"
      "map notice news = map (\<lambda>m. initialNotice b s (m = last rest) m) rest" by blast
    have "n \<notin> set rest" "n \<noteq> last rest" using Cons.prems(3) False by auto
    then have "\<exists>news. puts (syncLoop clock A s rest ?st3) = puts st @ news \<and>
        map notice news = map (\<lambda>m. initialNotice b s (m = last (n # rest)) m) (n # rest)"
      using news p False by (intro exI [of _ "r # news"]) simp
    then show ?thesis using IH(1-3) s3 c3 \<open>n \<notin> set rest\<close> unfolding loop by auto
  qed
qed

end
