(* ===== verification/Translib_Subscribe_Run.thy ===== *)
theory Translib_Subscribe_Run
  imports Translib_Subscribe_Start
begin

text \<open>
  The runs of the subscription registry: what \<^verbatim>\<open>Subscribe\<close> does to the state as a whole, the invariant
  of all reachable states, and the properties of the component.
\<close>

subsection \<open>A successful start\<close>

lemma started_inv:
  assumes "startable b s" "starting b s sd (set ready) ready st"
    "\<And>n. sentTo n st = sentTo n b @ (if n \<in> set ready then [ni_cache (ninfos st ! n)] else [])"
    "\<And>n. n \<in> set ready \<Longrightarrow> sentTo n b = []"
  shows "sub_inv (st\<lparr>watching := watching st @ [si_stop (sinfos b ! s)]\<rparr>)"
proof -
  note D = startingD [OF assms(2)] and si = starting_sinfo [OF assms(1,2)]
  let ?c = "si_stop (sinfos b ! s)"
  let ?st' = "st\<lparr>watching := watching st @ [?c]\<rparr>"
  have m: "maps_ok b" and inv: "sub_inv b" and stop: "stopMap b ?c = None"
    using assms(1) by (auto simp: startable_def sub_inv_def)
  note free = startable_free [OF assms(1)]
  have s: "s < length (sinfos b)" using assms(1) by (simp add: startable_def)
  have f: "ninfos ?st' = ninfos st" "sinfos ?st' = sinfos st" "skeys ?st' = skeys st" "sdbs ?st' = sdbs st"
    "cleanupMap ?st' = cleanupMap st" "nMap ?st' = nMap st" "sMap ?st' = sMap st" "stopMap ?st' = stopMap st"
    "watching ?st' = watching b @ [?c]" "puts ?st' = puts st"
    using D(17) by simp_all
  have "maps_ok ?st'"
  proof (rule maps_okI)
    fix k n assume "nMap ?st' k = Some n"
    then consider "nMap b k = Some n" | "n \<in> set ready" "ni_sKey (ninfos st ! n) = Some k"
      using D(6) by (auto simp: f(6))
    then show "k < length (skeys ?st') \<and> n < length (ninfos ?st') \<and> ni_sKey (ninfos ?st' ! n) = Some k \<and> sMap ?st' n \<noteq> None"
    proof cases
      case 1
      then have "sMap b n \<noteq> None" using m by (auto simp: maps_ok_def)
      with maps_okD(1-3) [OF m 1] D(1,4,11) show ?thesis by (simp add: f D(5))
    next
      case 2
      with D(7) [OF 2(1)] D(8) [OF 2(1)] D(1) show ?thesis by (auto simp: f D(5))
    qed
  next
    fix n s' assume "sMap ?st' n = Some s'"
    then consider "n \<in> set ready" "s' = s" | "n \<notin> set ready" "sMap b n = Some s'"
      by (auto simp: f(7) D(5) split: if_splits)
    then show "s' < length (sinfos ?st') \<and> n < length (ninfos ?st') \<and> n \<in> set (nInfoArr (sinfos ?st' ! s')) \<and>
        stopMap ?st' (si_stop (sinfos ?st' ! s')) = Some s'"
    proof cases
      case 1
      with D(8) [OF 1(1)] D(1,12) si(1,2) s show ?thesis by (simp add: f)
    next
      case 2
      with free(2) have "s' \<noteq> s" by blast
      with maps_okD(4-7) [OF m 2(2)] D(1) si(2,3) stop show ?thesis by (auto simp: f D(12))
    qed
  next
    fix c s' assume "stopMap ?st' c = Some s'"
    then consider "c = ?c" "s' = s" | "c \<noteq> ?c" "stopMap b c = Some s'" by (auto simp: f(8) D(12) split: if_splits)
    then show "s' < length (sinfos ?st') \<and> si_stop (sinfos ?st' ! s') = c \<and> c \<in> set (watching ?st')"
    proof cases
      case 1
      then show ?thesis using si(1,2) s by (simp add: f)
    next
      case 2
      with free(1) have "s' \<noteq> s" by blast
      with maps_okD(8-10) [OF m 2(2)] si(2,3) show ?thesis by (simp add: f)
    qed
  next
    fix c s' n assume "stopMap ?st' c = Some s'" and n: "n \<in> set (nInfoArr (sinfos ?st' ! s'))"
    then consider "c = ?c" "s' = s" | "c \<noteq> ?c" "stopMap b c = Some s'" by (auto simp: f(8) D(12) split: if_splits)
    then show "sMap ?st' n = Some s' \<and> (\<exists>k. ni_sKey (ninfos ?st' ! n) = Some k \<and> nMap ?st' k = Some n)"
    proof cases
      case 1
      with n si(1) have "n \<in> set ready" by (simp add: f)
      with D(6,7) 1 show ?thesis by (force simp: f D(5))
    next
      case 2
      with free(1) have "s' \<noteq> s" by blast
      with n si(3) have "n \<in> set (nInfoArr (sinfos b ! s'))" by (simp add: f)
      from maps_okD(11,12) [OF m 2(2) this] D(4,6,9) show ?thesis by (force simp: f D(5))
    qed
  qed
  moreover have "dbs_ok ?st'"
    unfolding dbs_ok_def
  proof (intro conjI allI impI ballI)
    fix d s' assume d: "cleanupMap ?st' d = Some s'"
    have "s' < length (sinfos st) \<and> nInfoArr (sinfos st ! s') \<noteq> [] \<and> d \<in> set (sDBs (sinfos st ! s'))"
    proof (cases "length (sdbs b) \<le> d \<and> d < length (sdbs st)")
      case True
      then show ?thesis using d D(16) si(1,2) s by (auto simp: f D(15))
    next
      case False
      then have old: "cleanupMap b d = Some s'" using d by (simp add: f D(15) split: if_splits)
      with free(3) have "s' \<noteq> s" by blast
      with old inv si(2,3) show ?thesis by (simp add: sub_inv_def dbs_ok_def)
    qed
    then show "s' < length (sinfos ?st')" "nInfoArr (sinfos ?st' ! s') \<noteq> []" "d \<in> set (sDBs (sinfos ?st' ! s'))"
      by (simp_all add: f)
  next
    fix s' d assume s': "s' < length (sinfos ?st')" and d: "d \<in> set (sDBs (sinfos ?st' ! s'))"
    have old: "d < length (sdbs b) \<and> (stopMap b (si_stop (sinfos b ! s')) = Some s' \<or> sCIP (sc_db (sdbs b ! d)))" if "s' \<noteq> s"
      using that s' d inv si(2,3) by (simp add: f sub_inv_def dbs_ok_def)
    have new: "length (sdbs b) \<le> d \<and> d < length (sdbs st)" if "s' = s" using that d si(1) by (simp add: f)
    show "d < length (sdbs ?st')" using old new D(13) by (cases "s' = s") (auto simp: f)
    show "stopMap ?st' (si_stop (sinfos ?st' ! s')) = Some s' \<or> sCIP (sc_db (sdbs ?st' ! d))"
      using old si D(14) stop by (cases "s' = s") (auto simp: f D(12))
  next
    fix s' n assume "s' < length (sinfos ?st')" "n \<in> set (nInfoArr (sinfos ?st' ! s'))"
    then show "n < length (ninfos ?st')"
      using inv si D(1,8) by (cases "s' = s") (auto simp: f sub_inv_def dbs_ok_def)
  qed
  moreover have "sent_ok ?st'"
    unfolding sent_ok_def
  proof (intro allI conjI impI)
    fix n
    have e: "sentTo n ?st' = sentTo n b @ (if n \<in> set ready then [ni_cache (ninfos st ! n)] else [])"
      using assms(3) sentTo_cong [OF f(10)] by simp
    note old = inv [unfolded sub_inv_def sent_ok_def, THEN conjunct2, THEN conjunct2, rule_format, of n]
    show "distinct_adj (sentTo n ?st')" using old assms(4) by (simp add: e)
    show "sentTo n ?st' = []" if "length (ninfos ?st') \<le> n"
    proof -
      have "n \<notin> set ready" using D(1,8) that by (force simp: f)
      then show ?thesis using old D(1) that by (simp add: e f)
    qed
    assume "sMap ?st' n \<noteq> None"
    then show "sentTo n ?st' \<noteq> []" "last (sentTo n ?st') = ni_cache (ninfos ?st' ! n)"
      using old D(4) by (auto simp: e f D(5) split: if_splits)
  qed
  ultimately show ?thesis by (simp add: sub_inv_def)
qed

lemma startSubscribe_result:
  assumes "startable b s" "\<not> syncDone (sinfos b ! s)" "distinct (concat (map snd m))" "\<forall>p \<in> set m. snd p \<noteq> []"
    "\<forall>n \<in> set (concat (map snd m)). n < length (ninfos b) \<and> sMap b n = None \<and> sentTo n b = []"
    "startSubscribe clock A X S s m b = (err, st')"
  shows "if err = None
    then sub_inv st' \<and> length (ninfos st') = length (ninfos b) \<and>
      (\<forall>n. n \<notin> set (concat (map snd m)) \<longrightarrow> sMap st' n = sMap b n) \<and> (\<exists>news. puts st' = puts b @ news \<and> map notice news =
      map (\<lambda>n. initialNotice b s (n = last (concat (map snd m))) n) (concat (map snd m)))
    else aborted b st'"
proof -
  let ?ready = "concat (map snd m)"
  let ?c = "si_stop (sinfos b ! s)"
  let ?b1 = "b\<lparr>stopMap := (stopMap b)(?c \<mapsto> s)\<rparr>"
  obtain e st1 where l: "startLoop X S s m ?b1 = (e, st1)" by (metis surj_pair)
  have r: "if e = None then starting b s False (set ?ready) ?ready st1 \<and> puts st1 = puts b else aborted b st1"
    using startLoop_result [OF assms(1), of False "[]" ?b1 m X S e st1, unfolded append_Nil]
      starting_begin [OF assms(1,2)] assms(3-5) l by simp
  show ?thesis
  proof (cases e)
    case (Some y)
    then have "err = e" "st' = st1" using assms(6) l by (simp_all add: startSubscribe_def Let_def)
    then show ?thesis using r Some by simp
  next
    case None
    then have 1: "starting b s False (set ?ready) ?ready st1" "puts st1 = puts b" using r by simp_all
    let ?st2 = "syncLoop clock A s ?ready st1"
    have st': "err = None" "st' = ?st2\<lparr>watching := watching ?st2 @ [?c]\<rparr>"
      using assms(6) l None starting_sinfo(1) [OF assms(1) 1(1)] by (simp_all add: startSubscribe_def Let_def)
    from syncLoop_result [OF assms(1) 1(1) subset_refl assms(3), of clock A]
    have 2: "starting b s (?ready \<noteq> []) (set ?ready) ?ready ?st2"
      "\<And>n. n \<notin> set ?ready \<Longrightarrow> ni_cache (ninfos ?st2 ! n) = ni_cache (ninfos st1 ! n)"
      "\<And>n. sentTo n ?st2 = sentTo n st1 @ (if n \<in> set ?ready then [ni_cache (ninfos ?st2 ! n)] else [])"
      "\<exists>news. puts ?st2 = puts st1 @ news \<and> map notice news = map (\<lambda>n. initialNotice b s (n = last ?ready) n) ?ready"
      by blast+
    have "sub_inv st'"
      unfolding st'(2)
      by (rule started_inv [OF assms(1) 2(1)]) (use 2(3) assms(5) sentTo_cong [OF 1(2)] in auto)
    with 2(4) 1(2) st' startingD(1,5) [OF 2(1)] show ?thesis by simp
  qed
qed

subsection \<open>The entry point\<close>

lemma mapPut_concat:
  assumes "gomap_wf m"
  shows "mset (concat (map snd (mapPut k ((case mapGet m k of Some l \<Rightarrow> l | None \<Rightarrow> []) @ [x]) m))) =
    add_mset x (mset (concat (map snd m)))"
  using assms
proof (induction m)
  case (Cons p m)
  obtain k' v where p: "p = (k', v)" by (cases p)
  show ?case
  proof (cases "k = k'")
    case True
    then show ?thesis by (simp add: p mapPut_def)
  next
    case False
    with Cons show ?thesis by (simp add: p mapPut_def)
  qed
qed (simp add: mapPut_def)

lemma mset_concat_perm:
  "mset m' = mset m \<Longrightarrow> mset (concat (map snd m')) = mset (concat (map snd m))"
proof -
  have "mset (concat (map snd l)) = sum_mset (image_mset (\<lambda>p. mset (snd p)) (mset l))" for l :: "('a \<times> 'b list) list"
    by (induction l) auto
  then show "mset m' = mset m \<Longrightarrow> mset (concat (map snd m')) = mset (concat (map snd m))" by simp
qed

lemma mapPut_values: "set (map snd (mapPut k v m)) \<subseteq> insert v (set (map snd m))"
  by (induction m) (auto simp: mapPut_def)

lemma withNotificationOpts_simps [simp]:
  "is_Path (withNotificationOpts nOpts resp) = is_Path resp" "is_Err (withNotificationOpts nOpts resp) = is_Err resp"
  "IsOnChangeSupported (withNotificationOpts nOpts resp) = IsOnChangeSupported resp"
  by (auto simp: withNotificationOpts_def split: option.splits)

lemma subscribeOne_result:
  assumes "subscribeOne A g path dbsAddr sErr dbs = Some (resp, sErr', nInfo, dbs')"
  shows "is_Path resp = path" "sErr' = None \<Longrightarrow> sErr = None \<and> is_Err resp = None \<and> IsOnChangeSupported resp \<and> nInfo \<noteq> None"
    "nInfo = Some ni \<Longrightarrow> ni_path ni = path \<and> ni_sKey ni = None"
proof -
  from assms obtain app info where a: "getAppModule A g path = Some (app, info)"
    by (auto simp: subscribeOne_def Let_def bind_eq_Some_conv)
  obtain nOpts nt errApp app1 dbs1 where t: "translateSubscribe A dbs path app = ((nOpts, nt, errApp), app1, dbs1)"
    by (metis surj_pair)
  have "is_Path resp = path \<and> (sErr' = None \<longrightarrow> sErr = None \<and> is_Err resp = None \<and> IsOnChangeSupported resp \<and> nInfo \<noteq> None) \<and>
      (nInfo = Some ni \<longrightarrow> ni_path ni = path \<and> ni_sKey ni = None)"
  proof (cases errApp)
    case (Some e)
    then show ?thesis
      using assms by (cases sErr) (auto simp: subscribeOne_def a t Let_def initialIsSubscribe_def)
  next
    case None
    then show ?thesis
      using assms by (cases nt) (auto simp: subscribeOne_def a t Let_def initialIsSubscribe_def)
  qed
  then show "is_Path resp = path" "sErr' = None \<Longrightarrow> sErr = None \<and> is_Err resp = None \<and> IsOnChangeSupported resp \<and> nInfo \<noteq> None"
    "nInfo = Some ni \<Longrightarrow> ni_path ni = path \<and> ni_sKey ni = None" by blast+
qed

lemma subscribeLoop_result:
  assumes "subscribeLoop A g dbsAddr paths sErr ns m dbs = Some (resps, sErr', ns', m', dbs')"
    "gomap_wf m" "mset (concat (map snd m)) = mset [n0..<length ns]" "n0 \<le> length ns" "\<forall>p \<in> set m. snd p \<noteq> []"
  shows "gomap_wf m' \<and> mset (concat (map snd m')) = mset [n0..<length ns'] \<and> (\<forall>p \<in> set m'. snd p \<noteq> []) \<and>
    length ns \<le> length ns' \<and> take (length ns) ns' = ns \<and> map is_Path resps = paths \<and>
    (sErr' = None \<longrightarrow> sErr = None \<and> map ni_path (drop (length ns) ns') = paths \<and>
       (\<forall>r \<in> set resps. is_Err r = None \<and> IsOnChangeSupported r))"
  using assms
proof (induction A g dbsAddr paths sErr ns m dbs arbitrary: resps rule: subscribeLoop.induct)
  case (2 A g dbsAddr path paths sErr ns m dbs)
  from "2.prems"(1) obtain resp sErr1 nInfo dbs1 where
    one: "subscribeOne A g path dbsAddr sErr dbs = Some (resp, sErr1, nInfo, dbs1)"
    by (auto simp: bind_eq_Some_conv)
  note o = subscribeOne_result [OF one]
  show ?case
  proof (cases nInfo)
    case None
    from "2.prems"(1) None obtain resps1 where
      r: "subscribeLoop A g dbsAddr paths sErr1 ns m dbs1 = Some (resps1, sErr', ns', m', dbs')" "resps = resp # resps1"
      by (auto simp: one bind_eq_Some_conv)
    from "2.IH"(1) [OF one refl refl refl None r(1) "2.prems"(2-5)] o None r(2) show ?thesis by auto
  next
    case (Some ni)
    define m1 where "m1 = mapPut (nt_dbno ni) ((case mapGet m (nt_dbno ni) of Some l \<Rightarrow> l | None \<Rightarrow> []) @ [length ns]) m"
    from "2.prems"(1) Some obtain resps1 where
      r: "subscribeLoop A g dbsAddr paths sErr1 (ns @ [ni]) m1 dbs1 = Some (resps1, sErr', ns', m', dbs')" "resps = resp # resps1"
      by (auto simp: one m1_def bind_eq_Some_conv Let_def)
    have "\<forall>v \<in> set (map snd m1). v \<noteq> []"
      using "2.prems"(5) mapPut_values [of "nt_dbno ni" "(case mapGet m (nt_dbno ni) of Some l \<Rightarrow> l | None \<Rightarrow> []) @ [length ns]" m]
      unfolding m1_def by fastforce
    then have m1: "gomap_wf m1" "mset (concat (map snd m1)) = mset [n0..<length (ns @ [ni])]" "\<forall>p \<in> set m1. snd p \<noteq> []"
      "n0 \<le> length (ns @ [ni])"
      using "2.prems"(2-4) mapPut_concat [OF "2.prems"(2)] by (simp_all add: m1_def upt_Suc_append)
    from "2.IH"(2) [OF one refl refl refl Some refl r(1) [unfolded m1_def] m1(1,2,4,3) [unfolded m1_def]]
    have IH: "gomap_wf m' \<and> mset (concat (map snd m')) = mset [n0..<length ns'] \<and> (\<forall>p \<in> set m'. snd p \<noteq> []) \<and>
      length (ns @ [ni]) \<le> length ns' \<and> take (length (ns @ [ni])) ns' = ns @ [ni] \<and> map is_Path resps1 = paths \<and>
      (sErr' = None \<longrightarrow> sErr1 = None \<and> map ni_path (drop (length (ns @ [ni])) ns') = paths \<and>
       (\<forall>r \<in> set resps1. is_Err r = None \<and> IsOnChangeSupported r))" .
    then have t: "take (length ns) ns' = ns" "drop (length ns) ns' = ni # drop (length (ns @ [ni])) ns'"
      by (metis append_take_drop_id append_eq_conv_conj append_assoc append_Cons append_Nil)+
    show ?thesis using IH t o Some r(2) by auto
  qed
qed simp

lemma sub_inv_extend:
  assumes "sub_inv st" "take (length (ninfos st)) ns = ninfos st" "length (ninfos st) \<le> length ns"
    "\<forall>si \<in> set sis. nInfoArr si = [] \<and> sDBs si = []"
  shows "sub_inv (st\<lparr>ninfos := ns, dbsets := ds, sinfos := sinfos st @ sis\<rparr>)"
proof -
  let ?st' = "st\<lparr>ninfos := ns, dbsets := ds, sinfos := sinfos st @ sis\<rparr>"
  have m: "maps_ok st" using assms(1) by (simp add: sub_inv_def)
  have ns: "ns ! n = ninfos st ! n" if "n < length (ninfos st)" for n
    using that assms(2) by (metis nth_take)
  have si: "(sinfos st @ sis) ! s = sinfos st ! s" if "s < length (sinfos st)" for s
    using that by (simp add: nth_append)
  have new: "nInfoArr ((sinfos st @ sis) ! s) = [] \<and> sDBs ((sinfos st @ sis) ! s) = []"
    if "\<not> s < length (sinfos st)" "s < length (sinfos st) + length sis" for s
    using that assms(4) by (simp add: nth_append)
  have "maps_ok ?st'"
  proof (rule maps_okI)
    fix k n assume "nMap ?st' k = Some n"
    then have k: "nMap st k = Some n" by simp
    then have "sMap st n \<noteq> None" using m by (auto simp: maps_ok_def)
    with maps_okD(1-3) [OF m k] ns assms(3)
    show "k < length (skeys ?st') \<and> n < length (ninfos ?st') \<and> ni_sKey (ninfos ?st' ! n) = Some k \<and> sMap ?st' n \<noteq> None"
      by simp
  next
    fix n s assume "sMap ?st' n = Some s"
    then have "sMap st n = Some s" by simp
    from maps_okD(4-7) [OF m this] si assms(3)
    show "s < length (sinfos ?st') \<and> n < length (ninfos ?st') \<and> n \<in> set (nInfoArr (sinfos ?st' ! s)) \<and>
        stopMap ?st' (si_stop (sinfos ?st' ! s)) = Some s" by simp
  next
    fix c s assume "stopMap ?st' c = Some s"
    then have "stopMap st c = Some s" by simp
    from maps_okD(8-10) [OF m this] si
    show "s < length (sinfos ?st') \<and> si_stop (sinfos ?st' ! s) = c \<and> c \<in> set (watching ?st')" by simp
  next
    fix c s n assume "stopMap ?st' c = Some s" "n \<in> set (nInfoArr (sinfos ?st' ! s))"
    then have c: "stopMap st c = Some s" and n: "n \<in> set (nInfoArr (sinfos st ! s))"
      using si maps_okD(8) [OF m] by auto
    from maps_okD(11,12) [OF m c n] maps_okD(5) [OF m] ns
    show "sMap ?st' n = Some s \<and> (\<exists>k. ni_sKey (ninfos ?st' ! n) = Some k \<and> nMap ?st' k = Some n)" by auto
  qed
  moreover have "dbs_ok ?st'"
    unfolding dbs_ok_def
  proof (intro conjI allI impI ballI)
    fix d s assume "cleanupMap ?st' d = Some s"
    then have "s < length (sinfos st) \<and> nInfoArr (sinfos st ! s) \<noteq> [] \<and> d \<in> set (sDBs (sinfos st ! s))"
      using assms(1) by (simp add: sub_inv_def dbs_ok_def)
    then show "s < length (sinfos ?st')" "nInfoArr (sinfos ?st' ! s) \<noteq> []" "d \<in> set (sDBs (sinfos ?st' ! s))"
      by (simp_all add: si)
  next
    fix s d assume s: "s < length (sinfos ?st')" and d: "d \<in> set (sDBs (sinfos ?st' ! s))"
    have l: "s < length (sinfos st)"
    proof (rule ccontr)
      assume "\<not> s < length (sinfos st)"
      with new [of s] s d show False by simp
    qed
    with d have "d \<in> set (sDBs (sinfos st ! s))" by (simp add: si)
    with l assms(1) have "d < length (sdbs st) \<and> (stopMap st (si_stop (sinfos st ! s)) = Some s \<or> sCIP (sc_db (sdbs st ! d)))"
      by (simp add: sub_inv_def dbs_ok_def)
    with si [OF l] show "d < length (sdbs ?st')" "stopMap ?st' (si_stop (sinfos ?st' ! s)) = Some s \<or> sCIP (sc_db (sdbs ?st' ! d))"
      by simp_all
  next
    fix s n assume s: "s < length (sinfos ?st')" and n: "n \<in> set (nInfoArr (sinfos ?st' ! s))"
    have l: "s < length (sinfos st)"
    proof (rule ccontr)
      assume "\<not> s < length (sinfos st)"
      with new [of s] s n show False by simp
    qed
    with n have "n \<in> set (nInfoArr (sinfos st ! s))" by (simp add: si)
    with l assms(1,3) show "n < length (ninfos ?st')" by (force simp: sub_inv_def dbs_ok_def)
  qed
  moreover have "sent_ok ?st'"
  proof -
    have "sentTo n ?st' = sentTo n st" for n by (rule sentTo_cong) simp
    moreover have "ns ! n = ninfos st ! n" if "sMap st n \<noteq> None" for n
      using that maps_okD(5) [OF m] ns by auto
    ultimately show ?thesis using assms(1,3) by (simp add: sub_inv_def sent_ok_def)
  qed
  ultimately show ?thesis by (simp add: sub_inv_def)
qed

text \<open>
  The first notifications of a subscription, as they follow in the log: one for each path, to the queue
  of the request, the last one with the mark that the initial payloads are complete.
\<close>

definition initialSync :: "nat \<Rightarrow> string list \<Rightarrow> (nat \<times> nat \<times> SubscribeResponse) list \<Rightarrow> bool" where
  "initialSync q paths news \<longleftrightarrow>
     mset (map (\<lambda>(n, q', r). sn_Path r) news) = mset paths \<and>
     map (\<lambda>(n, q', r). (q', IsTerminated r)) news = replicate (length news) (q, False) \<and>
     (\<forall>(n, q', r) \<in> set (butlast news). \<not> SyncComplete r) \<and>
     (case news of [] \<Rightarrow> True | _ \<Rightarrow> SyncComplete (snd (snd (last news))))"

lemma initialSyncI:
  assumes "map notice news = map (\<lambda>n. initialNotice b s (n = last ns) n) ns" "distinct ns"
    "mset (map (\<lambda>n. ni_path (ninfos b ! n)) ns) = mset paths" "si_q (sinfos b ! s) = q"
  shows "initialSync q paths news"
proof -
  have l: "length news = length ns" using arg_cong [OF assms(1), of length] by simp
  have i: "notice (news ! i) = initialNotice b s (ns ! i = last ns) (ns ! i)" if "i < length ns" for i
    using arg_cong [OF assms(1), of "\<lambda>xs. xs ! i"] that l by simp
  have "map (\<lambda>(n, q', r). sn_Path r) news = map ((\<lambda>(n, q', p, c, t). p) \<circ> notice) news"
    by (rule map_cong) (auto simp: notice_def)
  also have "\<dots> = map (\<lambda>n. ni_path (ninfos b ! n)) ns"
    unfolding map_map [symmetric] assms(1) by (simp add: initialNotice_def)
  finally have 1: "mset (map (\<lambda>(n, q', r). sn_Path r) news) = mset paths" using assms(3) by simp
  have "map (\<lambda>(n, q', r). (q', IsTerminated r)) news = map ((\<lambda>(n, q', p, c, t). (q', t)) \<circ> notice) news"
    by (rule map_cong) (auto simp: notice_def)
  also have "\<dots> = replicate (length news) (q, False)"
    unfolding map_map [symmetric] assms(1) using assms(4) l by (auto simp: initialNotice_def intro!: nth_equalityI)
  finally have 2: "map (\<lambda>(n, q', r). (q', IsTerminated r)) news = replicate (length news) (q, False)" .
  have c: "SyncComplete (snd (snd (news ! i))) \<longleftrightarrow> Suc i = length ns" if "i < length ns" for i
  proof -
    have "SyncComplete (snd (snd (news ! i))) \<longleftrightarrow> ns ! i = last ns"
      using i [OF that] by (auto simp: notice_def initialNotice_def split: prod.splits)
    moreover have "last ns = ns ! (length ns - 1)" using that by (intro last_conv_nth) auto
    ultimately show ?thesis using that assms(2) by (auto simp: nth_eq_iff_index_eq)
  qed
  have "\<not> SyncComplete (snd (snd r))" if "r \<in> set (butlast news)" for r
    using that c l by (auto simp: in_set_conv_nth nth_butlast)
  moreover have "SyncComplete (snd (snd (last news)))" if "news \<noteq> []"
    using that c [of "length ns - 1"] l by (cases "length ns") (auto simp: last_conv_nth)
  ultimately show ?thesis unfolding initialSync_def using 1 2 by (force split: list.splits)
qed

lemma Subscribe_result:
  assumes "sub_inv st" "stopMap st stop = None" "\<And>m. mset (order m) = mset m"
    "Subscribe clock order X S A g req q stop st = Some ((resps, err), st')"
  shows "sub_inv st' \<and> length (ninfos st) \<le> length (ninfos st') \<and>
    (\<forall>n < length (ninfos st). sMap st' n = sMap st n \<and> filter (\<lambda>p. fst p = n) (puts st') = filter (\<lambda>p. fst p = n) (puts st)) \<and>
    (if err \<noteq> None
    then nMap st' = nMap st \<and> sMap st' = sMap st \<and> stopMap st' = stopMap st \<and> puts st' = puts st
    else (\<exists>news. puts st' = puts st @ news \<and> initialSync q (sb_Paths req) news) \<and>
         map is_Path resps = sb_Paths req \<and> (\<forall>r \<in> set resps. is_Err r = None \<and> IsOnChangeSupported r))"
proof (cases "isAuthorizedForSubscribe req \<and> snd (fst (getAllDbs X True)) = None")
  case False
  then have "st' = st \<and> err \<noteq> None"
    using assms(4) by (auto simp: Subscribe_def Let_def split: if_splits prod.splits)
  then show ?thesis using assms(1) by simp
next
  case True
  obtain dbs closed where dbs: "getAllDbs X True = ((dbs, None), closed)" using True by (metis prod.collapse)
  let ?N = "length (ninfos st)" and ?s = "length (sinfos st)"
  obtain resps' sErr ns m dbs1 where
    l: "subscribeLoop A g (length (dbsets st)) (sb_Paths req) None (ninfos st) [] dbs = Some (resps', sErr, ns, m, dbs1)"
    using assms(4) True dbs by (auto simp: Subscribe_def Let_def bind_eq_Some_conv)
  from subscribeLoop_result [OF l, of ?N]
  have r: "mset (concat (map snd m)) = mset [?N..<length ns]" "\<forall>p \<in> set m. snd p \<noteq> []" "?N \<le> length ns"
    "take ?N ns = ninfos st" "map is_Path resps' = sb_Paths req"
    "sErr = None \<Longrightarrow> map ni_path (drop ?N ns) = sb_Paths req \<and> (\<forall>r \<in> set resps'. is_Err r = None \<and> IsOnChangeSupported r)"
    by simp_all
  show ?thesis
  proof (cases sErr)
    case (Some e)
    then have "err \<noteq> None" "st' = st\<lparr>ninfos := ns, dbsets := dbsets st @ [dbs1], sinfos := sinfos st @ []\<rparr>"
      using assms(4) True dbs l by (auto simp: Subscribe_def Let_def)
    then show ?thesis using sub_inv_extend [OF assms(1) r(4,3), of "[]"] r(3) by simp
  next
    case None
    define si where "si = \<lparr>syncDone = False, si_q = q, nInfoArr = [], si_stop = stop, sDBs = []\<rparr>"
    define b where "b = st\<lparr>ninfos := ns, dbsets := dbsets st @ [dbs1], sinfos := sinfos st @ [si]\<rparr>"
    have e: "startSubscribe clock A X S ?s (order m) b = (err, st')" "resps = resps'"
      using assms(4) True dbs l None by (auto simp: Subscribe_def Let_def b_def si_def split: prod.splits)
    have sb: "sinfos b ! ?s = si" "nMap b = nMap st" "sMap b = sMap st" "stopMap b = stopMap st" "puts b = puts st"
      "ninfos b = ns"
      by (simp_all add: b_def)
    have inv: "sub_inv b" unfolding b_def by (rule sub_inv_extend [OF assms(1) r(4,3)]) (simp add: si_def)
    have st: "startable b ?s" using inv sb assms(2) by (simp add: startable_def b_def si_def)
    have om: "mset (concat (map snd (order m))) = mset [?N..<length ns]"
      using mset_concat_perm [OF assms(3)] r(1) by simp
    have d: "distinct (concat (map snd (order m)))" using om by (metis distinct_upt mset_eq_imp_distinct_iff)
    have mem: "set (concat (map snd (order m))) = {?N..<length ns}" using om by (metis set_mset_mset set_upt)
    have ne: "\<forall>p \<in> set (order m). snd p \<noteq> []" using r(2) assms(3) [of m] by (metis set_mset_mset)
    have fresh: "\<forall>n \<in> set (concat (map snd (order m))). n < length (ninfos b) \<and> sMap b n = None \<and> sentTo n b = []"
    proof
      fix n assume "n \<in> set (concat (map snd (order m)))"
      then have n: "?N \<le> n" "n < length ns" by (simp_all only: mem atLeastLessThan_iff)
      have "sMap st n = None"
        using n(1) maps_okD(5) [of st n] assms(1) by (cases "sMap st n") (auto simp: sub_inv_def)
      moreover have "sentTo n b = sentTo n st" by (rule sentTo_cong) (simp add: sb)
      moreover have "sentTo n st = []" using n(1) assms(1) by (simp add: sub_inv_def sent_ok_def)
      ultimately show "n < length (ninfos b) \<and> sMap b n = None \<and> sentTo n b = []" using n(2) by (simp add: sb)
    qed
    have "\<not> syncDone (sinfos b ! ?s)" by (simp add: sb si_def)
    note start = startSubscribe_result [OF st this d ne fresh e(1)]
    show ?thesis
    proof (cases err)
      case (Some y)
      then show ?thesis using start sb r(3) by (simp add: aborted_def)
    next
      case None
      then obtain news where news: "sub_inv st'" "puts st' = puts b @ news" "map notice news =
          map (\<lambda>n. initialNotice b ?s (n = last (concat (map snd (order m)))) n) (concat (map snd (order m)))"
        using start by auto
      have "mset (map (\<lambda>n. ni_path (ninfos b ! n)) (concat (map snd (order m)))) =
          mset (map (\<lambda>n. ni_path (ns ! n)) [?N..<length ns])"
        unfolding mset_map om sb(6) ..
      also have "map (\<lambda>n. ni_path (ns ! n)) [?N..<length ns] = map ni_path (drop ?N ns)"
        by (rule nth_equalityI) auto
      finally have "initialSync q (sb_Paths req) news"
        using initialSyncI [OF news(3) d] r(6) \<open>sErr = None\<close> sb(1) by (simp add: si_def)
      moreover have "filter (\<lambda>p. fst p = n) news = []" if "n < ?N" for n
      proof -
        have "map fst news = map (fst \<circ> notice) news" by (rule map_cong) (auto simp: notice_def)
        also have "\<dots> = concat (map snd (order m))"
          unfolding map_map [symmetric] news(3) by (simp add: initialNotice_def o_def)
        finally have "fst ` set news = {?N..<length ns}" using mem by (metis list.set_map)
        then have "fst p \<noteq> n" if "p \<in> set news" for p using that \<open>n < ?N\<close> by (metis atLeastLessThan_iff image_eqI not_le)
        then show ?thesis by (auto simp: filter_empty_conv)
      qed
      moreover have "sMap st' n = sMap st n" if "n < ?N" for n
      proof -
        have "n \<notin> set (concat (map snd (order m)))" unfolding mem using that by simp
        then show ?thesis using start None sb(3) by simp
      qed
      moreover have "length (ninfos st') = length ns" using start None sb(6) by simp
      ultimately show ?thesis using news r(3,5,6) \<open>sErr = None\<close> None e(2) sb(5) by auto
    qed
  qed
qed

lemma Subscribe_returns:
  assumes "\<forall>path \<in> set (sb_Paths req). getAppModule A g path \<noteq> None"
  shows "Subscribe clock order X S A g req q stop st \<noteq> None"
proof -
  have "subscribeLoop A g dbsAddr paths sErr ns m dbs \<noteq> None"
    if "\<forall>path \<in> set paths. getAppModule A g path \<noteq> None" for dbsAddr paths sErr ns m dbs
    using that
  proof (induction paths arbitrary: sErr ns m dbs)
    case (Cons path paths)
    then obtain app info where "getAppModule A g path = Some (app, info)" by auto
    moreover obtain nOpts nt errApp app1 dbs1 where
      "translateSubscribe A dbs path app = ((nOpts, nt, errApp), app1, dbs1)" by (metis surj_pair)
    ultimately obtain r where "subscribeOne A g path dbsAddr sErr dbs = Some r"
      by (simp add: subscribeOne_def Let_def)
    then show ?case
      using Cons by (cases r) (auto simp: Let_def bind_eq_None_conv simp del: not_None_eq split: option.splits prod.splits)
  qed simp
  from this [OF assms] show ?thesis
    by (auto simp: Subscribe_def Let_def bind_eq_None_conv simp del: not_None_eq split: prod.splits)
qed

subsection \<open>Steps\<close>

lemma dispatch_event:
  assumes "dispatch opts keys patMap msg = Some calls" "OnKey i k ev \<in> set calls"
  shows "ev \<noteq> SEventErr"
proof -
  have "dispatchTo opts keys msg idxs = Some calls \<Longrightarrow> OnKey i k ev \<in> set calls \<Longrightarrow> ev = redisPayload2sEvent (msg_Payload msg)" for idxs
    by (induction idxs arbitrary: calls) (auto simp: Let_def bind_eq_Some_conv split: if_splits)
  then show ?thesis using assms by (auto simp: dispatch_def redisPayload2sEvent_cases)
qed

lemma sub_inv_running:
  assumes "sub_inv st"
  shows "sub_inv (st\<lparr>sdbs := (sdbs st)[d := (sdbs st ! d)\<lparr>sc_running := b\<rparr>]\<rparr>)"
proof -
  let ?st' = "st\<lparr>sdbs := (sdbs st)[d := (sdbs st ! d)\<lparr>sc_running := b\<rparr>]\<rparr>"
  have "maps_ok ?st'" by (rule maps_ok_cong [of st]) (use assms in \<open>simp_all add: sub_inv_def\<close>)
  moreover have "dbs_ok ?st'"
    by (rule dbs_ok_cong [of st]) (use assms in \<open>simp_all add: sub_inv_def list_update_proj [of "\<lambda>c. sCIP (sc_db c)"]\<close>)
  moreover have "sent_ok ?st'" using assms by (simp add: sub_inv_def sent_ok_def sentTo_cong [of ?st' st])
  ultimately show ?thesis by (simp add: sub_inv_def)
qed

lemma sub_inv_dbsets:
  assumes "sub_inv st"
  shows "sub_inv (st\<lparr>dbsets := ds\<rparr>)"
  using sub_inv_extend [OF assms, of "ninfos st" "[]" ds] by simp

lemma sub_step_inv:
  assumes "sub_step clock X S A g st st'" "sub_inv st"
  shows "sub_inv st'"
  using assms(1)
proof (cases rule: sub_step.cases)
  case (subscribed stop order req q res)
  then show ?thesis using Subscribe_result [OF assms(2), of stop order] by (cases res) blast
next
  case (stopped stop)
  then show ?thesis using stophandler_inv [OF assms(2)] by simp
next
  case notified
  then show ?thesis using notificationHandler_inv [OF assms(2)] by blast
next
  case (ended d)
  then show ?thesis using notificationHandler_inv [OF sub_inv_running [OF assms(2)]] by blast
next
  case outside
  then show ?thesis using sub_inv_dbsets [OF assms(2)] by simp
qed

interpretation sub_runs: invariant_system "\<lambda>st. st = emptySubs" "sub_step clock X S A g" sub_inv for clock X S A g
  by unfold_locales (auto simp: sub_inv_empty intro: sub_step_inv)

text \<open>An info that no map holds any more is silent, whatever happens.\<close>

definition silent :: "nat \<Rightarrow> (nat \<times> nat \<times> SubscribeResponse) list \<Rightarrow> ('a, 't, 'r, 'c, 's) subs \<Rightarrow> bool" where
  "silent n log st \<longleftrightarrow>
     sub_inv st \<and> n < length (ninfos st) \<and> sMap st n = None \<and> filter (\<lambda>p. fst p = n) (puts st) = log"

lemma handler_silent:
  assumes "silent n log st" "notificationHandler clock A d sKey event st = Some st'"
    "event = SEventErr \<Longrightarrow> \<not> sCIP (sc_db (sdbs st ! d))"
  shows "silent n log st'"
proof -
  have inv: "sub_inv st" and m: "maps_ok st" and n: "sMap st n = None" using assms(1) by (auto simp: silent_def sub_inv_def)
  have inv': "sub_inv st'" by (rule notificationHandler_inv [OF inv assms(2)])
  show ?thesis
    using inv assms(2)
  proof (cases rule: notificationHandler_cases)
    case (Changed k n' s app json ds)
    then have "n' \<noteq> n" using n by auto
    then show ?thesis using assms(1) inv' Changed by (simp add: silent_def sendNotification_def Let_def)
  next
    case (Terminated s n')
    have "s < length (sinfos st) \<and> d \<in> set (sDBs (sinfos st ! s))"
      using Terminated(2) inv by (simp add: sub_inv_def dbs_ok_def)
    then have "stopMap st (si_stop (sinfos st ! s)) = Some s"
      using assms(3) [OF Terminated(1)] inv by (auto simp: sub_inv_def dbs_ok_def)
    then have "sMap st n' = Some s" using maps_okD(11) [OF m] Terminated(3) by blast
    then have "n' \<noteq> n" using n by auto
    then show ?thesis using assms(1) inv' Terminated by (simp add: silent_def sendNotification_def Let_def)
  qed (use assms(1) inv' in \<open>auto simp: silent_def\<close>)
qed

lemma stophandler_frame:
  "ninfos (stophandler X S c st) = ninfos st" "puts (stophandler X S c st) = puts st"
  "sMap (stophandler X S c st) n =
     (if \<exists>s. stopMap st c = Some s \<and> n \<in> set (nInfoArr (sinfos st ! s)) then None else sMap st n)"
proof -
  let ?w = "st\<lparr>watching := remove1 c (watching st)\<rparr>"
  have "ninfos (stophandler X S c st) = ninfos st \<and> puts (stophandler X S c st) = puts st \<and>
      sMap (stophandler X S c st) n =
     (if \<exists>s. stopMap st c = Some s \<and> n \<in> set (nInfoArr (sinfos st ! s)) then None else sMap st n)"
  proof (cases "stopMap ?w c")
    case None
    then show ?thesis by (simp add: stophandler_def cleanup_def)
  next
    case (Some s)
    obtain sd where
      "stophandler X S c st = (forgetAll (nInfoArr (sinfos ?w ! s)) ?w)\<lparr>sdbs := sd, stopMap := (stopMap ?w)(c := None)\<rparr>"
      unfolding stophandler_def by (rule cleanup_form [OF Some, of X S])
    then show ?thesis using Some by (simp add: forgetAll_def restrict_map_def)
  qed
  then show "ninfos (stophandler X S c st) = ninfos st" "puts (stophandler X S c st) = puts st"
    "sMap (stophandler X S c st) n =
     (if \<exists>s. stopMap st c = Some s \<and> n \<in> set (nInfoArr (sinfos st ! s)) then None else sMap st n)" by blast+
qed

lemma step_silent:
  assumes "sub_step clock X S A g st st'" "silent n log st"
  shows "silent n log st'"
  using assms(1)
proof (cases rule: sub_step.cases)
  case (subscribed stop order req q res)
  then show ?thesis
    using Subscribe_result [of st stop order clock X S A g req q "fst res" "snd res" st'] assms(2)
    by (auto simp: silent_def)
next
  case (stopped stop)
  have inv: "sub_inv (stophandler X S stop st)" using stophandler_inv assms(2) by (auto simp: silent_def)
  then show ?thesis using assms(2) stopped stophandler_frame [of X S stop st] by (simp add: silent_def)
next
  case (notified d msg calls i k event)
  then show ?thesis using handler_silent [OF assms(2)] dispatch_event by blast
next
  case (ended d)
  let ?st1 = "st\<lparr>sdbs := (sdbs st)[d := (sdbs st ! d)\<lparr>sc_running := False\<rparr>]\<rparr>"
  have "silent n log ?st1" using sub_inv_running assms(2) by (auto simp: silent_def)
  then show ?thesis
    by (rule handler_silent [OF _ ended(3)]) (use ended(1) in \<open>simp split: if_splits\<close>)
next
  case (outside ds)
  then show ?thesis using sub_inv_dbsets assms(2) by (auto simp: silent_def)
qed

lemma steps_silent:
  "(sub_step clock X S A g)\<^sup>*\<^sup>* st st' \<Longrightarrow> silent n log st \<Longrightarrow> silent n log st'"
  by (induction rule: rtranclp_induct) (auto intro: step_silent)

subsection \<open>Properties\<close>




subsection \<open>A run\<close>

text \<open>A module that answers with the mtu of a port, and a client that watches it.\<close>

definition portModule :: "(unit, unit, unit, mem, nat) appInterface" where
  "portModule =
     \<lparr>newInstance = (\<lambda>_. Some ()), bindRequest = (\<lambda>_ _ _ _. Inr ()), app_initialize = (\<lambda>_ app. app),
      translateCreate = (\<lambda>d app. (([], None), app, d)), translateUpdate = (\<lambda>d app. (([], None), app, d)),
      translateReplace = (\<lambda>d app. (([], None), app, d)), translateDelete = (\<lambda>d app. (([], None), app, d)),
      translateGet = (\<lambda>dbs app. (None, app, dbs)), translateAction = (\<lambda>dbs app. (None, app, dbs)),
      translateSubscribe = (\<lambda>dbs path app.
        ((None, Some \<lparr>nt_table = portTable, nt_key = eth0, nt_dbno = ConfigDB, nt_needCache = True\<rparr>, None), app, dbs)),
      processCreate = (\<lambda>d app. ((emptySetResponse, None), app, d)),
      processUpdate = (\<lambda>d app. ((emptySetResponse, None), app, d)),
      processReplace = (\<lambda>d app. ((emptySetResponse, None), app, d)),
      processDelete = (\<lambda>d app. ((emptySetResponse, None), app, d)),
      processGet = (\<lambda>dbs app.
        ((\<lparr>rg_Payload = (case dbs ConfigDB of None \<Rightarrow> [] | Some d \<Rightarrow> mapStr (memHash (m_hash (client d)) ''PORT|Ethernet0'') ''mtu''),
           rg_ErrSrc = AppErr\<rparr>, None), app, dbs)),
      processAction = (\<lambda>dbs app. ((emptyGetResponse, None), app, dbs))\<rparr>"

definition portRegistry :: "unit registry" where
  "portRegistry = \<lparr>appMap = [(''/port'', \<lparr>appType = (), ygotRootType = (), isNative = True, tablesToWatch = []\<rparr>)], reg_models = []\<rparr>"

definition portRequest :: SubscribeRequest where
  "portRequest = \<lparr>sb_Paths = [''/port/a'', ''/port/b''], sb_User = \<lparr>ur_Name = [], ur_Roles = []\<rparr>, sb_AuthEnabled = False\<rparr>"

type_synonym port_subs = "(unit, unit, mem, nat, mem) subs"

abbreviation portStep :: "port_subs \<Rightarrow> port_subs \<Rightarrow> bool" where
  "portStep \<equiv> sub_step int memInfra memSub portModule portRegistry"

definition watched :: port_subs where
  "watched = snd (the (Subscribe int id memInfra memSub portModule portRegistry portRequest 7 3 emptySubs))"

definition withMtu :: "port_subs \<Rightarrow> port_subs" where
  "withMtu st = st\<lparr>dbsets := map (\<lambda>dbs. dbs(ConfigDB := map_option (\<lambda>d. d\<lparr>client := (client d)\<lparr>m_hash := [(''PORT|Ethernet0'', [(''mtu'', ''9100'')])]\<rparr>\<rparr>) (dbs ConfigDB)))
     (dbsets st)\<rparr>"

definition hsetMsg :: Message where
  "hsetMsg = delMsg\<lparr>msg_Payload := ''hset''\<rparr>"

definition changed :: port_subs where
  "changed = the (notificationHandler int portModule 0 (Some 0) SEventHSet (withMtu watched))"

lemma watched_run: "Subscribe int id memInfra memSub portModule portRegistry portRequest 7 3 emptySubs =
    Some (fst (the (Subscribe int id memInfra memSub portModule portRegistry portRequest 7 3 emptySubs)), watched)"
proof -
  have "\<not> Option.is_none (Subscribe int id memInfra memSub portModule portRegistry portRequest 7 3 emptySubs)" by code_simp
  then show ?thesis unfolding watched_def by (auto simp: Option.is_none_def)
qed

lemma changed_reachable: "portStep\<^sup>*\<^sup>* emptySubs changed"
proof -
  have 1: "portStep emptySubs watched"
    by (rule sub_step.subscribed [OF _ _ watched_run]) (simp_all add: emptySubs_def)
  have 2: "portStep watched (withMtu watched)" unfolding withMtu_def by (rule sub_step.outside) simp
  have "portStep (withMtu watched) changed"
  proof (rule sub_step.notified [where d = 0 and i = 0 and msg = hsetMsg])
    show "0 < length (sdbs (withMtu watched))" "sc_running (sdbs (withMtu watched) ! 0)" by code_simp+
    show "dispatch (Opts (s_db (sc_db (sdbs (withMtu watched) ! 0)))) (map (\<lambda>k. skeys (withMtu watched) ! k) (sc_keys (sdbs (withMtu watched) ! 0)))
      (sc_patMap (sdbs (withMtu watched) ! 0)) hsetMsg = Some [OnKey 0 eth0 SEventHSet, OnKey 1 eth0 SEventHSet]" by code_simp
    have "sc_keys (sdbs (withMtu watched) ! 0) ! 0 = 0"
      "\<not> Option.is_none (notificationHandler int portModule 0 (Some 0) SEventHSet (withMtu watched))" by code_simp+
    then show "notificationHandler int portModule 0 (Some (sc_keys (sdbs (withMtu watched) ! 0) ! 0)) SEventHSet (withMtu watched) = Some changed"
      unfolding changed_def by (auto simp: Option.is_none_def)
  qed simp
  with 1 2 show ?thesis by (meson converse_rtranclp_into_rtranclp rtranclp.rtrancl_refl)
qed




end
