(* ===== verification/Cvl_Model.thy ===== *)
theory Cvl_Model
  imports Errors "HOL-Library.Monad_Syntax"
begin

text \<open>
  The schema information of the configuration validation library (\<^verbatim>\<open>cvl/cvl.go\<close>) and the functions on
  Redis keys and fields that use it.  The maps of the global \<^verbatim>\<open>modelInfo\<close> are maps of a record; the parts
  of a table that only libyang and the expression evaluator read are left out.
\<close>

subsection \<open>Schema\<close>

record tblFieldPair =
  tf_tableName :: string
  tf_field :: string

record leafRefInfo =
  lr_path :: string
  yangListNames :: "string list"
  targetNodeName :: string

record modelTableInfo =
  modelName :: string
  redisTableName :: string
  ti_keys :: "string list"
  redisKeyDelim :: string
  redisKeyPattern :: string
  redisTableSize :: int
  leafRef :: "(string, leafRefInfo list) gomap"
  refFromTables :: "tblFieldPair list"

text \<open>\<^verbatim>\<open>tableInfo\<close> holds pointers: an absent table is nil, and reading a field of it panics.\<close>

record modelDataInfo =
  tableInfo :: "(string, modelTableInfo) gomap"
  redisTableToYangList :: "(string, string list) gomap"
  allKeyDelims :: "(string, bool) gomap"

subsection \<open>Building it\<close>

definition getYangListNamesInExpr :: "modelDataInfo \<Rightarrow> string \<Rightarrow> string list" where
  "getYangListNamesInExpr mi expr =
     filter (\<lambda>tblName. containsStr expr ('':'' @ tblName @ ''_LIST'') \<or> containsStr expr (''/'' @ tblName @ ''_LIST''))
       (map fst (tableInfo mi))"

definition getLeafRefTargetInfo :: "modelDataInfo \<Rightarrow> string \<Rightarrow> string list \<times> string" where
  "getLeafRefTargetInfo mi path =
     (getYangListNamesInExpr mi path,
      (case lastIndex path '':'' of
         Some (Suc idx) \<Rightarrow> drop (Suc (Suc idx)) path
       | _ \<Rightarrow> (case lastIndex path ''/'' of
                 Some (Suc idx) \<Rightarrow> drop (Suc (Suc idx)) path
               | _ \<Rightarrow> [])))"

text \<open>\<^verbatim>\<open>compileLeafRefPath\<close>: the target of each leafref; the compiled expression is left out.\<close>

definition compileLeafRef :: "modelDataInfo \<Rightarrow> leafRefInfo \<Rightarrow> leafRefInfo" where
  "compileLeafRef mi r =
     (if lr_path r = ''non-leafref'' then r
      else let (tbls, target) = getLeafRefTargetInfo mi (lr_path r)
           in r\<lparr>yangListNames := tbls, targetNodeName := target\<rparr>)"

definition compileLeafRefPath :: "modelDataInfo \<Rightarrow> modelDataInfo" where
  "compileLeafRefPath mi =
     mi\<lparr>tableInfo := map (\<lambda>(t, ti). (t, ti\<lparr>leafRef := map (\<lambda>(f, rs). (f, map (compileLeafRef mi) rs)) (leafRef ti)\<rparr>))
                      (tableInfo mi)\<rparr>"

subsection \<open>Names and keys\<close>

definition getYangListToRedisTbl :: "modelDataInfo \<Rightarrow> string \<Rightarrow> string" where
  "getYangListToRedisTbl mi yangListName =
     (let name = (if hasSuffix yangListName ''_LIST'' then take (length yangListName - 5) yangListName else yangListName)
      in case mapGet (tableInfo mi) name of
           Some tInfo \<Rightarrow> if redisTableName tInfo \<noteq> [] then redisTableName tInfo else name
         | None \<Rightarrow> name)"

text \<open>The first delimiter, in the order of the range over \<^verbatim>\<open>allKeyDelims\<close>, that occurs in the key.\<close>

fun firstDelim :: "string \<Rightarrow> (string, bool) gomap \<Rightarrow> (nat \<times> string) option" where
  "firstDelim key [] = None"
| "firstDelim key ((d, _) # ds) =
     (case index key d of Some i \<Rightarrow> Some (i, d) | None \<Rightarrow> firstDelim key ds)"

definition splitRedisKey :: "modelDataInfo \<Rightarrow> string \<Rightarrow> string \<times> string" where
  "splitRedisKey mi key =
     (case firstDelim key (allKeyDelims mi) of
        None \<Rightarrow> ([], [])
      | Some (foundIdx, _) \<Rightarrow>
          (let tblName = take foundIdx key
           in if \<not> mapHas (tableInfo mi) tblName then ([], [])
              else (tblName, drop (foundIdx + 1) key)))"

fun listWithKeys :: "modelDataInfo \<Rightarrow> nat \<Rightarrow> string list \<Rightarrow> string option" where
  "listWithKeys mi n [] = None"
| "listWithKeys mi n (l # ls) =
     (case mapGet (tableInfo mi) l of
        Some tblInfo \<Rightarrow> if length (ti_keys tblInfo) = n then Some l else listWithKeys mi n ls
      | None \<Rightarrow> listWithKeys mi n ls)"

definition getRedisTblToYangList :: "modelDataInfo \<Rightarrow> string \<Rightarrow> string \<Rightarrow> string" where
  "getRedisTblToYangList mi tableName key =
     (case mapGet (redisTableToYangList mi) tableName of
        None \<Rightarrow> tableName
      | Some mapArr \<Rightarrow>
          (if length mapArr = 1 then tableName
           else
             let numOfKeys = (case firstDelim key (allKeyDelims mi) of
                                Some (_, d) \<Rightarrow> length (splitStr key d)
                              | None \<Rightarrow> 1)
             in case listWithKeys mi numOfKeys mapArr of Some l \<Rightarrow> l | None \<Rightarrow> tableName))"

record keyValuePairStruct =
  kv_key :: string
  kv_values :: "string list"

text \<open>
  The loop over the key names; \<^term>\<open>None\<close>: the pattern has too few components, or a value that is needed
  is missing (index out of range).
\<close>

fun yangKeys :: "string list \<Rightarrow> string list \<Rightarrow> string list \<Rightarrow> keyValuePairStruct list option" where
  "yangKeys [] keyVals pats = Some []"
| "yangKeys (n # ns) keyVals [] = None"
| "yangKeys (n # ns) keyVals (p # ps) =
     (let one = p = ''{'' @ n @ ''}''; many = p = ''({'' @ n @ ''},)*''
      in if one \<or> many
         then (case keyVals of
                 [] \<Rightarrow> None
               | v # vs \<Rightarrow>
                   map_option (\<lambda>rest. \<lparr>kv_key = n, kv_values = (if one then [v] else splitStr v '','')\<rparr> # rest)
                     (yangKeys ns vs ps))
         else yangKeys ns (tl keyVals) ps)"

text \<open>\<^verbatim>\<open>getRedisToYangKeys\<close>; the inner \<^term>\<open>None\<close> is the nil result.\<close>

definition getRedisToYangKeys :: "modelDataInfo \<Rightarrow> string \<Rightarrow> string \<Rightarrow> keyValuePairStruct list option option" where
  "getRedisToYangKeys mi tableName redisKey =
     do { ti \<leftarrow> mapGet (tableInfo mi) tableName;
          let keyNames = ti_keys ti;
          let keyVals0 = splitStr redisKey (redisKeyDelim ti);
          let keyPatterns = splitStr (redisKeyPattern ti) (redisKeyDelim ti);
          if tableName = ''INTERFACE'' \<and> length keyNames \<noteq> length keyVals0
          then map_option Some (yangKeys keyNames (keyVals0 @ [''0.0.0.0/0'']) (tl keyPatterns))
          else if length keyNames \<noteq> length keyVals0 then Some None
          else map_option Some (yangKeys keyNames keyVals0 (tl keyPatterns)) }"

subsection \<open>Fields\<close>

datatype field_value = FString string | FList "string list"

text \<open>\<^verbatim>\<open>checkFieldMap\<close>; \<^term>\<open>None\<close>: an empty field name (its last byte is out of range).\<close>

fun checkFieldMap :: "fields \<Rightarrow> (string, field_value) gomap \<Rightarrow> (string, field_value) gomap option" where
  "checkFieldMap [] new = Some new"
| "checkFieldMap ((field, value) # rest) new =
     (if field = ''NULL'' then checkFieldMap rest new
      else if field = [] then None
      else if last field = CHR ''@''
      then checkFieldMap rest (mapPut (butlast field) (FList (splitStr value '','')) new)
      else checkFieldMap rest (mapPut field (FString value) new))"

text \<open>\<^verbatim>\<open>mergeMap\<close> is \<^const>\<open>mapPutAll\<close>: every entry of the source is stored in the destination.\<close>

definition mergeMap :: "fields \<Rightarrow> fields \<Rightarrow> fields" where
  "mergeMap dest src = mapPutAll dest src"

end
