(* ===== verification/Cvl_Deps.thy ===== *)
theory Cvl_Deps
  imports Cvl_Model "HOL-Library.Multiset"
begin

text \<open>
  Dependencies between tables and between entries (\<^verbatim>\<open>cvl/cvl_api.go\<close>): the order of tables by leafref, the
  tables a table depends on, and the keys to delete or to change when an entry is deleted.

  The package \<^verbatim>\<open>toposort\<close> and the Redis queries are parameters; ranging over a Go map visits its entries
  in some order, given by \<open>order\<close>.
\<close>

type_synonym edge = "string \<times> string"

subsection \<open>Edges and sorting\<close>

text \<open>The two inner loops of \<^verbatim>\<open>addDepEdges\<close>: an edge for the first leafref whose path names the list.\<close>

fun addRefEdges :: "string \<Rightarrow> string \<Rightarrow> string \<Rightarrow> leafRefInfo list \<Rightarrow> (string, string) gomap \<Rightarrow> edge list \<Rightarrow> edge list" where
  "addRefEdges listName from to [] dup es = es"
| "addRefEdges listName from to (r # rs) dup es =
     (if \<not> containsStr (lr_path r) (listName @ ''_LIST'') then addRefEdges listName from to rs dup es
      else if mapGet dup from = Some to then addRefEdges listName from to rs dup es
      else addRefEdges listName from to rs (mapPut from to dup) (es @ [(from, to)]))"

definition allLeafRefs :: "modelTableInfo \<Rightarrow> leafRefInfo list" where
  "allLeafRefs ti = concat (map snd (leafRef ti))"

text \<open>\<^term>\<open>None\<close>: a table without schema (nil dereference).\<close>

fun addEdgesTo :: "modelDataInfo \<Rightarrow> string \<Rightarrow> string list \<Rightarrow> edge list \<Rightarrow> edge list option" where
  "addEdgesTo mi ti [] es = Some es"
| "addEdgesTo mi ti (tj # tjs) es =
     (if ti = tj then addEdgesTo mi ti tjs es
      else
        do { info \<leftarrow> mapGet (tableInfo mi) tj;
             addEdgesTo mi ti tjs
               (addRefEdges ti (getYangListToRedisTbl mi tj) (getYangListToRedisTbl mi ti) (allLeafRefs info) [] es) })"

fun addEdgesLoop :: "modelDataInfo \<Rightarrow> string list \<Rightarrow> string list \<Rightarrow> edge list \<Rightarrow> edge list option" where
  "addEdgesLoop mi [] tableList es = Some es"
| "addEdgesLoop mi (ti # tis) tableList es =
     do { es1 \<leftarrow> addEdgesTo mi ti tableList es;
          addEdgesLoop mi tis tableList es1 }"

definition addDepEdges :: "modelDataInfo \<Rightarrow> string list \<Rightarrow> edge list option" where
  "addDepEdges mi tableList = addEdgesLoop mi tableList tableList []"

text \<open>The sorter: nodes and edges to an order, \<^term>\<open>None\<close> when it reports a cycle.\<close>

type_synonym sorter = "string list \<Rightarrow> edge list \<Rightarrow> string list option"

definition knownTables :: "modelDataInfo \<Rightarrow> string list \<Rightarrow> (string, bool) gomap" where
  "knownTables mi inTableList =
     fold (\<lambda>t m. if mapHas (tableInfo mi) t then mapPut t True m else m) inTableList []"

text \<open>The outer \<^term>\<open>None\<close> is a panic, the inner one the nil list that comes with an error.\<close>

definition sortTables ::
  "sorter \<Rightarrow> modelDataInfo \<Rightarrow> string list \<Rightarrow> (string list option \<times> CVLRetCode) option" where
  "sortTables toposort mi tableList =
     do { es \<leftarrow> addDepEdges mi tableList;
          Some (case toposort tableList es of
                  None \<Rightarrow> (None, CVL_ERROR)
                | Some result \<Rightarrow> (Some result, CVL_SUCCESS)) }"

definition SortDepTables ::
  "sorter \<Rightarrow> (string list \<Rightarrow> string list) \<Rightarrow> modelDataInfo \<Rightarrow> string list \<Rightarrow>
   (string list option \<times> CVLRetCode) option" where
  "SortDepTables toposort order mi inTableList =
     sortTables toposort mi (order (map fst (knownTables mi inTableList)))"

definition GetOrderedTables ::
  "sorter \<Rightarrow> (string list \<Rightarrow> string list) \<Rightarrow> modelDataInfo \<Rightarrow> string \<Rightarrow> (string list option \<times> CVLRetCode) option" where
  "GetOrderedTables toposort order mi yangModule =
     SortDepTables toposort order mi
       (map fst (filter (\<lambda>(t, info). modelName info = yangModule) (tableInfo mi)))"

subsection \<open>Tables a table depends on\<close>

text \<open>The tables referred to by the leafrefs of a table, in the order of the loops.\<close>

definition refTables :: "modelDataInfo \<Rightarrow> modelTableInfo \<Rightarrow> string list" where
  "refTables mi ti = map (getYangListToRedisTbl mi) (concat (map yangListNames (allLeafRefs ti)))"

text \<open>
  \<^verbatim>\<open>addDepTables\<close>; the fuel bounds the depth of the recursion.  \<^term>\<open>None\<close>: the fuel is not enough, or a
  table without schema is reached (nil dereference).
\<close>

fun addDepTables :: "nat \<Rightarrow> modelDataInfo \<Rightarrow> string \<Rightarrow> (string, bool) gomap \<Rightarrow> (string, bool) gomap option"
  and addDepLoop :: "nat \<Rightarrow> modelDataInfo \<Rightarrow> string list \<Rightarrow> (string, bool) gomap \<Rightarrow> (string, bool) gomap option" where
  "addDepTables 0 mi tableName tableMap = None"
| "addDepTables (Suc fuel) mi tableName tableMap =
     (let tableMap1 = mapPut tableName True tableMap
      in do { ti \<leftarrow> mapGet (tableInfo mi) tableName;
              addDepLoop fuel mi (refTables mi ti) tableMap1 })"
| "addDepLoop fuel mi [] tableMap = Some tableMap"
| "addDepLoop fuel mi (t # ts) tableMap =
     do { tableMap1 \<leftarrow> addDepTables fuel mi t tableMap;
          addDepLoop fuel mi ts tableMap1 }"

definition GetDepTables ::
  "nat \<Rightarrow> sorter \<Rightarrow> (string list \<Rightarrow> string list) \<Rightarrow> modelDataInfo \<Rightarrow> string \<Rightarrow>
   (string list option \<times> CVLRetCode) option" where
  "GetDepTables fuel toposort order mi tableName =
     (if \<not> mapHas (tableInfo mi) tableName then Some (Some [], CVL_ERROR)
      else
        do { tblMap \<leftarrow> addDepTables fuel mi tableName [];
             sortTables toposort mi (order (map fst tblMap)) })"

subsection \<open>Entries that depend on an entry\<close>

text \<open>
  The Redis queries: the keys that match a pattern (\<^term>\<open>None\<close>: the query failed), and the comma-separated
  result of the script \<^verbatim>\<open>filter_keys\<close> (\<^term>\<open>None\<close>: an error or nil).
\<close>

record dep_queries =
  keysOfPattern :: "string \<Rightarrow> string list option"
  filterKeys :: "string \<Rightarrow> string \<Rightarrow> string option"

definition fieldFilter :: "string \<Rightarrow> string \<Rightarrow> string" where
  "fieldFilter field key =
     ''return (h.'' @ field @ '' == '' @ [CHR 0x27] @ key @ [CHR 0x27] @ '') or h['' @ [CHR 0x27] @ ''ports@'' @ [CHR 0x27] @
     ''] ~= nil and (string.find(h['' @ [CHR 0x27] @ field @ ''@'' @ [CHR 0x27] @ ''], '' @ [CHR 0x27] @ key @ [CHR 0x27] @ '') ~= nil)''"

text \<open>
  The two maps the first loop fills: for a reference by a key component the pattern of the keys, for one
  by another field the filter.  A table without schema is a nil dereference.
\<close>

fun depMaps ::
  "modelDataInfo \<Rightarrow> string \<Rightarrow> tblFieldPair list \<Rightarrow> (string, string) gomap \<Rightarrow> (string, string) gomap \<Rightarrow>
   ((string, string) gomap \<times> (string, string) gomap) option" where
  "depMaps mi key [] mCmd mFilter = Some (mCmd, mFilter)"
| "depMaps mi key (refTbl # rs) mCmd mFilter =
     do { info \<leftarrow> mapGet (tableInfo mi) (tf_tableName refTbl);
          if tf_field refTbl \<in> set (ti_keys info)
          then depMaps mi key rs (mapPut (tf_tableName refTbl) (tf_tableName refTbl @ ''|*'' @ key @ ''*'') mCmd) mFilter
          else depMaps mi key rs mCmd (mapPut (tf_tableName refTbl) (fieldFilter (tf_field refTbl) key) mFilter) }"

definition keysToChange :: "dep_queries \<Rightarrow> (string, string) gomap \<Rightarrow> string list" where
  "keysToChange Q mFilter =
     concat (map (\<lambda>(t, script).
       case filterKeys Q (t @ ''|*'') script of
         None \<Rightarrow> []
       | Some refKeys \<Rightarrow> if refKeys \<noteq> [] then splitStr refKeys '','' else []) mFilter)"

text \<open>The keys the key patterns find, table by table; a failed query is skipped.\<close>

definition keysFound :: "dep_queries \<Rightarrow> (string, string) gomap \<Rightarrow> string list list" where
  "keysFound Q mCmd = map (\<lambda>(t, pat). case keysOfPattern Q pat of None \<Rightarrow> [] | Some res \<Rightarrow> res) mCmd"

fun GetDepDataForDelete ::
  "nat \<Rightarrow> dep_queries \<Rightarrow> modelDataInfo \<Rightarrow> string \<Rightarrow> (string list \<times> string list) option"
  and depDataLoop ::
  "nat \<Rightarrow> dep_queries \<Rightarrow> modelDataInfo \<Rightarrow> string list \<Rightarrow> (string list \<times> string list) option"
  and depDataTables ::
  "nat \<Rightarrow> dep_queries \<Rightarrow> modelDataInfo \<Rightarrow> string list list \<Rightarrow> (string list \<times> string list) option" where
  "GetDepDataForDelete 0 Q mi redisKey = None"
| "GetDepDataForDelete (Suc fuel) Q mi redisKey =
     (let (tableName, key) = splitRedisKey mi redisKey
      in case mapGet (tableInfo mi) tableName of
           None \<Rightarrow> Some ([], [])
         | Some info \<Rightarrow>
             do { (mCmd, mFilter) \<leftarrow> depMaps mi key (refFromTables info) [] [];
                  (depKeys, mods) \<leftarrow> depDataTables fuel Q mi (keysFound Q mCmd);
                  Some (depKeys, keysToChange Q mFilter @ mods) })"
| "depDataLoop fuel Q mi [] = Some ([], [])"
| "depDataLoop fuel Q mi (k # ks) =
     do { (d, m) \<leftarrow> GetDepDataForDelete fuel Q mi k;
          (ds, ms) \<leftarrow> depDataLoop fuel Q mi ks;
          Some (d @ ds, m @ ms) }"
| "depDataTables fuel Q mi [] = Some ([], [])"
| "depDataTables fuel Q mi (res # rest) =
     do { (d, m) \<leftarrow> depDataLoop fuel Q mi res;
          (ds, ms) \<leftarrow> depDataTables fuel Q mi rest;
          Some (res @ d @ ds, m @ ms) }"

end
