(* ===== verification/Cvl_Schema.thy ===== *)
theory Cvl_Schema
  imports Cvl_Deps
begin

text \<open>
  How the schema maps of \<^verbatim>\<open>cvl.go\<close> are built: \<^verbatim>\<open>storeModelInfo\<close> stores the lists the parser finds in a model
  file, \<^verbatim>\<open>compileLeafRefPath\<close> resolves the leafref paths, and \<^verbatim>\<open>buildRefTableInfo\<close> reverses them.  The parser
  (libyang behind \<^verbatim>\<open>internal/yparser\<close>) is the list of what it returns for each file.
\<close>

text \<open>\<^verbatim>\<open>yparser.YParserListInfo\<close>, as far as the maps of the model keep it.\<close>

record YParserListInfo =
  li_ListName :: string
  li_RedisTableName :: string
  li_Keys :: "string list"
  li_RedisKeyDelim :: string
  li_RedisKeyPattern :: string
  li_RedisTableSize :: int
  li_LeafRef :: "(string, string list) gomap"

definition tableOf :: "string \<Rightarrow> YParserListInfo \<Rightarrow> modelTableInfo" where
  "tableOf model lInfo =
     \<lparr>modelName = model, redisTableName = li_RedisTableName lInfo, ti_keys = li_Keys lInfo,
      redisKeyDelim = li_RedisKeyDelim lInfo, redisKeyPattern = li_RedisKeyPattern lInfo,
      redisTableSize = li_RedisTableSize lInfo,
      leafRef = map (\<lambda>(nodeName, paths).
        (nodeName, map (\<lambda>p. \<lparr>lr_path = p, yangListNames = [], targetNodeName = []\<rparr>) paths)) (li_LeafRef lInfo),
      refFromTables = []\<rparr>"

definition storeList :: "string \<Rightarrow> YParserListInfo \<Rightarrow> modelDataInfo \<Rightarrow> modelDataInfo" where
  "storeList model lInfo mi =
     (let yangList = (case mapGet (redisTableToYangList mi) (li_RedisTableName lInfo) of None \<Rightarrow> [] | Some l \<Rightarrow> l)
      in mi\<lparr>allKeyDelims := mapPut (li_RedisKeyDelim lInfo) True (allKeyDelims mi),
            redisTableToYangList := mapPut (li_RedisTableName lInfo) (yangList @ [li_ListName lInfo]) (redisTableToYangList mi),
            tableInfo := mapPut (li_ListName lInfo) (tableOf model lInfo) (tableInfo mi)\<rparr>)"

text \<open>The model name is the file name up to its first dot; a nil list stores nothing.\<close>

definition storeModelInfo :: "string \<Rightarrow> YParserListInfo list option \<Rightarrow> modelDataInfo \<Rightarrow> modelDataInfo" where
  "storeModelInfo modelFile infos mi =
     (case infos of
        None \<Rightarrow> mi
      | Some ls \<Rightarrow> fold (storeList (hd (splitStr modelFile ''.''))) ls mi)"

definition emptyModel :: modelDataInfo where
  "emptyModel = \<lparr>tableInfo = [], redisTableToYangList = [], allKeyDelims = []\<rparr>"

text \<open>The last loop of \<^verbatim>\<open>loadSchemaFiles\<close>, over the parsed modules.\<close>

definition storeModels :: "(string, YParserListInfo list option) gomap \<Rightarrow> modelDataInfo" where
  "storeModels files = fold (\<lambda>(modelFile, infos). storeModelInfo modelFile infos) files emptyModel"

subsection \<open>Reverse references\<close>

text \<open>\<^term>\<open>None\<close>: the list has no schema (nil dereference).\<close>

definition addReverse :: "tblFieldPair \<Rightarrow> string \<Rightarrow> modelDataInfo \<Rightarrow> modelDataInfo option" where
  "addReverse pair yangListName mi =
     map_option (\<lambda>ti. mi\<lparr>tableInfo := mapPut yangListName (ti\<lparr>refFromTables := refFromTables ti @ [pair]\<rparr>) (tableInfo mi)\<rparr>)
       (mapGet (tableInfo mi) yangListName)"

text \<open>The references the loops visit: the table and field, and the list it names.\<close>

definition reversePairs :: "(string \<times> modelTableInfo) list \<Rightarrow> (tblFieldPair \<times> string) list" where
  "reversePairs tables =
     concat (map (\<lambda>(tblName, ti).
       concat (map (\<lambda>(fieldName, refs).
         concat (map (\<lambda>r. map (\<lambda>l. (\<lparr>tf_tableName = tblName, tf_field = fieldName\<rparr>, l)) (yangListNames r)) refs))
         (leafRef ti))) tables)"

fun addAllReverse :: "(tblFieldPair \<times> string) list \<Rightarrow> modelDataInfo \<Rightarrow> modelDataInfo option" where
  "addAllReverse [] mi = Some mi"
| "addAllReverse ((pair, l) # ps) mi = do { mi1 \<leftarrow> addReverse pair l mi; addAllReverse ps mi1 }"

text \<open>The sorted list: each table of the sorter's result with the first field of it in the old list.\<close>

definition firstField :: "tblFieldPair list \<Rightarrow> string \<Rightarrow> tblFieldPair" where
  "firstField refs t =
     \<lparr>tf_tableName = t, tf_field = (case find (\<lambda>p. t = tf_tableName p) refs of Some p \<Rightarrow> tf_field p | None \<Rightarrow> [])\<rparr>"

definition sortReverse ::
  "sorter \<Rightarrow> (string list \<Rightarrow> string list) \<Rightarrow> string \<Rightarrow> modelDataInfo \<Rightarrow> modelDataInfo option" where
  "sortReverse toposort order tblName mi =
     (case mapGet (tableInfo mi) tblName of
        None \<Rightarrow> None
      | Some ti \<Rightarrow>
          (if refFromTables ti = [] then Some mi
           else
             do { (sorted, _) \<leftarrow> SortDepTables toposort order mi (map tf_tableName (refFromTables ti));
                  case sorted of
                    Some (t # ts) \<Rightarrow>
                      Some (mi\<lparr>tableInfo := mapPut tblName (ti\<lparr>refFromTables := map (firstField (refFromTables ti)) (t # ts)\<rparr>)
                                 (tableInfo mi)\<rparr>)
                  | _ \<Rightarrow> Some mi }))"

fun sortAllReverse ::
  "sorter \<Rightarrow> (string list \<Rightarrow> string list) \<Rightarrow> string list \<Rightarrow> modelDataInfo \<Rightarrow> modelDataInfo option" where
  "sortAllReverse toposort order [] mi = Some mi"
| "sortAllReverse toposort order (t # ts) mi =
     do { mi1 \<leftarrow> sortReverse toposort order t mi; sortAllReverse toposort order ts mi1 }"

definition buildRefTableInfo :: "sorter \<Rightarrow> (string list \<Rightarrow> string list) \<Rightarrow> modelDataInfo \<Rightarrow> modelDataInfo option" where
  "buildRefTableInfo toposort order mi =
     do { mi1 \<leftarrow> addAllReverse (reversePairs (tableInfo mi)) mi;
          sortAllReverse toposort order (map fst (tableInfo mi1)) mi1 }"

text \<open>The schema part of \<^verbatim>\<open>Initialize\<close>, once the files are parsed.\<close>

definition loadSchema ::
  "sorter \<Rightarrow> (string list \<Rightarrow> string list) \<Rightarrow> (string, YParserListInfo list option) gomap \<Rightarrow> modelDataInfo option" where
  "loadSchema toposort order files = buildRefTableInfo toposort order (compileLeafRefPath (storeModels files))"

end
