(* ===== verification/Cvl_Deps_Props.thy ===== *)
theory Cvl_Deps_Props
  imports Cvl_Deps
begin

text \<open>
  What the dependency functions compute: the recursions end exactly when the references they follow have
  no cycle, and then give the closure; the sorted lists put the referring table first.
\<close>

subsection \<open>Recursion over references\<close>

text \<open>
  The contract of a recursion that visits everything an element leads to: \<open>visit n x\<close> is what is visited
  with recursion depth \<open>n\<close>, \<^term>\<open>None\<close> when the depth is not enough or an element is not known.
\<close>

abbreviation leadsTo :: "('a \<Rightarrow> 'a list) \<Rightarrow> ('a \<times> 'a) set" where
  "leadsTo succ \<equiv> {(x, y). y \<in> set (succ x)}"

locale closure_walk =
  fixes known :: "'a \<Rightarrow> bool"
    and succ :: "'a \<Rightarrow> 'a list"
    and visit :: "nat \<Rightarrow> 'a \<Rightarrow> 'a set option"
  assumes visit_0: "visit 0 x = None"
    and visit_Suc: "visit (Suc n) x =
      (if known x \<and> (\<forall>y \<in> set (succ x). visit n y \<noteq> None)
       then Some (insert x (\<Union>y \<in> set (succ x). the (visit n y))) else None)"
begin

lemma reach_unfold: "(leadsTo succ)\<^sup>* `` {x} = insert x (\<Union>y \<in> set (succ x). (leadsTo succ)\<^sup>* `` {y})"
proof -
  have "(x, z) \<in> (leadsTo succ)\<^sup>* \<longleftrightarrow> z = x \<or> (\<exists>y \<in> set (succ x). (y, z) \<in> (leadsTo succ)\<^sup>*)" for z
  proof
    assume "(x, z) \<in> (leadsTo succ)\<^sup>*"
    then show "z = x \<or> (\<exists>y \<in> set (succ x). (y, z) \<in> (leadsTo succ)\<^sup>*)"
      by (cases rule: converse_rtranclE) auto
  next
    assume "z = x \<or> (\<exists>y \<in> set (succ x). (y, z) \<in> (leadsTo succ)\<^sup>*)"
    then show "(x, z) \<in> (leadsTo succ)\<^sup>*"
    proof
      assume "\<exists>y \<in> set (succ x). (y, z) \<in> (leadsTo succ)\<^sup>*"
      then obtain y where "(x, y) \<in> leadsTo succ" "(y, z) \<in> (leadsTo succ)\<^sup>*" by auto
      then show ?thesis by (rule converse_rtrancl_into_rtrancl)
    qed simp
  qed
  then show ?thesis by auto
qed

lemma visit_sound: "visit n x = Some S \<Longrightarrow> S = (leadsTo succ)\<^sup>* `` {x}"
proof (induction n arbitrary: x S)
  case (Suc n)
  then have v: "\<forall>y \<in> set (succ x). visit n y \<noteq> None"
    and S: "S = insert x (\<Union>y \<in> set (succ x). the (visit n y))"
    by (auto simp: visit_Suc split: if_splits)
  have "the (visit n y) = (leadsTo succ)\<^sup>* `` {y}" if "y \<in> set (succ x)" for y
    using Suc.IH [of y "the (visit n y)"] v that by auto
  then show ?case unfolding S reach_unfold [of x] by simp
qed (simp add: visit_0)

lemma visit_cycle:
  assumes "(x, y) \<in> (leadsTo succ)\<^sup>*" "(y, y) \<in> (leadsTo succ)\<^sup>+"
  shows "visit n x = None"
  using assms
proof (induction n arbitrary: x)
  case (Suc n)
  have "\<exists>z \<in> set (succ x). (z, y) \<in> (leadsTo succ)\<^sup>*"
  proof (cases "x = y")
    case True
    then show ?thesis using assms(2) by (auto dest: tranclD)
  next
    case False
    with Suc.prems(1) show ?thesis by (auto elim: converse_rtranclE)
  qed
  then obtain z where "z \<in> set (succ x)" "visit n z = None" using Suc.IH assms(2) by blast
  then show ?case by (auto simp: visit_Suc)
qed (simp add: visit_0)

lemma visit_enough:
  assumes "finite ((leadsTo succ)\<^sup>* `` {x})" "card ((leadsTo succ)\<^sup>* `` {x}) \<le> n"
    "\<And>y. (x, y) \<in> (leadsTo succ)\<^sup>* \<Longrightarrow> known y \<and> (y, y) \<notin> (leadsTo succ)\<^sup>+"
  shows "visit n x = Some ((leadsTo succ)\<^sup>* `` {x})"
proof -
  have "visit n x \<noteq> None" using assms
  proof (induction n arbitrary: x)
    case 0
    then show ?case by auto
  next
    case (Suc n)
    have "visit n y \<noteq> None" if y: "y \<in> set (succ x)" for y
    proof (rule Suc.IH)
      have sub: "(leadsTo succ)\<^sup>* `` {y} \<subseteq> (leadsTo succ)\<^sup>* `` {x}" using y reach_unfold [of x] by blast
      have "x \<notin> (leadsTo succ)\<^sup>* `` {y}"
      proof
        assume "x \<in> (leadsTo succ)\<^sup>* `` {y}"
        then have "(x, x) \<in> (leadsTo succ)\<^sup>+" using y by (auto intro: rtrancl_into_trancl2)
        then show False using Suc.prems(3) by blast
      qed
      then have "(leadsTo succ)\<^sup>* `` {y} \<subset> (leadsTo succ)\<^sup>* `` {x}" using sub by blast
      from psubset_card_mono [OF Suc.prems(1) this] Suc.prems(2)
      show "card ((leadsTo succ)\<^sup>* `` {y}) \<le> n" by linarith
      show "finite ((leadsTo succ)\<^sup>* `` {y})" using sub Suc.prems(1) finite_subset by blast
      show "known z \<and> (z, z) \<notin> (leadsTo succ)\<^sup>+" if "(y, z) \<in> (leadsTo succ)\<^sup>*" for z
      proof (rule Suc.prems(3))
        show "(x, z) \<in> (leadsTo succ)\<^sup>*" using sub that by auto
      qed
    qed
    moreover have "known x" using Suc.prems(3) by blast
    ultimately show ?case by (auto simp: visit_Suc)
  qed
  then obtain S where "visit n x = Some S" by blast
  then show ?thesis using visit_sound by blast
qed

end

subsection \<open>The tables a table depends on\<close>

definition tableRefs :: "modelDataInfo \<Rightarrow> string \<Rightarrow> string list" where
  "tableRefs mi t = (case mapGet (tableInfo mi) t of None \<Rightarrow> [] | Some ti \<Rightarrow> refTables mi ti)"

definition visitTables :: "modelDataInfo \<Rightarrow> nat \<Rightarrow> string \<Rightarrow> string set option" where
  "visitTables mi n t = map_option (\<lambda>m. fst ` set m) (addDepTables n mi t [])"

lemma addDepLoop_keys:
  assumes "\<And>t m. map_option (\<lambda>m. fst ` set m) (addDepTables n mi t m) =
    map_option (\<lambda>S. fst ` set m \<union> S) (visitTables mi n t)"
  shows "map_option (\<lambda>m. fst ` set m) (addDepLoop n mi ts m) =
    (if \<forall>t \<in> set ts. visitTables mi n t \<noteq> None
     then Some (fst ` set m \<union> (\<Union>t \<in> set ts. the (visitTables mi n t))) else None)"
proof (induction ts arbitrary: m)
  case (Cons t ts)
  show ?case
  proof (cases "visitTables mi n t")
    case None
    then have "addDepTables n mi t m = None" using assms [of t m] by simp
    with None show ?thesis by simp
  next
    case (Some S)
    then obtain m1 where "addDepTables n mi t m = Some m1" "fst ` set m1 = fst ` set m \<union> S"
      using assms [of t m] by (cases "addDepTables n mi t m") auto
    with Some Cons.IH [of m1] show ?thesis by (auto simp: Un_assoc)
  qed
qed simp

lemma addDepTables_keys:
  "map_option (\<lambda>m. fst ` set m) (addDepTables n mi t m) = map_option (\<lambda>S. fst ` set m \<union> S) (visitTables mi n t)"
proof (induction n arbitrary: t m)
  case (Suc n)
  show ?case
  proof (cases "mapGet (tableInfo mi) t")
    case (Some ti)
    then show ?thesis
      using addDepLoop_keys [OF Suc.IH, of "refTables mi ti"] by (simp add: visitTables_def Let_def)
  qed (simp add: visitTables_def)
qed (simp add: visitTables_def)

interpretation table_walk: closure_walk "mapHas (tableInfo mi)" "tableRefs mi" "visitTables mi" for mi
proof
  show "visitTables mi 0 x = None" for x by (simp add: visitTables_def)
  show "visitTables mi (Suc n) x =
      (if mapHas (tableInfo mi) x \<and> (\<forall>y \<in> set (tableRefs mi x). visitTables mi n y \<noteq> None)
       then Some (insert x (\<Union>y \<in> set (tableRefs mi x). the (visitTables mi n y))) else None)" for n x
    using addDepLoop_keys [OF addDepTables_keys, where n = n and mi = mi]
    by (cases "mapGet (tableInfo mi) x") (simp_all add: visitTables_def [of mi "Suc n"] tableRefs_def mapHas_def Let_def)
qed

lemma addDepTables_wf:
  "addDepTables n mi t m = Some m' \<Longrightarrow> gomap_wf m \<Longrightarrow> gomap_wf m'"
  "addDepLoop n mi ts m = Some m' \<Longrightarrow> gomap_wf m \<Longrightarrow> gomap_wf m'"
  by (induction n mi t m and n mi ts m arbitrary: m' and m' rule: addDepTables_addDepLoop.induct)
     (auto simp: Let_def bind_eq_Some_conv)

subsection \<open>Edges\<close>

text \<open>Table \<open>b\<close> is named by a leafref of table \<open>a\<close>.\<close>

definition refersTo :: "modelDataInfo \<Rightarrow> string \<Rightarrow> string \<Rightarrow> bool" where
  "refersTo mi a b \<longleftrightarrow>
     (\<exists>info. mapGet (tableInfo mi) a = Some info \<and> (\<exists>r \<in> set (allLeafRefs info). containsStr (lr_path r) (b @ ''_LIST'')))"

lemma addRefEdges_dup:
  "mapGet dup from = Some to \<Longrightarrow> addRefEdges l from to rs dup es = es"
  by (induction rs) auto

lemma addRefEdges_result:
  "addRefEdges l from to rs [] es =
     es @ (if \<exists>r \<in> set rs. containsStr (lr_path r) (l @ ''_LIST'') then [(from, to)] else [])"
  by (induction rs) (auto simp: addRefEdges_dup)

definition redisEdge :: "modelDataInfo \<Rightarrow> string \<Rightarrow> string \<Rightarrow> edge" where
  "redisEdge mi a b = (getYangListToRedisTbl mi a, getYangListToRedisTbl mi b)"

lemma addEdgesTo_result:
  assumes "\<forall>t \<in> set ts. mapHas (tableInfo mi) t"
  shows "\<exists>es'. addEdgesTo mi b ts es = Some es' \<and>
    set es' = set es \<union> {redisEdge mi a b | a. a \<in> set ts \<and> a \<noteq> b \<and> refersTo mi a b}"
  using assms
proof (induction ts arbitrary: es)
  case (Cons a ts)
  then obtain info where info: "mapGet (tableInfo mi) a = Some info" by (auto simp: mapHas_def)
  show ?case
  proof (cases "b = a")
    case True
    then have "{redisEdge mi x b | x. x \<in> set (a # ts) \<and> x \<noteq> b \<and> refersTo mi x b} =
        {redisEdge mi x b | x. x \<in> set ts \<and> x \<noteq> b \<and> refersTo mi x b}" by auto
    then show ?thesis using Cons.IH [of es] Cons.prems True by simp
  next
    case False
    define es1 where "es1 = addRefEdges b (getYangListToRedisTbl mi a) (getYangListToRedisTbl mi b) (allLeafRefs info) [] es"
    have "set es1 = set es \<union> {redisEdge mi a b | x. x = a \<and> refersTo mi a b}"
      using info by (auto simp: es1_def addRefEdges_result redisEdge_def refersTo_def)
    moreover obtain es' where "addEdgesTo mi b ts es1 = Some es'"
      "set es' = set es1 \<union> {redisEdge mi a b | a. a \<in> set ts \<and> a \<noteq> b \<and> refersTo mi a b}"
      using Cons.IH [of es1] Cons.prems by auto
    ultimately show ?thesis using False info by (auto simp: es1_def [symmetric])
  qed
qed simp

lemma addEdgesLoop_result:
  assumes "\<forall>t \<in> set ts. mapHas (tableInfo mi) t"
  shows "\<exists>es'. addEdgesLoop mi bs ts es = Some es' \<and>
    set es' = set es \<union> {redisEdge mi a b | a b. a \<in> set ts \<and> b \<in> set bs \<and> a \<noteq> b \<and> refersTo mi a b}"
proof (induction bs arbitrary: es)
  case (Cons b bs)
  obtain es1 where 1: "addEdgesTo mi b ts es = Some es1"
    "set es1 = set es \<union> {redisEdge mi a b | a. a \<in> set ts \<and> a \<noteq> b \<and> refersTo mi a b}"
    using addEdgesTo_result [OF assms] by blast
  obtain es' where 2: "addEdgesLoop mi bs ts es1 = Some es'"
    "set es' = set es1 \<union> {redisEdge mi a b | a b. a \<in> set ts \<and> b \<in> set bs \<and> a \<noteq> b \<and> refersTo mi a b}"
    using Cons.IH by blast
  show ?case
  proof (intro exI conjI)
    show "addEdgesLoop mi (b # bs) ts es = Some es'" using 1 2 by simp
    show "set es' = set es \<union> {redisEdge mi a b' | a b'. a \<in> set ts \<and> b' \<in> set (b # bs) \<and> a \<noteq> b' \<and> refersTo mi a b'}"
      unfolding 1(2) 2(2) by auto
  qed
qed simp

lemma addDepEdges_result:
  assumes "\<forall>t \<in> set ts. mapHas (tableInfo mi) t"
  obtains es where "addDepEdges mi ts = Some es"
    "set es = {redisEdge mi a b | a b. a \<in> set ts \<and> b \<in> set ts \<and> a \<noteq> b \<and> refersTo mi a b}"
  using addEdgesLoop_result [OF assms, of ts "[]"] by (auto simp: addDepEdges_def)

subsection \<open>Sorting\<close>

definition before :: "'a list \<Rightarrow> 'a \<Rightarrow> 'a \<Rightarrow> bool" where
  "before l a b \<longleftrightarrow> (\<exists>xs ys zs. l = xs @ a # ys @ b # zs)"

text \<open>The documented behaviour of the sorter: an order of the nodes along the edges, or a cycle.\<close>

definition sorter_ok :: "sorter \<Rightarrow> bool" where
  "sorter_ok T \<longleftrightarrow>
     (\<forall>nodes es. distinct nodes \<longrightarrow> set es \<subseteq> set nodes \<times> set nodes \<longrightarrow>
        (case T nodes es of
           Some l \<Rightarrow> distinct l \<and> set l = set nodes \<and> (\<forall>(a, b) \<in> set es. before l a b)
         | None \<Rightarrow> \<not> acyclic (set es)))"

definition ownTables :: "modelDataInfo \<Rightarrow> string set \<Rightarrow> bool" where
  "ownTables mi ts \<longleftrightarrow> (\<forall>t \<in> ts. getYangListToRedisTbl mi t = t)"

text \<open>The reference relation on a set of tables, and what sorting them along it means.\<close>

definition refEdges :: "modelDataInfo \<Rightarrow> string set \<Rightarrow> edge set" where
  "refEdges mi ts = {(a, b). a \<in> ts \<and> b \<in> ts \<and> a \<noteq> b \<and> refersTo mi a b}"

definition sortedTables :: "modelDataInfo \<Rightarrow> string set \<Rightarrow> string list option \<times> CVLRetCode \<Rightarrow> bool" where
  "sortedTables mi ts r \<longleftrightarrow>
     (case r of
        (Some l, ret) \<Rightarrow> ret = CVL_SUCCESS \<and> distinct l \<and> set l = ts \<and> (\<forall>(a, b) \<in> refEdges mi ts. before l a b)
      | (None, ret) \<Rightarrow> ret = CVL_ERROR \<and> \<not> acyclic (refEdges mi ts))"

lemma sortTables_sorted:
  assumes "sorter_ok T" "distinct ts" "\<forall>t \<in> set ts. mapHas (tableInfo mi) t" "ownTables mi (set ts)"
  shows "\<exists>r. sortTables T mi ts = Some r \<and> sortedTables mi (set ts) r"
proof -
  obtain es where es: "addDepEdges mi ts = Some es"
    "set es = {redisEdge mi a b | a b. a \<in> set ts \<and> b \<in> set ts \<and> a \<noteq> b \<and> refersTo mi a b}"
    using addDepEdges_result [OF assms(3)] by blast
  have "redisEdge mi a b = (a, b)" if "a \<in> set ts" "b \<in> set ts" for a b
    using assms(4) that by (simp add: ownTables_def redisEdge_def)
  then have "(\<exists>a b. x = redisEdge mi a b \<and> a \<in> set ts \<and> b \<in> set ts \<and> a \<noteq> b \<and> refersTo mi a b) \<longleftrightarrow>
      x \<in> refEdges mi (set ts)" for x
    by (cases x) (auto simp: refEdges_def, metis)
  then have e: "set es = refEdges mi (set ts)" unfolding es(2) by (intro set_eqI) (simp only: mem_Collect_eq)
  then have "set es \<subseteq> set ts \<times> set ts" by (auto simp: refEdges_def)
  with assms(1,2) have "case T ts es of
      Some l \<Rightarrow> distinct l \<and> set l = set ts \<and> (\<forall>(a, b) \<in> set es. before l a b)
    | None \<Rightarrow> \<not> acyclic (set es)"
    unfolding sorter_ok_def by blast
  then show ?thesis using es(1) e by (cases "T ts es") (auto simp: sortTables_def sortedTables_def)
qed

lemma knownTables_result:
  "gomap_wf (knownTables mi ts)" "fst ` set (knownTables mi ts) = {t \<in> set ts. mapHas (tableInfo mi) t}"
proof -
  let ?f = "\<lambda>t m. if mapHas (tableInfo mi) t then mapPut t True m else m"
  have "gomap_wf m \<Longrightarrow> gomap_wf (fold ?f ts m)" for m by (induction ts arbitrary: m) auto
  then show "gomap_wf (knownTables mi ts)" by (simp add: knownTables_def)
  have "fst ` set (fold ?f ts m) = fst ` set m \<union> {t \<in> set ts. mapHas (tableInfo mi) t}" for m
    by (induction ts arbitrary: m) auto
  then show "fst ` set (knownTables mi ts) = {t \<in> set ts. mapHas (tableInfo mi) t}" by (simp add: knownTables_def)
qed

lemma order_list:
  assumes "\<And>l :: string list. mset (order l) = mset l" "distinct l"
  shows "distinct (order l)" "set (order l) = set l"
  using assms by (metis mset_eq_imp_distinct_iff, metis set_mset_mset)

lemma SortDepTables_sorted:
  assumes "sorter_ok T" "\<And>l. mset (order l) = mset l"
    "ownTables mi {t \<in> set ts. mapHas (tableInfo mi) t}"
  shows "\<exists>r. SortDepTables T order mi ts = Some r \<and> sortedTables mi {t \<in> set ts. mapHas (tableInfo mi) t} r"
proof -
  let ?l = "order (map fst (knownTables mi ts))"
  have l: "distinct ?l" "set ?l = {t \<in> set ts. mapHas (tableInfo mi) t}"
    using order_list [OF assms(2) knownTables_result(1)] knownTables_result(2) [of mi ts] by auto
  show ?thesis
    using sortTables_sorted [OF assms(1) l(1)] assms(3) unfolding SortDepTables_def l(2) by simp
qed



subsection \<open>Entries to delete\<close>

definition keyRefs :: "dep_queries \<Rightarrow> modelDataInfo \<Rightarrow> string \<Rightarrow> string list" where
  "keyRefs Q mi redisKey =
     (let (tableName, key) = splitRedisKey mi redisKey
      in case mapGet (tableInfo mi) tableName of
           None \<Rightarrow> []
         | Some info \<Rightarrow>
             (case depMaps mi key (refFromTables info) [] [] of
                None \<Rightarrow> []
              | Some (mCmd, mFilter) \<Rightarrow> concat (keysFound Q mCmd)))"

text \<open>The tables that refer to the table of an entry have a schema.\<close>

definition refsKnown :: "modelDataInfo \<Rightarrow> string \<Rightarrow> bool" where
  "refsKnown mi redisKey =
     (let (tableName, key) = splitRedisKey mi redisKey
      in case mapGet (tableInfo mi) tableName of
           None \<Rightarrow> True
         | Some info \<Rightarrow> depMaps mi key (refFromTables info) [] [] \<noteq> None)"

definition visitKeys :: "dep_queries \<Rightarrow> modelDataInfo \<Rightarrow> nat \<Rightarrow> string \<Rightarrow> string set option" where
  "visitKeys Q mi n k = map_option (\<lambda>(d, m). insert k (set d)) (GetDepDataForDelete n Q mi k)"

lemma depDataLoop_keys:
  "map_option (\<lambda>(d, m). set ks \<union> set d) (depDataLoop n Q mi ks) =
     (if \<forall>k \<in> set ks. visitKeys Q mi n k \<noteq> None then Some (\<Union>k \<in> set ks. the (visitKeys Q mi n k)) else None)"
proof (induction ks)
  case (Cons k ks)
  show ?case
  proof (cases "GetDepDataForDelete n Q mi k")
    case None
    then show ?thesis by (simp add: visitKeys_def)
  next
    case (Some p)
    then obtain d m where p: "GetDepDataForDelete n Q mi k = Some (d, m)" by (cases p) auto
    have v: "visitKeys Q mi n k = Some (insert k (set d))" by (simp add: visitKeys_def p)
    show ?thesis
    proof (cases "depDataLoop n Q mi ks")
      case None
      then have "\<exists>k' \<in> set ks. visitKeys Q mi n k' = None" using Cons.IH by (auto split: if_splits)
      then show ?thesis using None p by auto
    next
      case (Some r)
      then show ?thesis using Cons.IH p v by (cases r) (auto split: if_splits)
    qed
  qed
qed simp

lemma depDataTables_keys:
  "map_option (\<lambda>(d, m). set d) (depDataTables n Q mi rss) =
     (if \<forall>k \<in> set (concat rss). visitKeys Q mi n k \<noteq> None
      then Some (\<Union>k \<in> set (concat rss). the (visitKeys Q mi n k)) else None)"
proof (induction rss)
  case (Cons ks rss)
  show ?case
  proof (cases "depDataLoop n Q mi ks")
    case None
    then have "\<exists>k \<in> set ks. visitKeys Q mi n k = None" using depDataLoop_keys [of ks n Q mi] by (auto split: if_splits)
    then show ?thesis using None by auto
  next
    case (Some p)
    then obtain d m where p: "depDataLoop n Q mi ks = Some (d, m)" by (cases p) auto
    then have k: "\<forall>k \<in> set ks. visitKeys Q mi n k \<noteq> None" "set ks \<union> set d = (\<Union>k \<in> set ks. the (visitKeys Q mi n k))"
      using depDataLoop_keys [of ks n Q mi] by (auto split: if_splits)
    show ?thesis
    proof (cases "depDataTables n Q mi rss")
      case None
      then have "\<exists>k' \<in> set (concat rss). visitKeys Q mi n k' = None" using Cons.IH by (auto split: if_splits)
      then show ?thesis using None p by auto
    next
      case (Some r)
      then obtain d' m' where r: "depDataTables n Q mi rss = Some (d', m')" by (cases r) auto
      then have k': "\<forall>k \<in> set (concat rss). visitKeys Q mi n k \<noteq> None"
        "set d' = (\<Union>k \<in> set (concat rss). the (visitKeys Q mi n k))"
        using Cons.IH by (auto split: if_splits)
      have "set ks \<union> (set d \<union> set d') = (\<Union>k \<in> set ks. the (visitKeys Q mi n k)) \<union> (\<Union>k \<in> set (concat rss). the (visitKeys Q mi n k))"
        using k(2) k'(2) by (simp add: Un_assoc [symmetric])
      then show ?thesis using p r k(1) k'(1) by auto
    qed
  qed
qed simp

lemma visitKeys_Suc:
  "map_option (\<lambda>(d, m). set d) (GetDepDataForDelete (Suc n) Q mi k) =
     (if refsKnown mi k \<and> (\<forall>y \<in> set (keyRefs Q mi k). visitKeys Q mi n y \<noteq> None)
      then Some (\<Union>y \<in> set (keyRefs Q mi k). the (visitKeys Q mi n y)) else None)"
proof -
  obtain t key where s: "splitRedisKey mi k = (t, key)" by (cases "splitRedisKey mi k")
  show ?thesis
  proof (cases "mapGet (tableInfo mi) t")
    case None
    then show ?thesis by (simp add: s refsKnown_def keyRefs_def)
  next
    case (Some info)
    show ?thesis
    proof (cases "depMaps mi key (refFromTables info) [] []")
      case None
      with Some show ?thesis by (simp add: s refsKnown_def)
    next
      case (Some p)
      then obtain mCmd mFilter where p: "depMaps mi key (refFromTables info) [] [] = Some (mCmd, mFilter)" by (cases p) auto
      have "map_option (\<lambda>(d, m). set d) (GetDepDataForDelete (Suc n) Q mi k) =
          map_option (\<lambda>(d, m). set d) (depDataTables n Q mi (keysFound Q mCmd))"
        using \<open>mapGet (tableInfo mi) t = Some info\<close> p
        by (cases "depDataTables n Q mi (keysFound Q mCmd)") (auto simp: s)
      moreover have "keyRefs Q mi k = concat (keysFound Q mCmd)" "refsKnown mi k"
        using \<open>mapGet (tableInfo mi) t = Some info\<close> p by (simp_all add: s keyRefs_def refsKnown_def)
      ultimately show ?thesis by (simp only: depDataTables_keys) simp
    qed
  qed
qed

interpretation key_walk: closure_walk "refsKnown mi" "keyRefs Q mi" "visitKeys Q mi" for Q mi
proof
  show "visitKeys Q mi 0 x = None" for x by (simp add: visitKeys_def)
  show "visitKeys Q mi (Suc n) x =
      (if refsKnown mi x \<and> (\<forall>y \<in> set (keyRefs Q mi x). visitKeys Q mi n y \<noteq> None)
       then Some (insert x (\<Union>y \<in> set (keyRefs Q mi x). the (visitKeys Q mi n y))) else None)" for n x
  proof -
    have "visitKeys Q mi (Suc n) x = map_option (insert x) (map_option (\<lambda>(d, m). set d) (GetDepDataForDelete (Suc n) Q mi x))"
      by (cases "GetDepDataForDelete (Suc n) Q mi x")
         (auto simp: visitKeys_def simp del: GetDepDataForDelete.simps)
    then show ?thesis unfolding visitKeys_Suc by simp
  qed
qed


subsection \<open>A sorter and a schema\<close>

text \<open>Take a node without predecessor among those that are left, until none is left.\<close>

fun takeFree :: "nat \<Rightarrow> string list \<Rightarrow> edge list \<Rightarrow> string list option" where
  "takeFree 0 nodes es = (if nodes = [] then Some [] else None)"
| "takeFree (Suc n) nodes es =
     (if nodes = [] then Some []
      else case find (\<lambda>x. \<not> list_ex (\<lambda>(a, b). b = x \<and> a \<in> set nodes) es) nodes of
             None \<Rightarrow> None
           | Some x \<Rightarrow> map_option ((#) x) (takeFree n (remove1 x nodes) es))"

definition sampleSort :: sorter where
  "sampleSort nodes es = takeFree (length nodes) nodes es"

lemma before_Cons: "before l a b \<Longrightarrow> before (x # l) a b"
  unfolding before_def by (metis append_Cons)

lemma takeFree_Some:
  assumes "distinct nodes" "length nodes \<le> n" "takeFree n nodes es = Some l"
  shows "distinct l \<and> set l = set nodes \<and> (\<forall>(a, b) \<in> set es. a \<in> set nodes \<longrightarrow> b \<in> set nodes \<longrightarrow> before l a b)"
  using assms
proof (induction n arbitrary: nodes l)
  case (Suc n)
  show ?case
  proof (cases "nodes = []")
    case True
    then show ?thesis using Suc.prems(3) by auto
  next
    case False
    then obtain x l' where x: "find (\<lambda>x. \<not> list_ex (\<lambda>(a, b). b = x \<and> a \<in> set nodes) es) nodes = Some x"
      "takeFree n (remove1 x nodes) es = Some l'" "l = x # l'"
      using Suc.prems(3) by (auto split: option.splits)
    have xin: "x \<in> set nodes" and free: "\<forall>(a, b) \<in> set es. b = x \<longrightarrow> a \<notin> set nodes"
      using x(1) by (auto simp: find_Some_iff list_ex_iff)
    have "length (remove1 x nodes) \<le> n" using xin Suc.prems(2) by (simp add: length_remove1)
    with Suc.IH [OF _ this x(2)] Suc.prems(1) have IH: "distinct l'" "set l' = set nodes - {x}"
      "\<forall>(a, b) \<in> set es. a \<in> set nodes - {x} \<longrightarrow> b \<in> set nodes - {x} \<longrightarrow> before l' a b" by auto
    have "before l a b" if e: "(a, b) \<in> set es" "a \<in> set nodes" "b \<in> set nodes" for a b
    proof -
      have b: "b \<in> set l'" using free e IH(2) by auto
      show ?thesis
      proof (cases "a = x")
        case True
        then show ?thesis using split_list [OF b] x(3) unfolding before_def by (metis append_Nil)
      next
        case False
        then show ?thesis using IH(2,3) e b x(3) by (auto intro: before_Cons)
      qed
    qed
    then show ?thesis using IH x(3) xin by auto
  qed
qed auto

lemma takeFree_None:
  assumes "distinct nodes" "length nodes \<le> n" "takeFree n nodes es = None"
  shows "\<not> acyclic (set es)"
  using assms
proof (induction n arbitrary: nodes)
  case (Suc n)
  then have ne: "nodes \<noteq> []" by auto
  show ?case
  proof (cases "find (\<lambda>x. \<not> list_ex (\<lambda>(a, b). b = x \<and> a \<in> set nodes) es) nodes")
    case None
    then have pre: "\<forall>x \<in> set nodes. \<exists>a \<in> set nodes. (a, x) \<in> set es" by (auto simp: find_None_iff list_ex_iff)
    show ?thesis
    proof
      assume "acyclic (set es)"
      then have "wf (set es)" by (rule finite_acyclic_wf [OF finite_set])
      moreover obtain x where "x \<in> set nodes" using ne by (cases nodes) auto
      ultimately obtain z where "z \<in> set nodes" "\<And>a. (a, z) \<in> set es \<Longrightarrow> a \<notin> set nodes" by (rule wfE_min) blast
      with pre show False by blast
    qed
  next
    case (Some x)
    then have "x \<in> set nodes" by (auto simp: find_Some_iff)
    then have "length (remove1 x nodes) \<le> n" using Suc.prems(2) by (simp add: length_remove1)
    then show ?thesis using Suc.IH [of "remove1 x nodes"] Suc.prems(1,3) ne Some by auto
  qed
qed auto

lemma sorter_ok_sample: "sorter_ok sampleSort"
  unfolding sorter_ok_def sampleSort_def
proof (intro allI impI)
  fix nodes :: "string list" and es assume a: "distinct nodes" "set es \<subseteq> set nodes \<times> set nodes"
  show "case takeFree (length nodes) nodes es of
      Some l \<Rightarrow> distinct l \<and> set l = set nodes \<and> (\<forall>(a, b) \<in> set es. before l a b)
    | None \<Rightarrow> \<not> acyclic (set es)"
    using takeFree_Some [OF a(1) order_refl] takeFree_None [OF a(1) order_refl] a(2)
    by (cases "takeFree (length nodes) nodes es") fastforce+
qed

text \<open>A rule belongs to an ACL table, a table is bound to ports.\<close>

definition sampleInfo :: "string list \<Rightarrow> (string \<times> string \<times> string) list \<Rightarrow> tblFieldPair list \<Rightarrow> modelTableInfo" where
  "sampleInfo keys refs from =
     \<lparr>modelName = ''sonic-acl'', redisTableName = [], ti_keys = keys, redisKeyDelim = ''|'',
      redisKeyPattern = [], redisTableSize = -1,
      leafRef = map (\<lambda>(f, p, t). (f, [\<lparr>lr_path = p, yangListNames = [t], targetNodeName = f\<rparr>])) refs,
      refFromTables = from\<rparr>"

definition sampleModel :: modelDataInfo where
  "sampleModel =
     \<lparr>tableInfo =
        [(''PORT'', sampleInfo [''ifname''] [] [\<lparr>tf_tableName = ''ACL_TABLE'', tf_field = ''ports''\<rparr>]),
         (''ACL_TABLE'', sampleInfo [''aclname''] [(''ports'', ''/PORT/PORT_LIST/ifname'', ''PORT'')]
            [\<lparr>tf_tableName = ''ACL_RULE'', tf_field = ''aclname''\<rparr>]),
         (''ACL_RULE'', sampleInfo [''aclname'', ''rulename''] [(''aclname'', ''/ACL_TABLE/ACL_TABLE_LIST/aclname'', ''ACL_TABLE'')] [])],
      redisTableToYangList = [], allKeyDelims = [(''|'', True)]\<rparr>"


text \<open>The references of the sample: each step leads to a smaller table.\<close>

lemma sample_steps:
  "(t, u) \<in> leadsTo (tableRefs sampleModel) \<longleftrightarrow> (t, u) \<in> {(''ACL_RULE'', ''ACL_TABLE''), (''ACL_TABLE'', ''PORT'')}"
proof -
  have "u \<in> set (tableRefs sampleModel t) \<longleftrightarrow>
      t = ''ACL_RULE'' \<and> u = ''ACL_TABLE'' \<or> t = ''ACL_TABLE'' \<and> u = ''PORT''"
    by (simp add: tableRefs_def sampleModel_def sampleInfo_def refTables_def allLeafRefs_def getYangListToRedisTbl_def
        hasSuffix_def)
  then show ?thesis by simp
qed


definition sampleQueries :: dep_queries where
  "sampleQueries = \<lparr>keysOfPattern = (\<lambda>pat. if pat = ''ACL_RULE|*T1*'' then Some [''ACL_RULE|T1|R1'', ''ACL_RULE|T1|R2''] else Some []),
     filterKeys = (\<lambda>_ _. None)\<rparr>"


end
