(* ===== verification/Cvl_Schema_Props.thy ===== *)
theory Cvl_Schema_Props
  imports Cvl_Schema Cvl_Deps_Props
begin

text \<open>
  The loaded schema: its maps agree with each other, and \<^verbatim>\<open>refFromTables\<close> holds, for every table, the tables
  whose leafrefs name it.
\<close>

subsection \<open>What the reverse references do not change\<close>

text \<open>The schema without the reverse references.\<close>

definition coreTables :: "(string \<times> modelTableInfo) list \<Rightarrow> (string \<times> modelTableInfo) list" where
  "coreTables ts = map (\<lambda>(t, ti). (t, ti\<lparr>refFromTables := []\<rparr>)) ts"

definition core :: "modelDataInfo \<Rightarrow> modelDataInfo" where
  "core mi = mi\<lparr>tableInfo := coreTables (tableInfo mi)\<rparr>"

lemma coreTables_get: "mapGet (coreTables ts) t = map_option (\<lambda>ti. ti\<lparr>refFromTables := []\<rparr>) (mapGet ts t)"
  by (induction ts) (auto simp: coreTables_def)

lemma coreTables_put:
  "mapGet ts t = Some ti \<Longrightarrow> coreTables (mapPut t (ti\<lparr>refFromTables := x\<rparr>) ts) = coreTables ts"
  by (induction ts) (auto simp: coreTables_def mapPut_def)

lemma coreTables_fst [simp]: "map fst (coreTables ts) = map fst ts"
  by (simp add: coreTables_def split_def)

lemma core_put:
  "mapGet (tableInfo mi) t = Some ti \<Longrightarrow>
   core (mi\<lparr>tableInfo := mapPut t (ti\<lparr>refFromTables := x\<rparr>) (tableInfo mi)\<rparr>) = core mi"
  by (simp add: core_def coreTables_put)

lemma core_fst: "core mi = core mi' \<Longrightarrow> map fst (tableInfo mi) = map fst (tableInfo mi')"
  unfolding core_def by (metis coreTables_fst modelDataInfo.select_convs(1) modelDataInfo.surjective modelDataInfo.update_convs(1))

lemma core_has: "mapHas (tableInfo (core mi)) t = mapHas (tableInfo mi) t"
  by (simp add: core_def mapHas_def coreTables_get)

lemma core_redis: "getYangListToRedisTbl (core mi) t = getYangListToRedisTbl mi t"
  by (simp add: getYangListToRedisTbl_def core_def coreTables_get Let_def split: option.split)

lemma core_refs:
  "map_option allLeafRefs (mapGet (tableInfo (core mi)) t) = map_option allLeafRefs (mapGet (tableInfo mi) t)"
  by (cases "mapGet (tableInfo mi) t") (simp_all add: core_def coreTables_get allLeafRefs_def)

lemma core_edges: "addEdgesTo (core mi) ti ts es = addEdgesTo mi ti ts es"
proof (induction ts arbitrary: es)
  case (Cons tj ts)
  then show ?case using core_refs [of mi tj]
    by (cases "mapGet (tableInfo mi) tj"; cases "mapGet (tableInfo (core mi)) tj") (auto simp: core_redis)
qed simp

lemma core_sort: "SortDepTables T order (core mi) ts = SortDepTables T order mi ts"
proof -
  have "addEdgesLoop (core mi) bs l es = addEdgesLoop mi bs l es" for bs l es
  proof (induction bs arbitrary: es)
    case (Cons b bs)
    then show ?case by (cases "addEdgesTo mi b l es") (simp_all add: core_edges)
  qed simp
  then have "sortTables T (core mi) l = sortTables T mi l" for l
    by (simp add: sortTables_def addDepEdges_def)
  moreover have "knownTables (core mi) ts = knownTables mi ts" by (simp add: knownTables_def core_has)
  ultimately show ?thesis by (simp add: SortDepTables_def)
qed

lemma core_own: "core mi = core mi' \<Longrightarrow> ownTables mi ts = ownTables mi' ts"
  unfolding ownTables_def by (metis core_redis)

lemma core_sort_cong: "core mi = core mi' \<Longrightarrow> SortDepTables T order mi = SortDepTables T order mi'"
  by (intro ext) (metis core_sort)

lemma core_has_cong: "core mi = core mi' \<Longrightarrow> mapHas (tableInfo mi) = mapHas (tableInfo mi')"
  by (intro ext) (metis core_has)

subsection \<open>Reversing\<close>

lemma addAllReverse_result:
  assumes "\<forall>(pair, l) \<in> set ps. mapHas (tableInfo mi) l"
  shows "\<exists>mi'. addAllReverse ps mi = Some mi' \<and> core mi' = core mi \<and>
    (\<forall>t. mapGet (tableInfo mi') t = map_option (\<lambda>ti.
       ti\<lparr>refFromTables := refFromTables ti @ map fst (filter (\<lambda>(_, l). l = t) ps)\<rparr>) (mapGet (tableInfo mi) t))"
  using assms
proof (induction ps arbitrary: mi)
  case Nil
  have "map_option (\<lambda>ti. ti) m = m" for m :: "modelTableInfo option" by (cases m) auto
  then show ?case by simp
next
  case (Cons p ps)
  obtain pair l where [simp]: "p = (pair, l)" by (cases p)
  from Cons.prems obtain ti where ti: "mapGet (tableInfo mi) l = Some ti" by (auto simp: mapHas_def)
  define mi1 where "mi1 = mi\<lparr>tableInfo := mapPut l (ti\<lparr>refFromTables := refFromTables ti @ [pair]\<rparr>) (tableInfo mi)\<rparr>"
  have c: "core mi1 = core mi" using ti by (simp add: mi1_def core_put)
  have "\<forall>(pair, l) \<in> set ps. mapHas (tableInfo mi1) l" using Cons.prems core_has_cong [OF c] by auto
  from Cons.IH [OF this] obtain mi' where m: "addAllReverse ps mi1 = Some mi'" "core mi' = core mi1"
    "\<forall>t. mapGet (tableInfo mi') t = map_option (\<lambda>ti.
       ti\<lparr>refFromTables := refFromTables ti @ map fst (filter (\<lambda>(_, l). l = t) ps)\<rparr>) (mapGet (tableInfo mi1) t)"
    by blast
  have "addAllReverse (p # ps) mi = Some mi'" using ti m(1) by (simp add: addReverse_def mi1_def)
  moreover have "mapGet (tableInfo mi') t = map_option (\<lambda>ti.
       ti\<lparr>refFromTables := refFromTables ti @ map fst (filter (\<lambda>(_, l). l = t) (p # ps))\<rparr>) (mapGet (tableInfo mi) t)" for t
    using m(3) ti by (cases "mapGet (tableInfo mi) t") (auto simp: mi1_def)
  ultimately show ?case using m(2) c by auto
qed


subsection \<open>Sorting the reverse references\<close>

definition sortedRefs ::
  "sorter \<Rightarrow> (string list \<Rightarrow> string list) \<Rightarrow> modelDataInfo \<Rightarrow> tblFieldPair list \<Rightarrow> tblFieldPair list" where
  "sortedRefs T order mi refs =
     (if refs = [] then []
      else case SortDepTables T order mi (map tf_tableName refs) of
             Some (Some (t # ts), _) \<Rightarrow> map (firstField refs) (t # ts)
           | _ \<Rightarrow> refs)"

lemma SortDepTables_total:
  assumes "\<And>l. mset (order l) = mset l"
  shows "SortDepTables T order mi ts \<noteq> None"
proof -
  have k: "set (order (map fst (knownTables mi ts))) = {t \<in> set ts. mapHas (tableInfo mi) t}"
    unfolding order_list(2) [OF assms knownTables_result(1)] set_map by (rule knownTables_result(2))
  have *: "\<forall>t \<in> set (order (map fst (knownTables mi ts))). mapHas (tableInfo mi) t" unfolding k by simp
  obtain es where "addDepEdges mi (order (map fst (knownTables mi ts))) = Some es"
    by (rule addDepEdges_result [OF *]) (rule that)
  then show ?thesis by (simp add: SortDepTables_def sortTables_def)
qed

lemma sortReverse_result:
  assumes "\<And>l. mset (order l) = mset l" "mapGet (tableInfo mi) t = Some ti"
  shows "\<exists>mi'. sortReverse T order t mi = Some mi' \<and> core mi' = core mi \<and>
    (\<forall>u. mapGet (tableInfo mi') u = (if u = t then Some (ti\<lparr>refFromTables := sortedRefs T order mi (refFromTables ti)\<rparr>)
       else mapGet (tableInfo mi) u))"
proof -
  obtain sorted ret where s: "SortDepTables T order mi (map tf_tableName (refFromTables ti)) = Some (sorted, ret)"
    using SortDepTables_total [OF assms(1)] by fast
  have keep: "ti\<lparr>refFromTables := refFromTables ti\<rparr> = ti" by simp
  show ?thesis
  proof (cases "refFromTables ti = [] \<or> sorted = None \<or> sorted = Some []")
    case True
    then have "sortReverse T order t mi = Some mi" using assms(2) s by (auto simp: sortReverse_def)
    moreover have "sortedRefs T order mi (refFromTables ti) = refFromTables ti"
      using True s by (auto simp: sortedRefs_def)
    ultimately show ?thesis using assms(2) by simp
  next
    case False
    then obtain x xs where x: "sorted = Some (x # xs)" by (cases sorted) (auto simp: neq_Nil_conv)
    let ?new = "map (firstField (refFromTables ti)) (x # xs)"
    have "sortReverse T order t mi = Some (mi\<lparr>tableInfo := mapPut t (ti\<lparr>refFromTables := ?new\<rparr>) (tableInfo mi)\<rparr>)"
      using assms(2) s x False by (simp add: sortReverse_def)
    moreover have "sortedRefs T order mi (refFromTables ti) = ?new" using s x False by (simp add: sortedRefs_def)
    ultimately show ?thesis using core_put [OF assms(2)] by simp
  qed
qed

lemma sortedRefs_cong: "core mi = core mi' \<Longrightarrow> sortedRefs T order mi = sortedRefs T order mi'"
  using core_sort_cong [of mi mi' T order] by (simp add: sortedRefs_def fun_eq_iff)

lemma sortAllReverse_result:
  assumes "\<And>l. mset (order l) = mset l" "distinct ts" "\<forall>t \<in> set ts. mapHas (tableInfo mi) t"
  shows "\<exists>mi'. sortAllReverse T order ts mi = Some mi' \<and> core mi' = core mi \<and>
    (\<forall>u. mapGet (tableInfo mi') u =
       (if u \<in> set ts then map_option (\<lambda>ti. ti\<lparr>refFromTables := sortedRefs T order mi (refFromTables ti)\<rparr>) (mapGet (tableInfo mi) u)
        else mapGet (tableInfo mi) u))"
  using assms(2,3)
proof (induction ts arbitrary: mi)
  case (Cons t ts)
  from Cons.prems obtain ti where ti: "mapGet (tableInfo mi) t = Some ti" by (auto simp: mapHas_def)
  from sortReverse_result [OF assms(1) ti, of T] obtain mi1 where
    1: "sortReverse T order t mi = Some mi1" "core mi1 = core mi"
    "\<forall>u. mapGet (tableInfo mi1) u = (if u = t then Some (ti\<lparr>refFromTables := sortedRefs T order mi (refFromTables ti)\<rparr>)
       else mapGet (tableInfo mi) u)" by blast
  have "\<forall>t \<in> set ts. mapHas (tableInfo mi1) t" using Cons.prems(2) core_has_cong [OF 1(2)] by simp
  with Cons.IH [of mi1] Cons.prems(1) obtain mi' where
    2: "sortAllReverse T order ts mi1 = Some mi'" "core mi' = core mi1"
    "\<forall>u. mapGet (tableInfo mi') u =
       (if u \<in> set ts then map_option (\<lambda>ti. ti\<lparr>refFromTables := sortedRefs T order mi1 (refFromTables ti)\<rparr>) (mapGet (tableInfo mi1) u)
        else mapGet (tableInfo mi1) u)" by auto
  have "mapGet (tableInfo mi') u =
       (if u \<in> set (t # ts) then map_option (\<lambda>ti. ti\<lparr>refFromTables := sortedRefs T order mi (refFromTables ti)\<rparr>) (mapGet (tableInfo mi) u)
        else mapGet (tableInfo mi) u)" for u
    using 1(3) 2(3) ti Cons.prems(1) sortedRefs_cong [OF 1(2), of T order] by (cases "u = t") auto
  with 1 2 show ?case by auto
qed simp

text \<open>Sorting loses no table, and keeps for each table one of its references.\<close>

lemma firstField_in:
  "t \<in> tf_tableName ` set refs \<Longrightarrow> firstField refs t \<in> set refs \<and> tf_tableName (firstField refs t) = t"
proof -
  assume "t \<in> tf_tableName ` set refs"
  then obtain p where "find (\<lambda>p. t = tf_tableName p) refs = Some p"
    by (cases "find (\<lambda>p. t = tf_tableName p) refs") (auto simp: find_None_iff)
  then have "p \<in> set refs" "t = tf_tableName p" by (auto simp: find_Some_iff)
  moreover have "firstField refs t = p"
    using \<open>find _ refs = Some p\<close> \<open>t = tf_tableName p\<close> by (cases p) (simp add: firstField_def)
  ultimately show ?thesis by simp
qed

lemma sortedRefs_sorted:
  assumes "sorter_ok T" "\<And>l. mset (order l) = mset l" "\<forall>p \<in> set refs. mapHas (tableInfo mi) (tf_tableName p)"
    "ownTables mi (tf_tableName ` set refs)"
  shows "set (sortedRefs T order mi refs) \<subseteq> set refs \<and>
    tf_tableName ` set (sortedRefs T order mi refs) = tf_tableName ` set refs \<and>
    (acyclic (refEdges mi (tf_tableName ` set refs)) \<longrightarrow>
       distinct (map tf_tableName (sortedRefs T order mi refs)) \<and>
       (\<forall>(a, b) \<in> refEdges mi (tf_tableName ` set refs). before (map tf_tableName (sortedRefs T order mi refs)) a b))"
proof (cases "refs = []")
  case False
  let ?names = "map tf_tableName refs"
  have k: "{t \<in> set ?names. mapHas (tableInfo mi) t} = tf_tableName ` set refs" using assms(3) by auto
  from SortDepTables_sorted [OF assms(1,2), of mi ?names] assms(4) obtain r
    where r: "SortDepTables T order mi ?names = Some r" "sortedTables mi (tf_tableName ` set refs) r"
    unfolding k by blast
  show ?thesis
  proof (cases "fst r")
    case None
    with r False show ?thesis by (cases r) (auto simp: sortedRefs_def sortedTables_def)
  next
    case (Some l)
    with r(2) have l: "distinct l" "set l = tf_tableName ` set refs"
      "\<forall>(a, b) \<in> refEdges mi (tf_tableName ` set refs). before l a b" by (cases r, auto simp: sortedTables_def)+
    with False have ne: "l \<noteq> []" by auto
    have s: "sortedRefs T order mi refs = map (firstField refs) l"
      using r(1) Some ne False by (cases r; cases l) (auto simp: sortedRefs_def)
    have names: "map tf_tableName (map (firstField refs) l) = l"
      using l(2) firstField_in by (intro map_idI [of l, THEN trans [rotated]]) auto
    have "set (map (firstField refs) l) \<subseteq> set refs" using l(2) firstField_in by auto
    moreover have "tf_tableName ` set (map (firstField refs) l) = set l"
      using names by (metis set_map)
    ultimately show ?thesis unfolding s names using l by simp
  qed
qed (simp add: sortedRefs_def refEdges_def)


subsection \<open>The maps after loading\<close>

text \<open>
  The maps agree: every table's key delimiter is among the delimiters, the table is among the lists of its
  Redis table, leafrefs are resolved to known tables, and every list of a Redis table is a known table.
\<close>

definition yangListsOf :: "modelDataInfo \<Rightarrow> string \<Rightarrow> string list" where
  "yangListsOf mi rt = (case mapGet (redisTableToYangList mi) rt of None \<Rightarrow> [] | Some ls \<Rightarrow> ls)"

definition schemaWf :: "modelDataInfo \<Rightarrow> bool" where
  "schemaWf mi \<longleftrightarrow>
     gomap_wf (tableInfo mi) \<and> gomap_wf (redisTableToYangList mi) \<and> gomap_wf (allKeyDelims mi) \<and>
     (\<forall>t ti. mapGet (tableInfo mi) t = Some ti \<longrightarrow>
        mapHas (allKeyDelims mi) (redisKeyDelim ti) \<and>
        t \<in> set (yangListsOf mi (redisTableName ti)) \<and>
        (\<forall>r \<in> set (allLeafRefs ti). \<forall>l \<in> set (yangListNames r). mapHas (tableInfo mi) l)) \<and>
     (\<forall>rt. \<forall>l \<in> set (yangListsOf mi rt). mapHas (tableInfo mi) l)"

text \<open>The leafrefs as they are stored: not resolved yet, and no reverse references.\<close>

definition unresolved :: "modelDataInfo \<Rightarrow> bool" where
  "unresolved mi \<longleftrightarrow>
     (\<forall>t ti. mapGet (tableInfo mi) t = Some ti \<longrightarrow>
        refFromTables ti = [] \<and> (\<forall>r \<in> set (allLeafRefs ti). yangListNames r = []))"

declare mapHas_put [simp]

lemma storeList_lists [simp]:
  "yangListsOf (storeList m l mi) rt =
   (if rt = li_RedisTableName l then yangListsOf mi rt @ [li_ListName l] else yangListsOf mi rt)"
  by (simp add: yangListsOf_def storeList_def Let_def)

lemma storeList_maps [simp]:
  "tableInfo (storeList m l mi) = mapPut (li_ListName l) (tableOf m l) (tableInfo mi)"
  "allKeyDelims (storeList m l mi) = mapPut (li_RedisKeyDelim l) True (allKeyDelims mi)"
  by (simp_all add: storeList_def Let_def)

lemma tableOf_refs [simp]: "r \<in> set (allLeafRefs (tableOf m l)) \<Longrightarrow> yangListNames r = []"
  by (auto simp: allLeafRefs_def tableOf_def)

lemma tableOf_simps [simp]:
  "redisKeyDelim (tableOf m l) = li_RedisKeyDelim l" "redisTableName (tableOf m l) = li_RedisTableName l"
  "refFromTables (tableOf m l) = []"
  by (simp_all add: tableOf_def)

lemma storeList_wf:
  assumes "schemaWf mi" "unresolved mi"
  shows "schemaWf (storeList m l mi) \<and> unresolved (storeList m l mi)"
proof
  show "unresolved (storeList m l mi)" using assms(2) by (auto simp: unresolved_def)
  have "gomap_wf (redisTableToYangList (storeList m l mi))"
    using assms(1) by (simp add: schemaWf_def storeList_def Let_def)
  with assms show "schemaWf (storeList m l mi)" by (auto simp: schemaWf_def) metis
qed

lemma storeModels_wf: "schemaWf (storeModels files) \<and> unresolved (storeModels files)"
proof -
  have 1: "schemaWf mi \<and> unresolved mi \<Longrightarrow> schemaWf (fold (storeList m) ls mi) \<and> unresolved (fold (storeList m) ls mi)" for m ls mi
    by (induction ls arbitrary: mi) (simp_all add: storeList_wf)
  have 2: "schemaWf mi \<and> unresolved mi \<Longrightarrow>
      schemaWf (storeModelInfo f infos mi) \<and> unresolved (storeModelInfo f infos mi)" for f infos mi
    using 1 by (simp add: storeModelInfo_def split: option.split)
  have "schemaWf mi \<and> unresolved mi \<Longrightarrow>
      schemaWf (fold (\<lambda>(f, infos). storeModelInfo f infos) files mi) \<and>
      unresolved (fold (\<lambda>(f, infos). storeModelInfo f infos) files mi)" for mi
    using 2 by (induction files arbitrary: mi) auto
  moreover have "schemaWf emptyModel \<and> unresolved emptyModel"
    by (simp add: schemaWf_def unresolved_def emptyModel_def yangListsOf_def)
  ultimately show ?thesis unfolding storeModels_def by blast
qed

text \<open>Resolving the leafrefs.\<close>

definition compiledTable :: "modelDataInfo \<Rightarrow> modelTableInfo \<Rightarrow> modelTableInfo" where
  "compiledTable mi ti = ti\<lparr>leafRef := map (\<lambda>(f, rs). (f, map (compileLeafRef mi) rs)) (leafRef ti)\<rparr>"

lemma compile_tables: "tableInfo (compileLeafRefPath mi) = map (\<lambda>(t, ti). (t, compiledTable mi ti)) (tableInfo mi)"
  by (simp add: compileLeafRefPath_def compiledTable_def)

lemma compile_get: "mapGet (tableInfo (compileLeafRefPath mi)) t = map_option (compiledTable mi) (mapGet (tableInfo mi) t)"
proof -
  have "mapGet (map (\<lambda>(t, ti). (t, compiledTable mi ti)) l) t = map_option (compiledTable mi) (mapGet l t)" for l
    by (induction l) auto
  then show ?thesis unfolding compile_tables .
qed

lemma compile_has [simp]: "mapHas (tableInfo (compileLeafRefPath mi)) t = mapHas (tableInfo mi) t"
  by (simp add: mapHas_def compile_get)

lemma compile_frame [simp]:
  "redisTableToYangList (compileLeafRefPath mi) = redisTableToYangList mi"
  "allKeyDelims (compileLeafRefPath mi) = allKeyDelims mi"
  "map fst (tableInfo (compileLeafRefPath mi)) = map fst (tableInfo mi)"
  by (simp_all add: compileLeafRefPath_def split_def)

lemma compile_keys: "fst ` set (tableInfo (compileLeafRefPath mi)) = fst ` set (tableInfo mi)"
  using compile_frame(3) [of mi] by (metis set_map)

text \<open>Table \<open>t\<close> is named by a leafref path.\<close>

definition pathNames :: "modelDataInfo \<Rightarrow> string \<Rightarrow> string \<Rightarrow> bool" where
  "pathNames mi path t \<longleftrightarrow>
     path \<noteq> ''non-leafref'' \<and> mapHas (tableInfo mi) t \<and>
     (containsStr path ('':'' @ t @ ''_LIST'') \<or> containsStr path (''/'' @ t @ ''_LIST''))"

lemma compiled_names:
  assumes "yangListNames r = []"
  shows "lr_path (compileLeafRef mi r) = lr_path r"
    "t \<in> set (yangListNames (compileLeafRef mi r)) \<longleftrightarrow> pathNames mi (lr_path r) t"
  using assms
  by (auto simp: compileLeafRef_def getLeafRefTargetInfo_def getYangListNamesInExpr_def pathNames_def mapHas_iff Let_def)

lemma compiled_refs:
  "allLeafRefs (compiledTable mi ti) = map (compileLeafRef mi) (allLeafRefs ti)"
  by (simp add: allLeafRefs_def compiledTable_def map_concat split_def comp_def)

lemma compile_wf:
  assumes "schemaWf mi" "unresolved mi"
  shows "schemaWf (compileLeafRefPath mi)"
proof -
  have "mapHas (tableInfo mi) l"
    if "mapGet (tableInfo mi) t = Some ti" "r \<in> set (allLeafRefs ti)" "l \<in> set (yangListNames (compileLeafRef mi r))" for t ti r l
    using assms(2) that compiled_names(2) [of r l mi] by (auto simp: unresolved_def pathNames_def)
  moreover have "redisKeyDelim (compiledTable mi ti) = redisKeyDelim ti" "redisTableName (compiledTable mi ti) = redisTableName ti" for ti
    by (simp_all add: compiledTable_def)
  moreover have "yangListsOf (compileLeafRefPath mi) = yangListsOf mi" by (simp add: yangListsOf_def fun_eq_iff)
  ultimately show ?thesis using assms(1) unfolding schemaWf_def compile_get by (auto simp: compiled_refs)
qed

subsection \<open>Loading\<close>

lemma reversePairs_iff:
  "(p, l) \<in> set (reversePairs ts) \<longleftrightarrow>
   (\<exists>ti rs r. (tf_tableName p, ti) \<in> set ts \<and> (tf_field p, rs) \<in> set (leafRef ti) \<and> r \<in> set rs \<and> l \<in> set (yangListNames r))"
  by (cases p) (fastforce simp: reversePairs_def)

lemma schemaWf_core:
  assumes "core mi' = core mi" "gomap_wf (tableInfo mi')"
  shows "schemaWf mi' = schemaWf mi"
proof -
  have maps: "redisTableToYangList mi' = redisTableToYangList mi" "allKeyDelims mi' = allKeyDelims mi"
    using arg_cong [OF assms(1), of redisTableToYangList] arg_cong [OF assms(1), of allKeyDelims]
    by (simp_all add: core_def)
  have get: "map_option (\<lambda>ti. ti\<lparr>refFromTables := []\<rparr>) (mapGet (tableInfo mi') t) =
      map_option (\<lambda>ti. ti\<lparr>refFromTables := []\<rparr>) (mapGet (tableInfo mi) t)" for t
    using arg_cong [OF assms(1), of "\<lambda>m. mapGet (tableInfo m) t"] by (simp add: core_def coreTables_get)
  define P where "P ti t \<longleftrightarrow> mapHas (allKeyDelims mi) (redisKeyDelim ti) \<and> t \<in> set (yangListsOf mi (redisTableName ti)) \<and>
      (\<forall>r \<in> set (allLeafRefs ti). \<forall>l \<in> set (yangListNames r). mapHas (tableInfo mi) l)" for ti :: modelTableInfo and t
  have P: "P (ti\<lparr>refFromTables := []\<rparr>) t = P ti t" for ti t by (simp add: P_def allLeafRefs_def)
  have "(\<forall>ti. mapGet (tableInfo mi') t = Some ti \<longrightarrow> P ti t) = (\<forall>ti. mapGet (tableInfo mi) t = Some ti \<longrightarrow> P ti t)" for t
    using get [of t] P by (cases "mapGet (tableInfo mi') t"; cases "mapGet (tableInfo mi) t") (auto, metis+)
  moreover have "yangListsOf mi' = yangListsOf mi" using maps by (simp add: yangListsOf_def fun_eq_iff)
  moreover have "gomap_wf (tableInfo mi') = gomap_wf (tableInfo mi)" using core_fst [OF assms(1)] by simp
  ultimately show ?thesis
    using maps core_has_cong [OF assms(1)] unfolding schemaWf_def P_def by simp
qed

text \<open>The loaded schema, step by step.\<close>

lemma loadSchema_steps:
  fixes files
  defines "c \<equiv> compileLeafRefPath (storeModels files)"
  assumes "\<And>l. mset (order l) = mset l"
  shows "\<exists>mi. loadSchema T order files = Some mi \<and> core mi = core c \<and>
    (\<forall>t. mapGet (tableInfo mi) t = map_option (\<lambda>ti. ti\<lparr>refFromTables :=
        sortedRefs T order c (map fst (filter (\<lambda>(_, l). l = t) (reversePairs (tableInfo c))))\<rparr>) (mapGet (tableInfo c) t))"
proof -
  have wf: "schemaWf c" using compile_wf storeModels_wf unfolding c_def by blast
  have "\<forall>(pair, l) \<in> set (reversePairs (tableInfo c)). mapHas (tableInfo c) l"
  proof (intro ballI, clarify)
    fix pair l assume "(pair, l) \<in> set (reversePairs (tableInfo c))"
    then obtain ti rs r where "(tf_tableName pair, ti) \<in> set (tableInfo c)" "(tf_field pair, rs) \<in> set (leafRef ti)"
      "r \<in> set rs" "l \<in> set (yangListNames r)"
      unfolding reversePairs_iff by blast
    moreover from this wf have "mapGet (tableInfo c) (tf_tableName pair) = Some ti"
      by (simp add: schemaWf_def mapGet_Some_iff)
    moreover have "r \<in> set (allLeafRefs ti)" using calculation by (force simp: allLeafRefs_def)
    ultimately show "mapHas (tableInfo c) l" using wf unfolding schemaWf_def by blast
  qed
  from addAllReverse_result [OF this] obtain m1 where
    1: "addAllReverse (reversePairs (tableInfo c)) c = Some m1" "core m1 = core c"
    and get1: "\<forall>t. mapGet (tableInfo m1) t = map_option (\<lambda>ti.
       ti\<lparr>refFromTables := refFromTables ti @ map fst (filter (\<lambda>(_, l). l = t) (reversePairs (tableInfo c)))\<rparr>) (mapGet (tableInfo c) t)"
    by blast
  have d: "distinct (map fst (tableInfo m1))" using wf core_fst [OF 1(2)] by (simp add: schemaWf_def)
  have "\<forall>t \<in> set (map fst (tableInfo m1)). mapHas (tableInfo m1) t" by (simp add: mapHas_iff)
  from sortAllReverse_result [OF assms(2) d this, of T] obtain mi where
    2: "sortAllReverse T order (map fst (tableInfo m1)) m1 = Some mi" "core mi = core m1"
    and get2: "\<forall>u. mapGet (tableInfo mi) u = (if u \<in> set (map fst (tableInfo m1))
        then map_option (\<lambda>ti. ti\<lparr>refFromTables := sortedRefs T order m1 (refFromTables ti)\<rparr>) (mapGet (tableInfo m1) u)
        else mapGet (tableInfo m1) u)"
    by blast
  have nil: "refFromTables ti = []" if t: "mapGet (tableInfo c) t = Some ti" for t ti
  proof -
    from t obtain ti0 where "mapGet (tableInfo (storeModels files)) t = Some ti0" "ti = compiledTable (storeModels files) ti0"
      unfolding c_def compile_get by auto
    with storeModels_wf [of files] show ?thesis by (auto simp: unresolved_def compiledTable_def)
  qed
  have "mapGet (tableInfo mi) t = map_option (\<lambda>ti. ti\<lparr>refFromTables :=
        sortedRefs T order c (map fst (filter (\<lambda>(_, l). l = t) (reversePairs (tableInfo c))))\<rparr>) (mapGet (tableInfo c) t)" for t
  proof (cases "mapGet (tableInfo c) t")
    case None
    with get1 get2 show ?thesis by simp
  next
    case (Some ti)
    with get1 have g: "mapGet (tableInfo m1) t \<noteq> None" by simp
    then have "t \<in> set (map fst (tableInfo m1))" by (simp add: mapGet_None_iff)
    with get1 get2 Some nil [OF Some] sortedRefs_cong [OF 1(2), of T order] show ?thesis by simp
  qed
  moreover have "loadSchema T order files = Some mi"
    using 1 2 by (simp add: loadSchema_def buildRefTableInfo_def c_def)
  ultimately show ?thesis using 1 2 by metis
qed

text \<open>
  C20. Loading the schema.  Whatever the parser returns for the model files and whatever the order in which
  Go visits its maps, loading does not panic and leaves maps that agree with each other: no table is listed
  twice, the delimiter of every table is known, every table is among the lists of its Redis table, the
  lists of a Redis table are known tables, and leafrefs are resolved to known tables only.
\<close>

theorem schema_consistent:
  assumes "\<And>l. mset (order l) = mset l"
  shows "\<exists>mi. loadSchema T order files = Some mi \<and> schemaWf mi"
proof -
  let ?c = "compileLeafRefPath (storeModels files)"
  have wf: "schemaWf ?c" using compile_wf storeModels_wf by blast
  from loadSchema_steps [OF assms, of T files] obtain mi where
    mi: "loadSchema T order files = Some mi" "core mi = core ?c" by blast
  have "gomap_wf (tableInfo mi)" using wf core_fst [OF mi(2)] by (simp add: schemaWf_def)
  with wf schemaWf_core [OF mi(2)] mi(1) show ?thesis by blast
qed

text \<open>Field \<open>f\<close> of table \<open>u\<close> refers to table \<open>t\<close> in the parsed model files.\<close>

definition fieldRefers :: "modelDataInfo \<Rightarrow> string \<Rightarrow> string \<Rightarrow> string \<Rightarrow> bool" where
  "fieldRefers mi u f t \<longleftrightarrow>
     (\<exists>ti rs. mapGet (tableInfo mi) u = Some ti \<and> (f, rs) \<in> set (leafRef ti) \<and> (\<exists>r \<in> set rs. pathNames mi (lr_path r) t))"

lemma reversePairs_refers:
  fixes files
  defines "m \<equiv> storeModels files"
  shows "(p, t) \<in> set (reversePairs (tableInfo (compileLeafRefPath m))) \<longleftrightarrow>
    fieldRefers m (tf_tableName p) (tf_field p) t"
proof -
  have wf: "gomap_wf (tableInfo m)" and un: "unresolved m"
    using storeModels_wf [of files] by (simp_all add: m_def schemaWf_def)
  have nil: "yangListNames r = []" if "mapGet (tableInfo m) u = Some ti" "(f, rs) \<in> set (leafRef ti)" "r \<in> set rs" for u ti f rs r
  proof -
    have "r \<in> set (allLeafRefs ti)" using that(2,3) by (force simp: allLeafRefs_def)
    with un that(1) show ?thesis by (simp add: unresolved_def)
  qed
  show ?thesis
  proof
    assume "(p, t) \<in> set (reversePairs (tableInfo (compileLeafRefPath m)))"
    then obtain ti0 rs0 r0 where 0: "(tf_tableName p, ti0) \<in> set (tableInfo (compileLeafRefPath m))"
      "(tf_field p, rs0) \<in> set (leafRef ti0)" "r0 \<in> set rs0" "t \<in> set (yangListNames r0)"
      unfolding reversePairs_iff by blast
    from 0(1) obtain ti where ti: "(tf_tableName p, ti) \<in> set (tableInfo m)" "ti0 = compiledTable m ti"
      by (auto simp: compile_tables)
    from 0(2) ti(2) obtain rs where rs: "(tf_field p, rs) \<in> set (leafRef ti)" "rs0 = map (compileLeafRef m) rs"
      by (auto simp: compiledTable_def)
    from 0(3) rs(2) obtain r where r: "r \<in> set rs" "r0 = compileLeafRef m r" by auto
    have g: "mapGet (tableInfo m) (tf_tableName p) = Some ti" using ti(1) wf by (simp add: mapGet_Some_iff)
    then have "pathNames m (lr_path r) t" using compiled_names(2) [OF nil [OF g rs(1) r(1)]] 0(4) r(2) by simp
    with g rs(1) r(1) show "fieldRefers m (tf_tableName p) (tf_field p) t" by (auto simp: fieldRefers_def)
  next
    assume "fieldRefers m (tf_tableName p) (tf_field p) t"
    then obtain ti rs r where g: "mapGet (tableInfo m) (tf_tableName p) = Some ti" "(tf_field p, rs) \<in> set (leafRef ti)"
      "r \<in> set rs" "pathNames m (lr_path r) t"
      by (auto simp: fieldRefers_def)
    have "(tf_tableName p, compiledTable m ti) \<in> set (tableInfo (compileLeafRefPath m))"
      using mapGet_SomeD [OF g(1)] by (force simp: compile_tables)
    moreover have "(tf_field p, map (compileLeafRef m) rs) \<in> set (leafRef (compiledTable m ti))"
      using g(2) by (force simp: compiledTable_def)
    moreover have "t \<in> set (yangListNames (compileLeafRef m r))" using compiled_names(2) [OF nil [OF g(1-3)]] g(4) by simp
    ultimately show "(p, t) \<in> set (reversePairs (tableInfo (compileLeafRefPath m)))"
      unfolding reversePairs_iff using g(3) by (metis imageI set_map)
  qed
qed

lemma refEdges_core: "core mi = core mi' \<Longrightarrow> refEdges mi ts = refEdges mi' ts"
proof -
  assume c: "core mi = core mi'"
  have "refersTo mi a b = refersTo mi' a b" for a b
  proof -
    have r: "map_option allLeafRefs (mapGet (tableInfo mi) a) = map_option allLeafRefs (mapGet (tableInfo mi') a)"
      using core_refs [of mi a] core_refs [of mi' a] c by simp
    show ?thesis using r
      by (cases "mapGet (tableInfo mi) a"; cases "mapGet (tableInfo mi') a") (simp_all add: refersTo_def)
  qed
  then show ?thesis by (simp add: refEdges_def)
qed

lemma compile_redis: "getYangListToRedisTbl (compileLeafRefPath mi) t = getYangListToRedisTbl mi t"
  by (simp add: getYangListToRedisTbl_def compile_get compiledTable_def Let_def split: option.split)


text \<open>Ports, ACL tables bound to ports, rules of ACL tables that match on two ports.\<close>

definition listOf :: "string \<Rightarrow> string list \<Rightarrow> (string \<times> string list) list \<Rightarrow> YParserListInfo" where
  "listOf name keys refs =
     \<lparr>li_ListName = name, li_RedisTableName = name, li_Keys = keys, li_RedisKeyDelim = ''|'', li_RedisKeyPattern = [],
      li_RedisTableSize = -1, li_LeafRef = refs\<rparr>"

definition aclFiles :: "(string, YParserListInfo list option) gomap" where
  "aclFiles =
     [(''sonic-acl.yin'', Some [listOf ''ACL_RULE'' [''aclname'', ''rulename'']
                                  [(''aclname'', [''/sacl:ACL_TABLE/sacl:ACL_TABLE_LIST/sacl:aclname'']),
                                   (''in_port'', [''/prt:PORT/prt:PORT_LIST/prt:ifname'', ''non-leafref'']),
                                   (''out_port'', [''/prt:PORT/prt:PORT_LIST/prt:ifname''])],
                                listOf ''ACL_TABLE'' [''aclname''] [(''ports'', [''/prt:PORT/prt:PORT_LIST/prt:ifname''])]]),
      (''sonic-port.yin'', Some [listOf ''PORT'' [''ifname''] []]), (''sonic-common.yin'', None)]"

lemma rev_mset: "mset (rev l) = mset (l :: string list)"
  by simp

definition refsOf :: "string \<Rightarrow> modelDataInfo option \<Rightarrow> (string \<times> string) list" where
  "refsOf t m =
     (case m of
        None \<Rightarrow> []
      | Some mi \<Rightarrow> (case mapGet (tableInfo mi) t of
                     None \<Rightarrow> []
                   | Some ti \<Rightarrow> map (\<lambda>p. (tf_tableName p, tf_field p)) (refFromTables ti)))"

theorem schema_consistent_witness:
  "schemaWf (the (loadSchema sampleSort rev aclFiles)) \<and> fst (splitRedisKey (the (loadSchema sampleSort rev aclFiles)) ''PORT|Ethernet0'') = ''PORT''"
proof -
  from schema_consistent [of rev sampleSort aclFiles] rev_mset
  have "schemaWf (the (loadSchema sampleSort rev aclFiles))" by auto
  moreover have "fst (splitRedisKey (the (loadSchema sampleSort rev aclFiles)) ''PORT|Ethernet0'') = ''PORT''" by code_simp
  ultimately show ?thesis by blast
qed


end
