(* ===== verification/Cvl_Edit.thy ===== *)
theory Cvl_Edit
  imports Cvl_Model Go_Strconv
begin

text \<open>
  Validation of edit requests (\<^verbatim>\<open>ValidateEditConfig\<close> of \<^verbatim>\<open>cvl/cvl_api.go\<close>) with what it calls of
  \<^verbatim>\<open>cvl.go\<close>, \<^verbatim>\<open>cvl_syntax.go\<close>, \<^verbatim>\<open>cvl_semantics.go\<close> and \<^verbatim>\<open>cvl_cache.go\<close>: the session with its request cache and
  table counts, the check of table sizes, the check that a deleted entry is not referred to, the check of
  keys, and the order of the steps.

  The Redis queries, and the evaluation of a request against the YANG schema (libyang, the XML tree, the
  expressions), are parameters; the latter act on a state \<open>'y\<close> and on the temporary cache, and can read
  the whole session.  A range over a map visits its list in order.  \<^term>\<open>None\<close> is a panic.
\<close>

subsection \<open>Session and parameters\<close>

type_synonym requested = "(string, (string, (string, field_value) gomap option) gomap) gomap"
type_synonym req_cache = "(string, (string, CVLEditConfigData list) gomap) gomap"

record 'y CVL =
  tmpDbCache :: requested
  requestCache :: req_cache
  maxTableElem :: "(string, int) gomap"
  yangState :: 'y

text \<open>
  \<open>yangDataOf y tbl key\<close> is the \<^verbatim>\<open>yangData\<close> of the first cached request for the key.  A call of \<open>toYang\<close>,
  \<open>checkSyntax\<close> or \<open>checkSemantics\<close> returns its error object and the new values of what it may change.
\<close>

record ('y, 'n) layers =
  SkipValidation :: bool
  keyExists :: "string \<Rightarrow> int option"
  countEntries :: "string \<Rightarrow> int option"
  findKey :: "string \<Rightarrow> string \<Rightarrow> string \<Rightarrow> string \<Rightarrow> string option"
  initialYang :: 'y
  toYang :: "requested \<Rightarrow> 'y CVL \<Rightarrow> CVLErrorInfo \<times> 'y \<times> requested"
  checkSyntax :: "'y CVL \<Rightarrow> (CVLErrorInfo \<times> CVLRetCode) \<times> 'y \<times> requested"
  SetOperation :: "string \<Rightarrow> 'y \<Rightarrow> 'y"
  yangDataOf :: "'y \<Rightarrow> string \<Rightarrow> string \<Rightarrow> 'n option"
  moveToYangList :: "string \<Rightarrow> string \<Rightarrow> 'y \<Rightarrow> 'n option \<times> 'y"
  doCustomValidation ::
    "'n \<Rightarrow> CVLEditConfigData list \<Rightarrow> nat \<Rightarrow> string \<Rightarrow> string \<Rightarrow> string \<Rightarrow> 'y CVL \<Rightarrow> CVLErrorInfo \<times> 'y \<times> requested"
  checkSemantics :: "'n \<Rightarrow> string \<Rightarrow> string \<Rightarrow> CVLEditConfigData \<Rightarrow> 'y CVL \<Rightarrow> CVLErrorInfo \<times> 'y \<times> requested"
  DestroyCache :: "'y \<Rightarrow> 'y"

definition setYang :: "'y CVL \<Rightarrow> 'y \<times> requested \<Rightarrow> 'y CVL" where
  "setYang c yt = c\<lparr>yangState := fst yt, tmpDbCache := snd yt\<rparr>"

definition ValidationSessOpen :: "('y, 'n) layers \<Rightarrow> 'y CVL \<times> CVLRetCode" where
  "ValidationSessOpen E =
     (\<lparr>tmpDbCache = [], requestCache = [], maxTableElem = [], yangState = initialYang E\<rparr>, CVL_SUCCESS)"

definition clearTmpDbCache :: "'y CVL \<Rightarrow> 'y CVL" where
  "clearTmpDbCache c = c\<lparr>tmpDbCache := []\<rparr>"

definition addTableEntryToCache :: "string \<Rightarrow> string \<Rightarrow> 'y CVL \<Rightarrow> 'y CVL" where
  "addTableEntryToCache tableName redisKey c =
     (if tableName = [] \<or> redisKey = [] then c
      else case mapGet (tmpDbCache c) tableName of
             None \<Rightarrow> c\<lparr>tmpDbCache := mapPut tableName [(redisKey, None)] (tmpDbCache c)\<rparr>
           | Some tblMap \<Rightarrow> c\<lparr>tmpDbCache := mapPut tableName (mapPut redisKey None tblMap) (tmpDbCache c)\<rparr>)"

text \<open>The data of a cached create or update of an entry, and whether it is to be merged with Redis.\<close>

fun firstCached :: "CVLEditConfigData list \<Rightarrow> fields option \<times> bool" where
  "firstCached [] = (None, False)"
| "firstCached (ed # eds) =
     (if VOp ed = OP_CREATE then (Some (cfgData ed), False)
      else if VOp ed = OP_UPDATE then (Some (cfgData ed), True)
      else firstCached eds)"

definition cachedReqs :: "'y CVL \<Rightarrow> string \<Rightarrow> string \<Rightarrow> CVLEditConfigData list" where
  "cachedReqs c tbl key =
     (case mapGet (requestCache c) tbl of
        None \<Rightarrow> []
      | Some reqTbl \<Rightarrow> (case mapGet reqTbl key of None \<Rightarrow> [] | Some arr \<Rightarrow> arr))"

definition fetchDataFromRequestCache :: "'y CVL \<Rightarrow> string \<Rightarrow> string \<Rightarrow> fields option \<times> bool" where
  "fetchDataFromRequestCache c tableName key = firstCached (cachedReqs c tableName key)"

subsection \<open>Table sizes\<close>

text \<open>
  \<^verbatim>\<open>checkMaxElemConstraint\<close>: counts are fetched once and then tracked.  \<^term>\<open>None\<close>: a table without schema
  (nil dereference).
\<close>

definition checkMaxElemConstraint ::
  "('y, 'n) layers \<Rightarrow> modelDataInfo \<Rightarrow> 'y CVL \<Rightarrow> CVLOperation \<Rightarrow> string \<Rightarrow> (CVLRetCode \<times> 'y CVL) option" where
  "checkMaxElemConstraint E mi c op tableName =
     (if op \<noteq> OP_CREATE \<and> op \<noteq> OP_DELETE then Some (CVL_SUCCESS, c)
      else case mapGet (tableInfo mi) tableName of
        None \<Rightarrow> None
      | Some ti \<Rightarrow>
          (if redisTableSize ti = -1 then Some (CVL_SUCCESS, c)
           else case (case mapGet (maxTableElem c) tableName of
                        Some n \<Rightarrow> Some (n, c)
                      | None \<Rightarrow>
                          map_option (\<lambda>n. (n, c\<lparr>maxTableElem := mapPut tableName n (maxTableElem c)\<rparr>))
                            (countEntries E (tableName @ ''|*''))) of
             None \<Rightarrow> Some (CVL_FAILURE, c)
           | Some (curSize, c1) \<Rightarrow>
               (if op = OP_DELETE
                then Some (CVL_SUCCESS,
                       if 0 < curSize then c1\<lparr>maxTableElem := mapPut tableName (curSize - 1) (maxTableElem c1)\<rparr> else c1)
                else if redisTableSize ti \<le> curSize then Some (CVL_SYNTAX_ERROR, c1)
                else if redisTableSize ti < curSize + 1 then Some (CVL_SYNTAX_ERROR, c1)
                else Some (CVL_SUCCESS, c1\<lparr>maxTableElem := mapPut tableName (curSize + 1) (maxTableElem c1)\<rparr>))))"

subsection \<open>Delete constraints\<close>

text \<open>The first leafref field of each other table whose path names the table and the field.\<close>

definition findUsedAsLeafRef :: "modelDataInfo \<Rightarrow> string \<Rightarrow> string \<Rightarrow> tblFieldPair list" where
  "findUsedAsLeafRef mi tableName field =
     concat (map (\<lambda>(tblName, ti).
       if tableName = tblName \<or> leafRef ti = [] then []
       else case find (\<lambda>(_, refs). list_ex (\<lambda>r. containsStr (lr_path r) tableName \<and> containsStr (lr_path r) field) refs)
                   (leafRef ti) of
              None \<Rightarrow> []
            | Some (fieldName, _) \<Rightarrow> [\<lparr>tf_tableName = tblName, tf_field = fieldName\<rparr>]) (tableInfo mi))"

text \<open>
  Is an entry that refers to the key deleted by a request validated earlier?  \<^term>\<open>None\<close>: a table without
  schema.
\<close>

definition checkDeleteInRequestCache ::
  "modelDataInfo \<Rightarrow> CVLEditConfigData list \<Rightarrow> tblFieldPair \<Rightarrow> string \<Rightarrow> bool option" where
  "checkDeleteInRequestCache mi cfg ref keyVal =
     map_option (\<lambda>ti.
       (let entryTableName = tf_tableName ref @ redisKeyDelim ti;
            entryKeyVal = redisKeyDelim ti @ keyVal
        in list_ex (\<lambda>item.
             VType item = VALIDATE_NONE \<and> VOp item = OP_DELETE \<and>
             (hasPrefix (cfgKey item) entryTableName \<and> containsStr (cfgKey item) entryKeyVal \<or>
              mapGet (cfgData item) (tf_field ref) = Some keyVal)) cfg))
       (mapGet (tableInfo mi) (tf_tableName ref))"

fun checkRefs ::
  "('y, 'n) layers \<Rightarrow> modelDataInfo \<Rightarrow> CVLEditConfigData list \<Rightarrow> string \<Rightarrow> tblFieldPair list \<Rightarrow> CVLRetCode option" where
  "checkRefs E mi cfg keyVal [] = Some CVL_SUCCESS"
| "checkRefs E mi cfg keyVal (ref # refs) =
     do { gone \<leftarrow> checkDeleteInRequestCache mi cfg ref keyVal;
          if gone then checkRefs E mi cfg keyVal refs
          else
            do { ti \<leftarrow> mapGet (tableInfo mi) (tf_tableName ref);
                 case findKey E (tf_tableName ref) (redisKeyDelim ti) (tf_field ref) keyVal of
                   Some refKeyVal \<Rightarrow> if refKeyVal \<noteq> [] then Some CVL_SEMANTIC_ERROR else checkRefs E mi cfg keyVal refs
                 | None \<Rightarrow> checkRefs E mi cfg keyVal refs } }"

text \<open>\<^term>\<open>None\<close>: the table has no schema, or its list has no key (index out of range).\<close>

definition checkDeleteConstraint ::
  "('y, 'n) layers \<Rightarrow> modelDataInfo \<Rightarrow> CVLEditConfigData list \<Rightarrow> string \<Rightarrow> string \<Rightarrow> string \<Rightarrow> CVLRetCode option" where
  "checkDeleteConstraint E mi cfg tableName keyVal field =
     (if field \<noteq> [] then checkRefs E mi cfg keyVal (findUsedAsLeafRef mi tableName field)
      else
        do { ti \<leftarrow> mapGet (tableInfo mi) tableName;
             case ti_keys ti of
               [] \<Rightarrow> None
             | k # _ \<Rightarrow> checkRefs E mi cfg keyVal (findUsedAsLeafRef mi tableName k) })"

fun checkFieldDeletes ::
  "('y, 'n) layers \<Rightarrow> modelDataInfo \<Rightarrow> CVLEditConfigData list \<Rightarrow> string \<Rightarrow> string \<Rightarrow> fields \<Rightarrow> CVLRetCode option" where
  "checkFieldDeletes E mi cfg tbl key [] = Some CVL_SUCCESS"
| "checkFieldDeletes E mi cfg tbl key ((field, _) # fs) =
     do { ret \<leftarrow> checkDeleteConstraint E mi cfg tbl key field;
          if ret \<noteq> CVL_SUCCESS then Some ret else checkFieldDeletes E mi cfg tbl key fs }"

subsection \<open>Collecting the request\<close>

definition addCfgDataItem ::
  "modelDataInfo \<Rightarrow> requested \<Rightarrow> CVLEditConfigData \<Rightarrow> ((string \<times> string) \<times> requested) option" where
  "addCfgDataItem mi cfg item =
     (let (tblName, key) = splitRedisKey mi (cfgKey item)
      in if tblName = [] \<or> key = [] then Some (([], []), cfg)
         else case mapGet cfg tblName of
           Some fieldsMap \<Rightarrow>
             (if VOp item = OP_DELETE then Some ((tblName, key), cfg)
              else
                do { new \<leftarrow> checkFieldMap (cfgData item) [];
                     Some ((tblName, key), mapPut tblName (mapPut key (Some new) fieldsMap) cfg) })
         | None \<Rightarrow>
             (if VOp item = OP_DELETE then Some ((tblName, key), mapPut tblName [(key, None)] cfg)
              else
                do { new \<leftarrow> checkFieldMap (cfgData item) [];
                     Some ((tblName, key), mapPut tblName [(key, Some new)] cfg) }))"

definition addToRequestCache :: "string \<Rightarrow> string \<Rightarrow> CVLEditConfigData \<Rightarrow> 'y CVL \<Rightarrow> 'y CVL" where
  "addToRequestCache tbl key item c =
     (let reqTbl = (case mapGet (requestCache c) tbl of None \<Rightarrow> [] | Some m \<Rightarrow> m);
          arr = (case mapGet reqTbl key of None \<Rightarrow> [] | Some a \<Rightarrow> a)
      in c\<lparr>requestCache := mapPut tbl (mapPut key (arr @ [item]) reqTbl) (requestCache c)\<rparr>)"


text \<open>What \<^verbatim>\<open>ValidateEditConfig\<close> returns early: the error object and the code.\<close>

type_synonym edit_result = "CVLErrorInfo \<times> CVLRetCode"

definition withCode :: "CVLRetCode \<Rightarrow> CVLErrorInfo \<Rightarrow> CVLErrorInfo" where
  "withCode code obj = obj\<lparr>ei_ErrCode := code, ei_CVLErrDetails := mapStr cvlErrorMap code\<rparr>"

definition editError :: "CVLRetCode \<Rightarrow> string \<Rightarrow> edit_result" where
  "editError code msg = ((withCode code emptyErrorInfo)\<lparr>ei_Msg := msg\<rparr>, code)"

text \<open>The switch over the operation of an item in step 1.\<close>

definition checkOperation ::
  "('y, 'n) layers \<Rightarrow> modelDataInfo \<Rightarrow> CVLEditConfigData list \<Rightarrow> CVLEditConfigData \<Rightarrow> string \<Rightarrow> string \<Rightarrow> 'y CVL \<Rightarrow>
   (edit_result option \<times> 'y CVL) option" where
  "checkOperation E mi cfg item tbl key c =
     (case VOp item of
        OP_NONE \<Rightarrow> Some (None, c)
      | OP_CREATE \<Rightarrow>
          do { (ret, c1) \<leftarrow> checkMaxElemConstraint E mi c OP_CREATE tbl;
               if ret \<noteq> CVL_SUCCESS
               then do { ti \<leftarrow> mapGet (tableInfo mi) tbl;
                         let (obj, code) = editError CVL_SYNTAX_ERROR ''Max elements limit reached'';
                         Some (Some (obj\<lparr>ei_ErrAppTag := ''too-many-elements'',
                                         ei_ConstraintErrMsg :=
                                           ''Max elements limit '' @ itoa (redisTableSize ti) @ '' reached''\<rparr>, code), c1) }
               else Some (None, c1) }
      | OP_UPDATE \<Rightarrow> Some (None, addTableEntryToCache tbl key c)
      | OP_DELETE \<Rightarrow>
          (if cfgData item \<noteq> []
           then do { ret \<leftarrow> checkFieldDeletes E mi cfg tbl key (cfgData item);
                     if ret \<noteq> CVL_SUCCESS then Some (Some (editError CVL_SEMANTIC_ERROR ''Delete constraint failed''), c)
                     else Some (None, addTableEntryToCache tbl key c) }
           else do { (_, c1) \<leftarrow> checkMaxElemConstraint E mi c OP_DELETE tbl;
                     ret \<leftarrow> checkDeleteConstraint E mi cfg tbl key [];
                     if ret \<noteq> CVL_SUCCESS then Some (Some (editError CVL_SEMANTIC_ERROR ''Delete constraint failed''), c1)
                     else Some (None, addTableEntryToCache tbl key c1) }))"

definition requestItem ::
  "('y, 'n) layers \<Rightarrow> modelDataInfo \<Rightarrow> CVLEditConfigData list \<Rightarrow> CVLEditConfigData \<Rightarrow> 'y CVL \<Rightarrow> requested \<Rightarrow>
   (edit_result option \<times> 'y CVL \<times> requested) option" where
  "requestItem E mi cfg item c req =
     (if VType item \<noteq> VALIDATE_ALL then Some (None, c, req)
      else
        do { ((tbl, key), req1) \<leftarrow> addCfgDataItem mi req item;
             let c1 = addToRequestCache tbl key item c;
             if key = []
             then Some (Some (editError CVL_SYNTAX_ERROR (''Invalid table or key for '' @ cfgKey item)), c1, req1)
             else map_option (\<lambda>(e, c2). (e, c2, req1)) (checkOperation E mi cfg item tbl key c1) })"

fun requestLoop ::
  "('y, 'n) layers \<Rightarrow> modelDataInfo \<Rightarrow> CVLEditConfigData list \<Rightarrow> CVLEditConfigData list \<Rightarrow> 'y CVL \<Rightarrow> requested \<Rightarrow>
   (edit_result option \<times> 'y CVL \<times> requested) option" where
  "requestLoop E mi cfg [] c req = Some (None, c, req)"
| "requestLoop E mi cfg (item # items) c req =
     do { (e, c1, req1) \<leftarrow> requestItem E mi cfg item c req;
          case e of Some r \<Rightarrow> Some (Some r, c1, req1)
                  | None \<Rightarrow> requestLoop E mi cfg items c1 req1 }"

subsection \<open>Keys and semantics\<close>

text \<open>Step 3.1: the error of the key check, and the session with the operation set.\<close>

definition checkKey ::
  "('y, 'n) layers \<Rightarrow> CVLEditConfigData \<Rightarrow> string \<Rightarrow> string \<Rightarrow> 'y CVL \<Rightarrow> CVLRetCode option \<times> 'y CVL" where
  "checkKey E item tbl key c =
     (let n = keyExists E (cfgKey item);
          present = (case n of Some i \<Rightarrow> 0 < i | None \<Rightarrow> False);
          absent = (case n of Some i \<Rightarrow> i = 0 | None \<Rightarrow> True);
          setOp = (\<lambda>op. c\<lparr>yangState := SetOperation E op (yangState c)\<rparr>)
      in case VOp item of
           OP_NONE \<Rightarrow> (None, c)
         | OP_CREATE \<Rightarrow>
             (if present \<and>
                 \<not> (tbl \<noteq> [] \<and> key \<noteq> [] \<and> list_ex (\<lambda>cached. VOp cached = OP_DELETE) (cachedReqs c tbl key))
              then (Some CVL_SEMANTIC_KEY_ALREADY_EXIST, c)
              else (None, setOp ''CREATE''))
         | OP_UPDATE \<Rightarrow> (if absent then (Some CVL_SEMANTIC_KEY_NOT_EXIST, c) else (None, setOp ''UPDATE''))
         | OP_DELETE \<Rightarrow> (if absent then (Some CVL_SEMANTIC_KEY_NOT_EXIST, c) else (None, setOp ''DELETE'')))"

text \<open>The YANG node of the first cached request for the key, else the one found in the tree.\<close>

definition nodeFor ::
  "('y, 'n) layers \<Rightarrow> string \<Rightarrow> string \<Rightarrow> string \<Rightarrow> 'y CVL \<Rightarrow> 'n option \<times> 'y CVL" where
  "nodeFor E yangListName tbl key c =
     (case yangDataOf E (yangState c) tbl key of
        Some n \<Rightarrow> (Some n, c)
      | None \<Rightarrow> (let (n, y) = moveToYangList E yangListName key (yangState c) in (n, c\<lparr>yangState := y\<rparr>)))"

text \<open>Steps 3.2 and 3.3; the first component tells whether the error object is returned.\<close>

definition validateNode ::
  "('y, 'n) layers \<Rightarrow> CVLEditConfigData list \<Rightarrow> nat \<Rightarrow> string \<Rightarrow> string \<Rightarrow> string \<Rightarrow> 'n \<Rightarrow> 'y CVL \<Rightarrow>
   bool \<times> CVLErrorInfo \<times> 'y CVL" where
  "validateNode E cfg i yangListName tbl key node c =
     (let (obj1, yt1) = doCustomValidation E node cfg i yangListName tbl key c; c1 = setYang c yt1
      in if ei_ErrCode obj1 \<noteq> CVL_SUCCESS then (True, obj1, c1)
         else
           (let (obj2, yt2) = checkSemantics E node yangListName key (cfg ! i) c1
            in (ei_ErrCode obj2 \<noteq> CVL_SUCCESS, obj2, setYang c1 yt2)))"

text \<open>
  One round of step 3 for the item at an index; the error object is carried along.  \<^term>\<open>None\<close>: no request
  for the key is cached (index out of range).
\<close>

definition semanticItem ::
  "('y, 'n) layers \<Rightarrow> modelDataInfo \<Rightarrow> CVLEditConfigData list \<Rightarrow> nat \<Rightarrow> CVLErrorInfo \<Rightarrow> 'y CVL \<Rightarrow>
   (bool \<times> CVLErrorInfo \<times> 'y CVL) option" where
  "semanticItem E mi cfg i obj c =
     (let item = cfg ! i
      in if VType item \<noteq> VALIDATE_ALL \<and> VType item \<noteq> VALIDATE_SEMANTICS then Some (False, obj, c)
         else
           (let (tbl, key) = splitRedisKey mi (cfgKey item); (e, c1) = checkKey E item tbl key c
            in case e of
                 Some code \<Rightarrow> Some (True, withCode code obj, c1)
               | None \<Rightarrow>
                   (let yangListName = getRedisTblToYangList mi tbl key
                    in if cachedReqs c1 tbl key = [] then None
                       else
                         (let (node, c2) = nodeFor E yangListName tbl key c1
                          in case node of
                               None \<Rightarrow> Some (False, obj, c2)
                             | Some n \<Rightarrow> Some (validateNode E cfg i yangListName tbl key n c2)))))"

fun semanticLoop ::
  "('y, 'n) layers \<Rightarrow> modelDataInfo \<Rightarrow> CVLEditConfigData list \<Rightarrow> nat list \<Rightarrow> CVLErrorInfo \<Rightarrow> 'y CVL \<Rightarrow>
   (bool \<times> CVLErrorInfo \<times> 'y CVL) option" where
  "semanticLoop E mi cfg [] obj c = Some (False, obj, c)"
| "semanticLoop E mi cfg (i # is) obj c =
     do { (stop, obj1, c1) \<leftarrow> semanticItem E mi cfg i obj c;
          if stop then Some (True, obj1, c1) else semanticLoop E mi cfg is obj1 c1 }"

subsection \<open>Validating an edit request\<close>

definition ValidateEditConfig ::
  "('y, 'n) layers \<Rightarrow> modelDataInfo \<Rightarrow> 'y CVL \<Rightarrow> CVLEditConfigData list \<Rightarrow> (edit_result \<times> 'y CVL) option" where
  "ValidateEditConfig E mi c cfg =
     (if SkipValidation E then Some ((emptyErrorInfo, CVL_SUCCESS), c)
      else
        do { (e, c1, req) \<leftarrow> requestLoop E mi cfg cfg (clearTmpDbCache c) [];
             case e of
               Some r \<Rightarrow> Some (r, c1)
             | None \<Rightarrow>
                 (let (errN, yt) = toYang E req c1; c2 = setYang c1 yt
                  in if ei_ErrCode errN \<noteq> CVL_SUCCESS then Some ((errN, ei_ErrCode errN), c2)
                     else
                       (let ((obj, ret), yt') = checkSyntax E c2; c3 = setYang c2 yt'
                        in if ret \<noteq> CVL_SUCCESS then Some ((obj, ret), c3)
                           else
                             map_option (\<lambda>(stop, obj, c4).
                               if stop then ((obj, ei_ErrCode obj), c4)
                               else ((obj, CVL_SUCCESS), c4\<lparr>yangState := DestroyCache E (yangState c4)\<rparr>))
                               (semanticLoop E mi cfg [0..<length cfg] emptyErrorInfo c3))) })"

text \<open>The functions of the API that are not implemented.\<close>

definition ValidateKeys :: "string list \<Rightarrow> CVLRetCode" where
  "ValidateKeys key = CVL_NOT_IMPLEMENTED"

definition ValidateKeyData :: "string \<Rightarrow> string \<Rightarrow> CVLRetCode" where
  "ValidateKeyData key data = CVL_NOT_IMPLEMENTED"

definition ValidateFields :: "string \<Rightarrow> string \<Rightarrow> string \<Rightarrow> CVLRetCode" where
  "ValidateFields key field value = CVL_NOT_IMPLEMENTED"

end
