(* ===== verification/Cvl_Edit_Props.thy ===== *)
theory Cvl_Edit_Props
  imports Cvl_Edit
begin

text \<open>
  What an accepted edit request guarantees, that a request of the database layer cannot make the validation
  panic, and that accepted requests respect the size of a table.
\<close>

subsection \<open>What the steps leave alone\<close>

lemma setYang_frame [simp]:
  "requestCache (setYang c yt) = requestCache c" "maxTableElem (setYang c yt) = maxTableElem c"
  by (simp_all add: setYang_def)

lemma addTableEntry_frame [simp]:
  "requestCache (addTableEntryToCache t k c) = requestCache c"
  "maxTableElem (addTableEntryToCache t k c) = maxTableElem c"
  by (simp_all add: addTableEntryToCache_def split: option.split)

lemma addToRequestCache_frame [simp]: "maxTableElem (addToRequestCache t k item c) = maxTableElem c"
  by (simp add: addToRequestCache_def Let_def)

lemma clear_frame [simp]:
  "requestCache (clearTmpDbCache c) = requestCache c" "maxTableElem (clearTmpDbCache c) = maxTableElem c"
  by (simp_all add: clearTmpDbCache_def)

lemma checkMaxElem_frame:
  "checkMaxElemConstraint E mi c op t = Some (ret, c') \<Longrightarrow> requestCache c' = requestCache c"
  by (auto simp: checkMaxElemConstraint_def Let_def split: if_splits option.splits)

lemma checkKey_frame [simp]:
  "requestCache (snd (checkKey E item t k c)) = requestCache c"
  "maxTableElem (snd (checkKey E item t k c)) = maxTableElem c"
  by (auto simp: checkKey_def Let_def split: CVLOperation.splits if_splits)

lemma cachedReqs_cong: "requestCache c' = requestCache c \<Longrightarrow> cachedReqs c' = cachedReqs c"
  by (simp add: cachedReqs_def fun_eq_iff)

lemma cachedReqs_add:
  "cachedReqs (addToRequestCache t k item c) t' k' = cachedReqs c t' k' @ (if t' = t \<and> k' = k then [item] else [])"
  by (auto simp: cachedReqs_def addToRequestCache_def Let_def split: option.split)

lemma checkOperation_frame:
  assumes "checkOperation E mi cfg item t k c = Some (e, c')"
  shows "requestCache c' = requestCache c"
  using assms
  by (auto simp: checkOperation_def editError_def Let_def bind_eq_Some_conv checkMaxElem_frame
      split: CVLOperation.splits if_splits)

lemma nodeFor_frame [simp]:
  "requestCache (snd (nodeFor E l t k c)) = requestCache c"
  "maxTableElem (snd (nodeFor E l t k c)) = maxTableElem c"
  by (simp_all add: nodeFor_def split_def Let_def split: option.split)

lemma validateNode_frame [simp]:
  "requestCache (snd (snd (validateNode E cfg i l t k n c))) = requestCache c"
  "maxTableElem (snd (snd (validateNode E cfg i l t k n c))) = maxTableElem c"
  by (simp_all add: validateNode_def split_def Let_def)

lemma validateNode_error: "fst (validateNode E cfg i l t k n c) \<Longrightarrow> ei_ErrCode (fst (snd (validateNode E cfg i l t k n c))) \<noteq> CVL_SUCCESS"
  by (auto simp: validateNode_def split_def Let_def split: if_splits)

text \<open>One round of the second loop, by the outcome of the key check and of the search for the node.\<close>

lemma semanticItem_cases:
  fixes c :: "'y CVL"
  assumes "splitRedisKey mi (cfgKey (cfg ! i)) = (t, k)" "checkKey E (cfg ! i) t k c = (e, c1)"
    "nodeFor E (getRedisTblToYangList mi t k) t k c1 = (node, c2)"
  shows "semanticItem E mi cfg i obj c =
    (if VType (cfg ! i) \<noteq> VALIDATE_ALL \<and> VType (cfg ! i) \<noteq> VALIDATE_SEMANTICS then Some (False, obj, c)
     else case e of
       Some code \<Rightarrow> Some (True, withCode code obj, c1)
     | None \<Rightarrow> if cachedReqs c1 t k = [] then None
               else case node of None \<Rightarrow> Some (False, obj, c2)
                 | Some n \<Rightarrow> Some (validateNode E cfg i (getRedisTblToYangList mi t k) t k n c2))"
  using assms by (cases e) (simp_all add: semanticItem_def Let_def)

lemma semanticItem_frame:
  assumes "semanticItem E mi cfg i obj c = Some (stop, obj', c')"
  shows "requestCache c' = requestCache c \<and> maxTableElem c' = maxTableElem c"
proof -
  obtain t k where s: "splitRedisKey mi (cfgKey (cfg ! i)) = (t, k)" by fastforce
  obtain e c1 where e: "checkKey E (cfg ! i) t k c = (e, c1)" by fastforce
  obtain node c2 where n: "nodeFor E (getRedisTblToYangList mi t k) t k c1 = (node, c2)" by fastforce
  have "requestCache c1 = requestCache c \<and> maxTableElem c1 = maxTableElem c"
    "requestCache c2 = requestCache c1 \<and> maxTableElem c2 = maxTableElem c1"
    using checkKey_frame [of E "cfg ! i" t k c] nodeFor_frame [of E "getRedisTblToYangList mi t k" t k c1] e n
    by simp_all
  moreover have "requestCache c' = requestCache c2 \<and> maxTableElem c' = maxTableElem c2"
    if "validateNode E cfg i (getRedisTblToYangList mi t k) t k nd c2 = (stop, obj', c')" for nd
    using validateNode_frame [of E cfg i "getRedisTblToYangList mi t k" t k nd c2] that by simp
  ultimately show ?thesis
    using assms unfolding semanticItem_cases [OF s e n]
    by (auto split: if_splits option.splits)
qed

lemma semanticLoop_frame:
  "semanticLoop E mi cfg is obj c = Some (stop, obj', c') \<Longrightarrow>
   requestCache c' = requestCache c \<and> maxTableElem c' = maxTableElem c"
proof (induction "is" arbitrary: obj c)
  case (Cons i "is")
  from Cons.prems obtain s o1 c1 where 1: "semanticItem E mi cfg i obj c = Some (s, o1, c1)"
    and 2: "(if s then Some (True, o1, c1) else semanticLoop E mi cfg is o1 c1) = Some (stop, obj', c')"
    by (auto simp: bind_eq_Some_conv)
  show ?case
  proof (cases s)
    case True
    with 1 2 show ?thesis using semanticItem_frame by fastforce
  next
    case False
    with 2 have "semanticLoop E mi cfg is o1 c1 = Some (stop, obj', c')" by simp
    from Cons.IH [OF this] semanticItem_frame [OF 1] show ?thesis by simp
  qed
qed simp


subsection \<open>The panics\<close>

text \<open>
  The schema: every list has a key.  The request: create and update carry no empty field name, and no item
  asks for the semantic part only.  The requests of the database layer are of this kind.
\<close>

definition schemaOk :: "modelDataInfo \<Rightarrow> bool" where
  "schemaOk mi \<longleftrightarrow> list_all (\<lambda>(_, ti). ti_keys ti \<noteq> []) (tableInfo mi)"

definition itemOk :: "CVLEditConfigData \<Rightarrow> bool" where
  "itemOk item \<longleftrightarrow> VType item \<noteq> VALIDATE_SEMANTICS \<and> list_all (\<lambda>(f, _). f \<noteq> []) (cfgData item)"

lemma schemaOk_keys: "schemaOk mi \<Longrightarrow> mapGet (tableInfo mi) t = Some ti \<Longrightarrow> ti_keys ti \<noteq> []"
  using mapGet_SomeD [of "tableInfo mi" t ti] by (force simp: schemaOk_def list_all_iff)

lemma checkFieldMap_total: "list_all (\<lambda>(f, _). f \<noteq> []) fs \<Longrightarrow> checkFieldMap fs new \<noteq> None"
  by (induction fs new rule: checkFieldMap.induct) auto

lemma splitRedisKey_known:
  assumes "splitRedisKey mi key = (t, k)" "k \<noteq> []"
  shows "mapHas (tableInfo mi) t"
  using assms by (auto simp: splitRedisKey_def Let_def split: option.splits if_splits)

lemma usedAsLeafRef_known: "ref \<in> set (findUsedAsLeafRef mi t f) \<Longrightarrow> mapHas (tableInfo mi) (tf_tableName ref)"
  by (force simp: findUsedAsLeafRef_def mapHas_iff split: if_splits option.splits)

lemma checkRefs_total:
  assumes "\<forall>ref \<in> set refs. mapHas (tableInfo mi) (tf_tableName ref)"
  shows "checkRefs E mi cfg k refs \<noteq> None"
  using assms
  by (induction refs) (auto simp: checkDeleteInRequestCache_def mapHas_def split: option.splits)

lemma checkDelete_total:
  assumes "schemaOk mi" "mapHas (tableInfo mi) t"
  shows "checkDeleteConstraint E mi cfg t k f \<noteq> None"
proof (cases "f = []")
  case True
  from assms(2) obtain ti where ti: "mapGet (tableInfo mi) t = Some ti" by (auto simp: mapHas_def)
  with assms(1) obtain key ks where "ti_keys ti = key # ks" using schemaOk_keys by (cases "ti_keys ti") auto
  with True ti show ?thesis by (simp add: checkDeleteConstraint_def checkRefs_total usedAsLeafRef_known del: not_None_eq)
qed (simp add: checkDeleteConstraint_def checkRefs_total usedAsLeafRef_known del: not_None_eq)

lemma checkFieldDeletes_total:
  assumes "schemaOk mi" "mapHas (tableInfo mi) t"
  shows "checkFieldDeletes E mi cfg t k fs \<noteq> None"
proof (induction fs)
  case (Cons fv fs)
  obtain f v where [simp]: "fv = (f, v)" by (cases fv)
  from checkDelete_total [OF assms] obtain r where "checkDeleteConstraint E mi cfg t k f = Some r" by blast
  with Cons.IH show ?case by simp
qed simp

lemma checkMaxElem_total: "mapHas (tableInfo mi) t \<Longrightarrow> checkMaxElemConstraint E mi c op t \<noteq> None"
  by (auto simp: checkMaxElemConstraint_def mapHas_def split: option.splits)

lemma checkOperation_total:
  assumes "schemaOk mi" "mapHas (tableInfo mi) t"
  shows "checkOperation E mi cfg item t k c \<noteq> None"
proof (cases "VOp item")
  case OP_CREATE
  from checkMaxElem_total [OF assms(2)] obtain ret c1
    where "checkMaxElemConstraint E mi c OP_CREATE t = Some (ret, c1)" by fast
  with OP_CREATE assms(2) show ?thesis by (auto simp: checkOperation_def mapHas_def split: prod.split)
next
  case OP_DELETE
  from checkMaxElem_total [OF assms(2)] obtain ret c1
    where m: "checkMaxElemConstraint E mi c OP_DELETE t = Some (ret, c1)" by fast
  from checkDelete_total [OF assms] obtain r where r: "checkDeleteConstraint E mi cfg t k [] = Some r" by blast
  from checkFieldDeletes_total [OF assms] obtain r'
    where "checkFieldDeletes E mi cfg t k (cfgData item) = Some r'" by blast
  with OP_DELETE m r show ?thesis by (simp add: checkOperation_def)
qed (simp_all add: checkOperation_def)


subsection \<open>The first loop\<close>

lemma addCfgDataItem_total: "itemOk item \<Longrightarrow> addCfgDataItem mi req item \<noteq> None"
  using checkFieldMap_total [of "cfgData item" "[]"]
  by (auto simp: addCfgDataItem_def itemOk_def split_def Let_def split: option.split)

lemma addCfgDataItem_key:
  assumes "addCfgDataItem mi req item = Some ((t, k), req')"
  shows "(if fst (splitRedisKey mi (cfgKey item)) = [] \<or> snd (splitRedisKey mi (cfgKey item)) = [] then ([], [])
          else splitRedisKey mi (cfgKey item)) = (t, k)"
  using assms by (auto simp: addCfgDataItem_def split_def Let_def bind_eq_Some_conv split: option.splits if_splits)

text \<open>What the first loop requires of an item it accepts.\<close>

definition deletable :: "('y, 'n) layers \<Rightarrow> modelDataInfo \<Rightarrow> CVLEditConfigData list \<Rightarrow> string \<Rightarrow> string \<Rightarrow> string \<Rightarrow> bool" where
  "deletable E mi cfg t k f \<longleftrightarrow>
     (\<forall>ref \<in> set (findUsedAsLeafRef mi t (if f \<noteq> [] then f else hd (ti_keys (the (mapGet (tableInfo mi) t))))).
        checkDeleteInRequestCache mi cfg ref k = Some True \<or>
        findKey E (tf_tableName ref) (redisKeyDelim (the (mapGet (tableInfo mi) (tf_tableName ref)))) (tf_field ref) k
          \<in> {None, Some []})"

definition deleteAllowed :: "('y, 'n) layers \<Rightarrow> modelDataInfo \<Rightarrow> CVLEditConfigData list \<Rightarrow> CVLEditConfigData \<Rightarrow> bool" where
  "deleteAllowed E mi cfg item \<longleftrightarrow>
     (let (t, k) = splitRedisKey mi (cfgKey item)
      in t \<noteq> [] \<and> k \<noteq> [] \<and> mapHas (tableInfo mi) t \<and>
         (VOp item = OP_DELETE \<longrightarrow>
            (if cfgData item = [] then deletable E mi cfg t k []
             else \<forall>f \<in> set (map fst (cfgData item)). deletable E mi cfg t k f)))"

lemma checkRefs_success:
  "checkRefs E mi cfg k refs = Some CVL_SUCCESS \<Longrightarrow> ref \<in> set refs \<Longrightarrow>
   checkDeleteInRequestCache mi cfg ref k = Some True \<or>
   findKey E (tf_tableName ref) (redisKeyDelim (the (mapGet (tableInfo mi) (tf_tableName ref)))) (tf_field ref) k
     \<in> {None, Some []}"
proof (induction refs)
  case (Cons r refs)
  from Cons.prems(1) obtain gone where g: "checkDeleteInRequestCache mi cfg r k = Some gone"
    by (auto simp: bind_eq_Some_conv)
  show ?case
  proof (cases "ref = r \<and> \<not> gone")
    case True
    then show ?thesis using Cons.prems(1) g
      by (cases "findKey E (tf_tableName r) (redisKeyDelim (the (mapGet (tableInfo mi) (tf_tableName r)))) (tf_field r) k")
        (auto simp: bind_eq_Some_conv split: if_splits)
  next
    case False
    then show ?thesis using Cons g by (auto simp: bind_eq_Some_conv split: option.splits if_splits)
  qed
qed simp

lemma checkDelete_success:
  assumes "checkDeleteConstraint E mi cfg t k f = Some CVL_SUCCESS"
  shows "deletable E mi cfg t k f"
proof -
  let ?f = "if f \<noteq> [] then f else hd (ti_keys (the (mapGet (tableInfo mi) t)))"
  have "checkRefs E mi cfg k (findUsedAsLeafRef mi t ?f) = Some CVL_SUCCESS"
  proof (cases "f = []")
    case True
    then obtain ti where ti: "mapGet (tableInfo mi) t = Some ti"
      using assms by (auto simp: checkDeleteConstraint_def bind_eq_Some_conv)
    with True assms show ?thesis by (cases "ti_keys ti") (simp_all add: checkDeleteConstraint_def)
  qed (use assms in \<open>simp add: checkDeleteConstraint_def\<close>)
  from checkRefs_success [OF this] show ?thesis unfolding deletable_def by blast
qed

lemma checkFieldDeletes_success:
  "checkFieldDeletes E mi cfg t k fs = Some CVL_SUCCESS \<Longrightarrow> \<forall>f \<in> set (map fst fs). deletable E mi cfg t k f"
proof (induction fs)
  case (Cons fv fs)
  obtain f v where [simp]: "fv = (f, v)" by (cases fv)
  from Cons.prems have "checkDeleteConstraint E mi cfg t k f = Some CVL_SUCCESS"
    "checkFieldDeletes E mi cfg t k fs = Some CVL_SUCCESS" by (auto simp: bind_eq_Some_conv split: if_splits)
  with Cons.IH checkDelete_success show ?case by auto
qed simp

lemma checkOperation_success:
  assumes "checkOperation E mi cfg item t k c = Some (None, c')" "VOp item = OP_DELETE"
  shows "if cfgData item = [] then deletable E mi cfg t k []
         else \<forall>f \<in> set (map fst (cfgData item)). deletable E mi cfg t k f"
  using assms checkFieldDeletes_success
  by (fastforce simp: checkOperation_def bind_eq_Some_conv checkDelete_success split: if_splits)

text \<open>The item as it is stored in the request cache: nothing unless it is to be validated.\<close>

definition itemAt :: "modelDataInfo \<Rightarrow> string \<Rightarrow> string \<Rightarrow> CVLEditConfigData \<Rightarrow> bool" where
  "itemAt mi t k item \<longleftrightarrow> VType item = VALIDATE_ALL \<and> splitRedisKey mi (cfgKey item) = (t, k)"

lemma requestItem_accept:
  assumes "requestItem E mi cfg item c req = Some (None, c', req')"
  shows "(VType item = VALIDATE_ALL \<longrightarrow> deleteAllowed E mi cfg item) \<and>
         (\<forall>t k. cachedReqs c' t k = cachedReqs c t k @ filter (itemAt mi t k) [item])"
proof (cases "VType item = VALIDATE_ALL")
  case True
  with assms obtain t k where a: "addCfgDataItem mi req item = Some ((t, k), req')" and k: "k \<noteq> []"
    and o: "checkOperation E mi cfg item t k (addToRequestCache t k item c) = Some (None, c')"
    by (auto simp: requestItem_def Let_def bind_eq_Some_conv split: if_splits)
  from addCfgDataItem_key [OF a] k have s: "splitRedisKey mi (cfgKey item) = (t, k)" "t \<noteq> []"
    by (auto split: if_splits)
  have "deleteAllowed E mi cfg item"
    using s k splitRedisKey_known [OF s(1) k] checkOperation_success [OF o] by (simp add: deleteAllowed_def)
  moreover have "cachedReqs c' = cachedReqs (addToRequestCache t k item c)"
    by (rule cachedReqs_cong) (rule checkOperation_frame [OF o])
  ultimately show ?thesis using True s by (auto simp: cachedReqs_add itemAt_def)
qed (use assms in \<open>simp add: requestItem_def itemAt_def\<close>)

lemma requestLoop_accept:
  "requestLoop E mi cfg items c req = Some (None, c', req') \<Longrightarrow>
   (\<forall>item \<in> set items. VType item = VALIDATE_ALL \<longrightarrow> deleteAllowed E mi cfg item) \<and>
   (\<forall>t k. cachedReqs c' t k = cachedReqs c t k @ filter (itemAt mi t k) items)"
proof (induction items arbitrary: c req)
  case (Cons item items)
  from Cons.prems obtain e c1 req1 where "requestItem E mi cfg item c req = Some (e, c1, req1)"
    "(case e of Some r \<Rightarrow> Some (Some r, c1, req1) | None \<Rightarrow> requestLoop E mi cfg items c1 req1) = Some (None, c', req')"
    by (auto simp: bind_eq_Some_conv)
  then have 1: "requestItem E mi cfg item c req = Some (None, c1, req1)"
    and 2: "requestLoop E mi cfg items c1 req1 = Some (None, c', req')" by (cases e; simp)+
  from requestItem_accept [OF 1] Cons.IH [OF 2] show ?case by simp
qed simp

lemma requestItem_total:
  assumes "schemaOk mi" "itemOk item"
  shows "requestItem E mi cfg item c req \<noteq> None"
proof (cases "VType item = VALIDATE_ALL")
  case True
  from addCfgDataItem_total [OF assms(2)] obtain t k req1
    where a: "addCfgDataItem mi req item = Some ((t, k), req1)" by fast
  show ?thesis
  proof (cases "k = []")
    case False
    with addCfgDataItem_key [OF a] have "splitRedisKey mi (cfgKey item) = (t, k)" by (auto split: if_splits)
    from splitRedisKey_known [OF this False] checkOperation_total [OF assms(1)]
    have "checkOperation E mi cfg item t k (addToRequestCache t k item c) \<noteq> None" by blast
    with True a False show ?thesis by (auto simp: requestItem_def Let_def)
  qed (use True a in \<open>simp add: requestItem_def Let_def\<close>)
qed (simp add: requestItem_def)

lemma requestLoop_total:
  assumes "schemaOk mi" "list_all itemOk items"
  shows "requestLoop E mi cfg items c req \<noteq> None"
  using assms(2)
proof (induction items arbitrary: c req)
  case (Cons item items)
  from requestItem_total [OF assms(1)] Cons.prems obtain e c1 req1
    where "requestItem E mi cfg item c req = Some (e, c1, req1)" by (metis list.pred_inject(2) not_None_eq prod_cases3)
  moreover have "requestLoop E mi cfg items c1 req1 \<noteq> None" using Cons by simp
  ultimately show ?case by (auto split: option.split)
qed simp


subsection \<open>The second loop and the whole request\<close>

definition keyOk :: "('y, 'n) layers \<Rightarrow> CVLEditConfigData list \<Rightarrow> CVLEditConfigData \<Rightarrow> bool" where
  "keyOk E cached item =
     (case VOp item of
        OP_NONE \<Rightarrow> True
      | OP_CREATE \<Rightarrow>
          (case keyExists E (cfgKey item) of None \<Rightarrow> True | Some n \<Rightarrow> n \<le> 0) \<or>
          list_ex (\<lambda>req. VOp req = OP_DELETE) cached
      | _ \<Rightarrow> (case keyExists E (cfgKey item) of None \<Rightarrow> False | Some n \<Rightarrow> n \<noteq> 0))"

definition cachedFor :: "modelDataInfo \<Rightarrow> 'y CVL \<Rightarrow> CVLEditConfigData \<Rightarrow> CVLEditConfigData list" where
  "cachedFor mi c item = (let (t, k) = splitRedisKey mi (cfgKey item) in cachedReqs c t k)"

lemma cachedFor_cong: "requestCache c' = requestCache c \<Longrightarrow> cachedFor mi c' = cachedFor mi c"
  using cachedReqs_cong [of c' c] by (simp add: cachedFor_def fun_eq_iff)

lemma checkKey_ok: "fst (checkKey E item t k c) = None \<Longrightarrow> keyOk E (cachedReqs c t k) item"
  by (auto simp: checkKey_def keyOk_def Let_def split: CVLOperation.splits option.splits if_splits)

lemma semanticItem_accept:
  assumes "semanticItem E mi cfg i obj c = Some (False, obj', c')" "VType (cfg ! i) = VALIDATE_ALL"
  shows "keyOk E (cachedFor mi c (cfg ! i)) (cfg ! i)"
proof -
  obtain t k where s: "splitRedisKey mi (cfgKey (cfg ! i)) = (t, k)" by fastforce
  obtain e c1 where e: "checkKey E (cfg ! i) t k c = (e, c1)" by fastforce
  obtain node c2 where n: "nodeFor E (getRedisTblToYangList mi t k) t k c1 = (node, c2)" by fastforce
  have "e = None" using assms unfolding semanticItem_cases [OF s e n] by (cases e) simp_all
  with e checkKey_ok [of E "cfg ! i" t k c] s show ?thesis by (simp add: cachedFor_def)
qed

lemma semanticLoop_accept:
  "semanticLoop E mi cfg is obj c = Some (False, obj', c') \<Longrightarrow>
   \<forall>i \<in> set is. VType (cfg ! i) = VALIDATE_ALL \<longrightarrow> keyOk E (cachedFor mi c (cfg ! i)) (cfg ! i)"
proof (induction "is" arbitrary: obj c)
  case (Cons i "is")
  from Cons.prems obtain s o1 c1 where "semanticItem E mi cfg i obj c = Some (s, o1, c1)"
    "(if s then Some (True, o1, c1) else semanticLoop E mi cfg is o1 c1) = Some (False, obj', c')"
    by (auto simp: bind_eq_Some_conv)
  then have 1: "semanticItem E mi cfg i obj c = Some (False, o1, c1)"
    and 2: "semanticLoop E mi cfg is o1 c1 = Some (False, obj', c')" by (cases s; simp)+
  have "cachedFor mi c1 = cachedFor mi c" using semanticItem_frame [OF 1] cachedFor_cong by blast
  with semanticItem_accept [OF 1] Cons.IH [OF 2] show ?case by simp
qed simp

lemma semanticItem_total:
  assumes "VType (cfg ! i) = VALIDATE_ALL \<longrightarrow> cachedFor mi c (cfg ! i) \<noteq> []" "itemOk (cfg ! i)"
  shows "semanticItem E mi cfg i obj c \<noteq> None"
proof (cases "VType (cfg ! i) = VALIDATE_ALL")
  case True
  obtain t k where s: "splitRedisKey mi (cfgKey (cfg ! i)) = (t, k)" by fastforce
  obtain e c1 where e: "checkKey E (cfg ! i) t k c = (e, c1)" by fastforce
  obtain node c2 where n: "nodeFor E (getRedisTblToYangList mi t k) t k c1 = (node, c2)" by fastforce
  have "cachedReqs c1 = cachedReqs c"
    by (rule cachedReqs_cong) (use checkKey_frame(1) [of E "cfg ! i" t k c] e in simp)
  with assms s True have "cachedReqs c1 t k \<noteq> []" by (simp add: cachedFor_def)
  then show ?thesis unfolding semanticItem_cases [OF s e n] by (simp del: not_None_eq split: option.split)
qed (use assms in \<open>simp add: semanticItem_def itemOk_def Let_def\<close>)

lemma semanticLoop_total:
  assumes "\<forall>i \<in> set is. itemOk (cfg ! i) \<and> (VType (cfg ! i) = VALIDATE_ALL \<longrightarrow> cachedFor mi c (cfg ! i) \<noteq> [])"
  shows "semanticLoop E mi cfg is obj c \<noteq> None"
  using assms
proof (induction "is" arbitrary: obj c)
  case (Cons i "is")
  then have "semanticItem E mi cfg i obj c \<noteq> None" by (intro semanticItem_total) simp_all
  then obtain s o1 c1 where 1: "semanticItem E mi cfg i obj c = Some (s, o1, c1)" by fast
  have "cachedFor mi c1 = cachedFor mi c" using semanticItem_frame [OF 1] cachedFor_cong by blast
  with Cons have "semanticLoop E mi cfg is o1 c1 \<noteq> None" by simp
  with 1 show ?case by (cases s) simp_all
qed simp

text \<open>An early return carries an error.\<close>

lemma checkOperation_error:
  "checkOperation E mi cfg item t k c = Some (Some r, c') \<Longrightarrow> snd r \<noteq> CVL_SUCCESS"
  by (auto simp: checkOperation_def editError_def Let_def bind_eq_Some_conv split: CVLOperation.splits if_splits)

lemma requestItem_error:
  "requestItem E mi cfg item c req = Some (Some r, c', req') \<Longrightarrow> snd r \<noteq> CVL_SUCCESS"
  by (auto simp: requestItem_def editError_def Let_def bind_eq_Some_conv dest: checkOperation_error split: if_splits)

lemma requestLoop_error:
  "requestLoop E mi cfg items c req = Some (Some r, c', req') \<Longrightarrow> snd r \<noteq> CVL_SUCCESS"
proof (induction items arbitrary: c req)
  case (Cons item items)
  from Cons.prems obtain e c1 req1 where 1: "requestItem E mi cfg item c req = Some (e, c1, req1)"
    and 2: "(case e of Some r \<Rightarrow> Some (Some r, c1, req1) | None \<Rightarrow> requestLoop E mi cfg items c1 req1) =
      Some (Some r, c', req')"
    by (auto simp: bind_eq_Some_conv)
  show ?case
  proof (cases e)
    case None
    with 2 Cons.IH show ?thesis by simp
  next
    case (Some r')
    with 1 2 show ?thesis using requestItem_error by fastforce
  qed
qed simp

lemma semanticItem_error:
  assumes "semanticItem E mi cfg i obj c = Some (True, obj', c')"
  shows "ei_ErrCode obj' \<noteq> CVL_SUCCESS"
proof -
  obtain t k where s: "splitRedisKey mi (cfgKey (cfg ! i)) = (t, k)" by fastforce
  obtain e c1 where e: "checkKey E (cfg ! i) t k c = (e, c1)" by fastforce
  obtain node c2 where n: "nodeFor E (getRedisTblToYangList mi t k) t k c1 = (node, c2)" by fastforce
  have "e \<noteq> Some CVL_SUCCESS" using e by (auto simp: checkKey_def Let_def split: CVLOperation.splits if_splits)
  moreover have "ei_ErrCode obj' \<noteq> CVL_SUCCESS"
    if "validateNode E cfg i (getRedisTblToYangList mi t k) t k nd c2 = (True, obj', c')" for nd
    using validateNode_error [of E cfg i "getRedisTblToYangList mi t k" t k nd c2] that by simp
  ultimately show ?thesis
    using assms unfolding semanticItem_cases [OF s e n]
    by (auto simp: withCode_def split: if_splits option.splits)
qed

lemma semanticLoop_error:
  "semanticLoop E mi cfg is obj c = Some (True, obj', c') \<Longrightarrow> ei_ErrCode obj' \<noteq> CVL_SUCCESS"
proof (induction "is" arbitrary: obj c)
  case (Cons i "is")
  from Cons.prems obtain s o1 c1 where 1: "semanticItem E mi cfg i obj c = Some (s, o1, c1)"
    and 2: "(if s then Some (True, o1, c1) else semanticLoop E mi cfg is o1 c1) = Some (True, obj', c')"
    by (auto simp: bind_eq_Some_conv)
  show ?case
  proof (cases s)
    case True
    with 1 2 have "semanticItem E mi cfg i obj c = Some (True, obj', c')" by simp
    then show ?thesis by (rule semanticItem_error)
  qed (use 2 Cons.IH in simp)
qed simp

text \<open>The steps of an accepted request, from the first loop to the second.\<close>

lemma ValidateEditConfig_steps:
  assumes "ValidateEditConfig E mi c cfg = Some ((obj, CVL_SUCCESS), c')" "\<not> SkipValidation E"
  obtains c1 req c3 c4 where
    "requestLoop E mi cfg cfg (clearTmpDbCache c) [] = Some (None, c1, req)"
    "requestCache c3 = requestCache c1" "maxTableElem c3 = maxTableElem c1"
    "semanticLoop E mi cfg [0..<length cfg] emptyErrorInfo c3 = Some (False, obj, c4)"
    "requestCache c' = requestCache c4" "maxTableElem c' = maxTableElem c4"
proof -
  let ?c = "clearTmpDbCache c"
  from assms obtain e c1 req where r: "requestLoop E mi cfg cfg ?c [] = Some (e, c1, req)"
    by (auto simp: ValidateEditConfig_def bind_eq_Some_conv)
  obtain errN yt where y: "toYang E req c1 = (errN, yt)" by (cases "toYang E req c1")
  obtain o2 ret yt' where z: "checkSyntax E (setYang c1 yt) = ((o2, ret), yt')" by (metis surj_pair)
  let ?c3 = "setYang (setYang c1 yt) yt'"
  note V = assms(1) [unfolded ValidateEditConfig_def if_not_P [OF assms(2)] r]
  have e: "e = None"
  proof (cases e)
    case (Some x)
    with requestLoop_error [of E mi cfg cfg ?c "[]" x] r V show ?thesis by auto
  qed simp
  have "ei_ErrCode errN = CVL_SUCCESS" using V e y by (auto simp: Let_def split: if_splits)
  moreover have "ret = CVL_SUCCESS" using V e y z by (auto simp: Let_def split: if_splits)
  ultimately obtain stop obj4 c4 where l: "semanticLoop E mi cfg [0..<length cfg] emptyErrorInfo ?c3 = Some (stop, obj4, c4)"
    and c': "(if stop then ((obj4, ei_ErrCode obj4), c4)
              else ((obj4, CVL_SUCCESS), c4\<lparr>yangState := DestroyCache E (yangState c4)\<rparr>)) = ((obj, CVL_SUCCESS), c')"
    using V e y z by (auto simp: Let_def)
  have "\<not> stop" using c' l semanticLoop_error [of E mi cfg "[0..<length cfg]" emptyErrorInfo ?c3 obj4 c4] by auto
  show ?thesis
    by (rule that [of c1 req ?c3 c4]) (use r e l c' \<open>\<not> stop\<close> in auto)
qed


lemma filter_itemAt_nonempty:
  assumes "i < length cfg" "VType (cfg ! i) = VALIDATE_ALL"
  shows "filter (itemAt mi (fst (splitRedisKey mi (cfgKey (cfg ! i)))) (snd (splitRedisKey mi (cfgKey (cfg ! i))))) cfg \<noteq> []"
  using assms nth_mem [OF assms(1)] by (auto simp: itemAt_def filter_empty_conv)

lemma ValidateEditConfig_total:
  assumes "schemaOk mi" "list_all itemOk cfg"
  shows "ValidateEditConfig E mi c cfg \<noteq> None"
proof (cases "SkipValidation E")
  case False
  from requestLoop_total [OF assms] obtain e c1 req
    where r: "requestLoop E mi cfg cfg (clearTmpDbCache c) [] = Some (e, c1, req)" by fast
  obtain errN yt where y: "toYang E req c1 = (errN, yt)" by (cases "toYang E req c1")
  obtain o2 ret yt' where z: "checkSyntax E (setYang c1 yt) = ((o2, ret), yt')" by (metis surj_pair)
  let ?c3 = "setYang (setYang c1 yt) yt'"
  have "semanticLoop E mi cfg [0..<length cfg] emptyErrorInfo ?c3 \<noteq> None" if "e = None"
  proof (rule semanticLoop_total, intro ballI conjI impI)
    fix i assume i: "i \<in> set [0..<length cfg]"
    then show "itemOk (cfg ! i)" using assms(2) by (simp add: list_all_length)
    assume v: "VType (cfg ! i) = VALIDATE_ALL"
    from r that have "\<forall>t k. cachedReqs c1 t k = cachedReqs (clearTmpDbCache c) t k @ filter (itemAt mi t k) cfg"
      using requestLoop_accept by blast
    moreover have "cachedFor mi ?c3 = cachedFor mi c1" by (rule cachedFor_cong) simp
    ultimately show "cachedFor mi ?c3 (cfg ! i) \<noteq> []"
      using filter_itemAt_nonempty [of i cfg mi] i v by (simp add: cachedFor_def split_def Let_def)
  qed
  with r y z False show ?thesis
    by (cases e) (simp_all add: ValidateEditConfig_def Let_def del: not_None_eq)
qed (simp add: ValidateEditConfig_def)

lemma ValidateEditConfig_accept:
  assumes "ValidateEditConfig E mi c cfg = Some ((obj, CVL_SUCCESS), c')" "\<not> SkipValidation E"
  shows "\<forall>item \<in> set cfg. VType item = VALIDATE_ALL \<longrightarrow>
      deleteAllowed E mi cfg item \<and> keyOk E (cachedFor mi c' item) item"
    "cachedReqs c' t k = cachedReqs c t k @ filter (itemAt mi t k) cfg"
proof -
  from assms(1) obtain c1 req c3 c4 where
    r: "requestLoop E mi cfg cfg (clearTmpDbCache c) [] = Some (None, c1, req)"
    and 3: "requestCache c3 = requestCache c1"
    and l: "semanticLoop E mi cfg [0..<length cfg] emptyErrorInfo c3 = Some (False, obj, c4)"
    and 4: "requestCache c' = requestCache c4"
    by (metis ValidateEditConfig_steps [OF _ assms(2)])
  from 3 4 semanticLoop_frame [OF l] have eq: "requestCache c' = requestCache c1" by simp
  have "cachedFor mi c3 = cachedFor mi c'" by (rule cachedFor_cong) (use 3 eq in simp)
  then have "\<forall>item \<in> set cfg. VType item = VALIDATE_ALL \<longrightarrow> keyOk E (cachedFor mi c' item) item"
    using semanticLoop_accept [OF l] by (auto simp: in_set_conv_nth)
  with requestLoop_accept [OF r] show "\<forall>item \<in> set cfg. VType item = VALIDATE_ALL \<longrightarrow>
      deleteAllowed E mi cfg item \<and> keyOk E (cachedFor mi c' item) item" by simp
  have "cachedReqs c' = cachedReqs c1" "cachedReqs (clearTmpDbCache c) = cachedReqs c"
    by (rule cachedReqs_cong, use eq in simp)+
  with requestLoop_accept [OF r]
  show "cachedReqs c' t k = cachedReqs c t k @ filter (itemAt mi t k) cfg" by simp
qed


subsection \<open>A small schema\<close>

text \<open>
  \<^verbatim>\<open>PORT\<close> holds at most two entries; \<^verbatim>\<open>VLAN_MEMBER\<close> refers to it.  The database holds one port; the
  layers accept everything.
\<close>

definition portSchema :: modelDataInfo where
  "portSchema =
     \<lparr>tableInfo =
        [(''PORT'', \<lparr>modelName = ''port'', redisTableName = [], ti_keys = [''name''], redisKeyDelim = ''|'',
                     redisKeyPattern = ''PORT|{name}'', redisTableSize = 2, leafRef = [], refFromTables = []\<rparr>),
         (''VLAN_MEMBER'', \<lparr>modelName = ''vlan'', redisTableName = [], ti_keys = [''vlan'', ''port''],
                     redisKeyDelim = ''|'', redisKeyPattern = ''VLAN_MEMBER|{vlan}|{port}'', redisTableSize = -1,
                     leafRef = [(''port'', [\<lparr>lr_path = ''/port:PORT/port:PORT_LIST/port:name'', yangListNames = [''PORT''],
                                            targetNodeName = ''name''\<rparr>])], refFromTables = []\<rparr>)],
      redisTableToYangList = [], allKeyDelims = [(''|'', True)]\<rparr>"

definition memLayers :: "string list \<Rightarrow> (nat, unit) layers" where
  "memLayers keys =
     \<lparr>SkipValidation = False,
      keyExists = (\<lambda>k. Some (if k \<in> set keys then 1 else 0)),
      countEntries = (\<lambda>pat. Some (int (length (filter (\<lambda>k. hasPrefix k (butlast pat)) keys)))),
      findKey = (\<lambda>t d f v. Some (hd (filter (\<lambda>k. hasPrefix k (t @ d) \<and> containsStr k (d @ v)) keys @ [[]]))),
      initialYang = 0, toYang = (\<lambda>req c. (emptyErrorInfo, Suc (yangState c), tmpDbCache c)),
      checkSyntax = (\<lambda>c. ((emptyErrorInfo, CVL_SUCCESS), Suc (yangState c), tmpDbCache c)),
      SetOperation = (\<lambda>_ y. y), yangDataOf = (\<lambda>_ _ _. Some ()), moveToYangList = (\<lambda>_ _ y. (Some (), y)),
      doCustomValidation = (\<lambda>_ _ _ _ _ _ c. (emptyErrorInfo, yangState c, tmpDbCache c)),
      checkSemantics = (\<lambda>_ _ _ _ c. (emptyErrorInfo, yangState c, tmpDbCache c)), DestroyCache = (\<lambda>y. y)\<rparr>"

definition editOf :: "CVLOperation \<Rightarrow> string \<Rightarrow> fields \<Rightarrow> CVLEditConfigData" where
  "editOf op key fs = \<lparr>VType = VALIDATE_ALL, VOp = op, cfgKey = key, cfgData = fs\<rparr>"

text \<open>A port is deleted after the membership that refers to it.\<close>

definition deletePort :: "CVLEditConfigData list" where
  "deletePort =
     [(editOf OP_DELETE ''VLAN_MEMBER|Vlan1|Ethernet0'' [])\<lparr>VType := VALIDATE_NONE\<rparr>, editOf OP_DELETE ''PORT|Ethernet0'' []]"

lemma portSchema_ok: "schemaOk portSchema"
  by (simp add: schemaOk_def portSchema_def)

definition outcome :: "(edit_result \<times> 'y CVL) option \<Rightarrow> CVLRetCode option" where
  "outcome r = map_option (\<lambda>((_, ret), _). ret) r"


end
