(* ===== verification/Cvl_Edit_Size.thy ===== *)
theory Cvl_Edit_Size
  imports Cvl_Edit_Props
begin

text \<open>
  Table sizes over a session: what the tracked counts promise about the number of entries that the accepted
  requests leave.
\<close>

subsection \<open>The tracked count\<close>

text \<open>The count of a table: the tracked one, else the number of entries in the database.\<close>

definition tableCount :: "string \<Rightarrow> int \<Rightarrow> 'y CVL \<Rightarrow> int" where
  "tableCount t n0 c = (case mapGet (maxTableElem c) t of Some n \<Rightarrow> n | None \<Rightarrow> n0)"

text \<open>Entries that a request adds to a table: its creations less its deletions of whole entries.\<close>

definition itemNet :: "modelDataInfo \<Rightarrow> string \<Rightarrow> CVLEditConfigData \<Rightarrow> int" where
  "itemNet mi t item =
     (if VType item \<noteq> VALIDATE_ALL \<or> fst (splitRedisKey mi (cfgKey item)) \<noteq> t then 0
      else case VOp item of OP_CREATE \<Rightarrow> 1 | OP_DELETE \<Rightarrow> (if cfgData item = [] then -1 else 0) | _ \<Rightarrow> 0)"

definition requestNet :: "modelDataInfo \<Rightarrow> string \<Rightarrow> CVLEditConfigData list \<Rightarrow> int" where
  "requestNet mi t cfg = sum_list (map (itemNet mi t) cfg)"

text \<open>One step of the count of a table of size at most \<open>L\<close>: it grows by at least \<open>d\<close>, and not past the limit.\<close>

definition countStep :: "int \<Rightarrow> int \<Rightarrow> int \<Rightarrow> int \<Rightarrow> bool" where
  "countStep L d n n' \<longleftrightarrow> n + d \<le> n' \<and> n' \<le> max n L"

lemma countStep_refl: "countStep L 0 n n"
  by (simp add: countStep_def)

lemma countStep_trans: "countStep L d n n' \<Longrightarrow> countStep L d' n' n'' \<Longrightarrow> countStep L (d + d') n n''"
  by (auto simp: countStep_def)

text \<open>The limit of a table that has one.\<close>

definition tableLimit :: "modelDataInfo \<Rightarrow> string \<Rightarrow> int option" where
  "tableLimit mi t =
     (case mapGet (tableInfo mi) t of
        None \<Rightarrow> None
      | Some ti \<Rightarrow> if redisTableSize ti = -1 then None else Some (redisTableSize ti))"

lemma tableLimit_Some: "tableLimit mi t = Some L \<longleftrightarrow>
   (\<exists>ti. mapGet (tableInfo mi) t = Some ti \<and> redisTableSize ti = L \<and> L \<noteq> -1)"
  by (auto simp: tableLimit_def split: option.split)

lemma count_cong: "maxTableElem c' = maxTableElem c \<Longrightarrow> tableCount t n0 c' = tableCount t n0 c"
  by (simp add: tableCount_def)

lemma count_other:
  assumes "checkMaxElemConstraint E mi c op t' = Some (ret, c')" "t' \<noteq> t"
  shows "tableCount t n0 c' = tableCount t n0 c"
  using assms
  by (auto simp: checkMaxElemConstraint_def tableCount_def split: if_splits option.splits)

lemma count_create:
  assumes "tableLimit mi t = Some L" "checkMaxElemConstraint E mi c OP_CREATE t = Some (CVL_SUCCESS, c')"
    "countEntries E (t @ ''|*'') = Some n0"
  shows "countStep L 1 (tableCount t n0 c) (tableCount t n0 c')"
  using assms
  by (auto simp: tableLimit_Some checkMaxElemConstraint_def tableCount_def countStep_def split: if_splits option.splits)

lemma count_delete:
  assumes "tableLimit mi t = Some L" "checkMaxElemConstraint E mi c OP_DELETE t = Some (ret, c')"
    "countEntries E (t @ ''|*'') = Some n0"
  shows "countStep L (-1) (tableCount t n0 c) (tableCount t n0 c')"
  using assms
  by (auto simp: tableLimit_Some checkMaxElemConstraint_def tableCount_def countStep_def split: if_splits option.splits)

lemma count_operation:
  assumes "tableLimit mi t = Some L" "checkOperation E mi cfg item t' k c = Some (None, c')" "VType item = VALIDATE_ALL"
    "fst (splitRedisKey mi (cfgKey item)) = t'" "countEntries E (t @ ''|*'') = Some n0"
  shows "countStep L (itemNet mi t item) (tableCount t n0 c) (tableCount t n0 c')"
proof -
  have keep: "countStep L d (tableCount t n0 c) (tableCount t n0 c')" if "maxTableElem c' = maxTableElem c" "d = 0" for d
    using count_cong [OF that(1)] that(2) countStep_refl by simp
  show ?thesis
  proof (cases "VOp item")
    case OP_CREATE
    with assms(2) obtain c1 where m: "checkMaxElemConstraint E mi c OP_CREATE t' = Some (CVL_SUCCESS, c1)" "c' = c1"
      by (auto simp: checkOperation_def editError_def bind_eq_Some_conv Let_def split: if_splits)
    then show ?thesis
      using count_create [OF assms(1), of E c c1 n0] count_other [OF m(1)] countStep_refl assms(3-5) OP_CREATE
      by (cases "t' = t") (auto simp: itemNet_def)
  next
    case OP_DELETE
    show ?thesis
    proof (cases "cfgData item = []")
      case True
      with OP_DELETE assms(2) obtain ret c1 where m: "checkMaxElemConstraint E mi c OP_DELETE t' = Some (ret, c1)"
        and c': "c' = addTableEntryToCache t' k c1"
        by (auto simp: checkOperation_def bind_eq_Some_conv split: if_splits)
      have "tableCount t n0 c' = tableCount t n0 c1" by (rule count_cong) (simp add: c')
      with m show ?thesis
        using count_delete [OF assms(1), of E c ret c1 n0] count_other [OF m] countStep_refl assms(3-5) OP_DELETE True
        by (cases "t' = t") (auto simp: itemNet_def)
    next
      case False
      with OP_DELETE assms(2) have "c' = addTableEntryToCache t' k c"
        by (auto simp: checkOperation_def bind_eq_Some_conv split: if_splits)
      then show ?thesis using OP_DELETE False by (intro keep) (simp_all add: itemNet_def)
    qed
  qed (use assms in \<open>auto simp: checkOperation_def itemNet_def tableCount_def countStep_refl\<close>)
qed

lemma count_item:
  assumes "tableLimit mi t = Some L" "requestItem E mi cfg item c req = Some (None, c', req')" "countEntries E (t @ ''|*'') = Some n0"
  shows "countStep L (itemNet mi t item) (tableCount t n0 c) (tableCount t n0 c')"
proof (cases "VType item = VALIDATE_ALL")
  case True
  with assms(2) obtain t' k where a: "addCfgDataItem mi req item = Some ((t', k), req')" and k: "k \<noteq> []"
    and o: "checkOperation E mi cfg item t' k (addToRequestCache t' k item c) = Some (None, c')"
    by (auto simp: requestItem_def Let_def bind_eq_Some_conv split: if_splits)
  from addCfgDataItem_key [OF a] k have "fst (splitRedisKey mi (cfgKey item)) = t'" by (auto split: if_splits)
  from count_operation [OF assms(1) o True this assms(3)] show ?thesis
    using count_cong [of "addToRequestCache t' k item c" c] by simp
qed (use assms in \<open>simp add: requestItem_def itemNet_def countStep_refl\<close>)

lemma count_loop:
  assumes "tableLimit mi t = Some L" "countEntries E (t @ ''|*'') = Some n0"
  shows "requestLoop E mi cfg items c req = Some (None, c', req') \<Longrightarrow>
    countStep L (requestNet mi t items) (tableCount t n0 c) (tableCount t n0 c')"
proof (induction items arbitrary: c req)
  case (Cons item items)
  from Cons.prems obtain e c1 req1 where "requestItem E mi cfg item c req = Some (e, c1, req1)"
    "(case e of Some r \<Rightarrow> Some (Some r, c1, req1) | None \<Rightarrow> requestLoop E mi cfg items c1 req1) = Some (None, c', req')"
    by (auto simp: bind_eq_Some_conv)
  then have 1: "requestItem E mi cfg item c req = Some (None, c1, req1)"
    and 2: "requestLoop E mi cfg items c1 req1 = Some (None, c', req')" by (cases e; simp)+
  from countStep_trans [OF count_item [OF assms(1) 1 assms(2)] Cons.IH [OF 2]] show ?case by (simp add: requestNet_def)
qed (simp add: requestNet_def countStep_refl)

lemma count_request:
  assumes "tableLimit mi t = Some L" "ValidateEditConfig E mi c cfg = Some ((obj, CVL_SUCCESS), c')" "\<not> SkipValidation E"
    "countEntries E (t @ ''|*'') = Some n0"
  shows "countStep L (requestNet mi t cfg) (tableCount t n0 c) (tableCount t n0 c')"
proof -
  from assms(2) obtain c1 req c3 c4 where
    r: "requestLoop E mi cfg cfg (clearTmpDbCache c) [] = Some (None, c1, req)"
    and 3: "maxTableElem c3 = maxTableElem c1"
    and l: "semanticLoop E mi cfg [0..<length cfg] emptyErrorInfo c3 = Some (False, obj, c4)"
    and 4: "maxTableElem c' = maxTableElem c4"
    by (metis ValidateEditConfig_steps [OF _ assms(3)])
  have "tableCount t n0 c' = tableCount t n0 c1" by (rule count_cong) (use 3 4 semanticLoop_frame [OF l] in simp)
  moreover have "tableCount t n0 (clearTmpDbCache c) = tableCount t n0 c" by (rule count_cong) simp
  ultimately show ?thesis using count_loop [OF assms(1,4) r] by simp
qed

subsection \<open>A session\<close>

text \<open>All requests of a list are accepted, one after the other; the layers may differ between them.\<close>

fun acceptedAll :: "modelDataInfo \<Rightarrow> 'y CVL \<Rightarrow> (('y, 'n) layers \<times> CVLEditConfigData list) list \<Rightarrow> bool" where
  "acceptedAll mi c [] = True"
| "acceptedAll mi c ((E, cfg) # rs) =
     (\<not> SkipValidation E \<and>
      (case ValidateEditConfig E mi c cfg of
         Some ((_, ret), c') \<Rightarrow> ret = CVL_SUCCESS \<and> acceptedAll mi c' rs
       | None \<Rightarrow> False))"

definition entriesIn :: "string \<Rightarrow> int \<Rightarrow> (('y, 'n) layers \<times> CVLEditConfigData list) list \<Rightarrow> bool" where
  "entriesIn t n0 rs \<longleftrightarrow> list_all (\<lambda>(E, _). countEntries E (t @ ''|*'') = Some n0) rs"

lemma acceptedAll_count:
  "tableLimit mi t = Some L \<Longrightarrow> acceptedAll mi c rs \<Longrightarrow> entriesIn t n0 rs \<Longrightarrow>
   tableCount t n0 c + sum_list (map (requestNet mi t \<circ> snd) rs) \<le> max (tableCount t n0 c) L"
proof (induction rs arbitrary: c)
  case (Cons r rs)
  obtain E cfg where [simp]: "r = (E, cfg)" by (cases r)
  from Cons.prems(2) obtain obj c' where v: "ValidateEditConfig E mi c cfg = Some ((obj, CVL_SUCCESS), c')"
    and s: "\<not> SkipValidation E" and rest: "acceptedAll mi c' rs" by (auto split: option.splits)
  from Cons.prems(3) have n: "countEntries E (t @ ''|*'') = Some n0" "entriesIn t n0 rs" by (simp_all add: entriesIn_def)
  from count_request [OF Cons.prems(1) v s n(1)] Cons.IH [OF Cons.prems(1) rest n(2)]
  show ?case by (auto simp: countStep_def)
qed simp

text \<open>
  C18. Table sizes.  In a session whose requests are all accepted, with \<open>n0\<close> entries of a table of limited
  size in the database, the entries there plus the creations less the deletions of the session stay
  within the limit, unless there were more entries from the start.
\<close>

theorem table_size_respected:
  assumes "tableLimit mi t = Some L" "acceptedAll mi (fst (ValidationSessOpen E0)) rs" "entriesIn t n0 rs"
  shows "n0 + sum_list (map (requestNet mi t \<circ> snd) rs) \<le> max n0 L"
  using acceptedAll_count [OF assms] by (simp add: tableCount_def ValidationSessOpen_def)

theorem table_size_respected_witness:
  "let E = memLayers [''PORT|Ethernet0'']; add = [editOf OP_CREATE ''PORT|Ethernet4'' [(''mtu'', ''9100'')]]
   in acceptedAll portSchema (fst (ValidationSessOpen E)) [(E, add)] \<and>
      outcome (ValidateEditConfig E portSchema (snd (the (ValidateEditConfig E portSchema (fst (ValidationSessOpen E)) add)))
        [editOf OP_CREATE ''PORT|Ethernet8'' []]) = Some CVL_SYNTAX_ERROR \<and>
      1 + sum_list (map (requestNet portSchema ''PORT'' \<circ> snd) [(E, add)]) \<le> 2"
proof -
  define E where "E = memLayers [''PORT|Ethernet0'']"
  define add where "add = [editOf OP_CREATE ''PORT|Ethernet4'' [(''mtu'', ''9100'')]]"
  have a: "acceptedAll portSchema (fst (ValidationSessOpen E)) [(E, add)]"
    unfolding E_def add_def by code_simp
  have b: "outcome (ValidateEditConfig E portSchema (snd (the (ValidateEditConfig E portSchema (fst (ValidationSessOpen E)) add)))
        [editOf OP_CREATE ''PORT|Ethernet8'' []]) = Some CVL_SYNTAX_ERROR"
    unfolding E_def add_def by code_simp
  have "tableLimit portSchema ''PORT'' = Some 2" by code_simp
  moreover have "entriesIn ''PORT'' 1 [(E, add)]" unfolding E_def add_def by code_simp
  ultimately have "1 + sum_list (map (requestNet portSchema ''PORT'' \<circ> snd) [(E, add)]) \<le> max 1 2"
    using a by (intro table_size_respected)
  with a b show ?thesis by (simp add: E_def add_def)
qed

end
