(* ===== verification/Db_Props.thy ===== *)
theory Db_Props
  imports Db_Spec
begin

text \<open>
  Entry operations of \<^verbatim>\<open>translib/db\<close> against the store they are meant to update: replacement and
  merge of an entry, rejection by CVL, read-only objects, and the round trips of keys and list
  values.
\<close>

subsection \<open>Rejected and disabled writes\<close>

text \<open>
  C11. A change that CVL rejects leaves no trace.  Inside a transaction, a create, set, modify or
  delete call that returns a CVL failure changes neither the connection, nor the pending commands,
  nor the pending edit requests, nor the transaction state: only the CVL session advances.
\<close>

definition writeOps ::
  "('r, 'c) infra \<Rightarrow> ('r, 'c) DB \<Rightarrow> TableSpec \<Rightarrow> Key \<Rightarrow> Value \<Rightarrow> (go_error option \<times> ('r, 'c) DB) list" where
  "writeOps X d ts key v =
     [CreateEntry X d ts key v, SetEntry X d ts key v, ModEntry X d ts key v,
      DeleteEntry X d ts key, DeleteEntryFields X d ts key v]"

definition isCVLFailure :: "go_error option \<Rightarrow> bool" where
  "isCVLFailure e = (case e of Some (TranslibCVLFailure _ _) \<Rightarrow> True | _ \<Rightarrow> False)"

lemma doWrite_not_cvl:
  assumes "txState d \<noteq> txStateNone"
  shows "\<not> isCVLFailure (fst (doWrite X d ts op key v))"
  using assms
  by (auto simp: doWrite_def Let_def isCVLFailure_def unknownOp_def split: TxState.split TxOp.split)

lemma doCVL_reject:
  assumes "doCVL X d ts ops key vals = (Some e, d')" "length ops = length vals" "OP_NONE \<notin> set ops"
  shows "\<exists>c. d' = d\<lparr>cv := c\<rparr>"
proof (cases "DisableCVLCheck (Opts d) \<or> txState d = txStateNone")
  case True
  with assms(1) show ?thesis by (auto simp: doCVL_disabled doCVL_closed)
next
  case False
  with assms show ?thesis
    by (auto simp: doCVL_open Let_def split: prod.splits if_splits)
qed

lemma doCVL_snd_reject:
  assumes "fst (doCVL X d ts ops key vals) = Some e" "length ops = length vals" "OP_NONE \<notin> set ops"
  shows "\<exists>c. snd (doCVL X d ts ops key vals) = d\<lparr>cv := c\<rparr>"
  using assms doCVL_reject [of X d ts ops key vals e] by (metis prod.collapse)

lemma cvl_reject_delete:
  assumes "txState d \<noteq> txStateNone" "isCVLFailure (fst (DeleteEntry X d ts key))"
  shows "\<exists>c. snd (DeleteEntry X d ts key) = d\<lparr>cv := c\<rparr>"
  using assms doWrite_not_cvl [of "snd (doCVL X d ts [OP_DELETE] key [\<lparr>Field = []\<rparr>])"]
    doCVL_snd_reject [of X d ts "[OP_DELETE]" key "[\<lparr>Field = []\<rparr>]"]
  by (auto simp: DeleteEntry_def split_def Let_def split: if_splits)

lemma cvl_reject_set:
  assumes "txState d \<noteq> txStateNone" "isCVLFailure (fst (setEntry X d ts key v isCreate))"
  shows "\<exists>c. snd (setEntry X d ts key v isCreate) = d\<lparr>cv := c\<rparr>"
proof (cases "length (Field v) = 0")
  case True
  with assms show ?thesis using cvl_reject_delete by (simp add: setEntry_def)
next
  case False
  define ed where "ed = (let (cur, e) = (if \<not> isCreate then GetEntry X d ts key else (\<lparr>Field = []\<rparr>, None));
            compl = (if \<not> isCreate \<and> e = None then valueComplement v cur else \<lparr>Field = []\<rparr>)
      in (compl, if \<not> isCreate \<and> e = None
               then (if length (Field compl) = 0
                     then doCVL X d ts [OP_UPDATE] key [v]
                     else doCVL X d ts [OP_UPDATE, OP_DELETE] key [v, compl])
               else doCVL X d ts [OP_CREATE] key [v]))"
  define compl where "compl = fst ed"
  define e1 where "e1 = fst (snd ed)"
  define d1 where "d1 = snd (snd ed)"
  have eq: "setEntry X d ts key v isCreate = (if e1 \<noteq> None then (e1, d1) else
     let (e2, d2) = doWrite X d1 ts txOpHMSet key v
     in if e2 = None \<and> length (Field compl) \<noteq> 0 then doWrite X d2 ts txOpHDel key compl else (e2, d2))"
    using False by (simp add: setEntry_def e1_def d1_def compl_def ed_def split_def Let_def)
  have d1: "txState d1 = txState d"
    by (simp add: d1_def ed_def split_def Let_def)
  have rej: "e1 \<noteq> None \<Longrightarrow> \<exists>c. d1 = d\<lparr>cv := c\<rparr>"
    unfolding e1_def d1_def ed_def split_def Let_def
    by (auto split: if_splits intro: doCVL_snd_reject)
  have "txState (snd (doWrite X d1 ts txOpHMSet key v)) \<noteq> txStateNone"
    using d1 assms(1) doWrite_stays_open [of X d1] by metis
  then have "e1 \<noteq> None"
    using assms d1 doWrite_not_cvl [of d1 X] doWrite_not_cvl [of "snd (doWrite X d1 ts txOpHMSet key v)" X]
    unfolding eq by (auto simp: split_def Let_def split: if_splits)
  with rej show ?thesis by (auto simp: eq)
qed

theorem cvl_reject_no_effect:
  assumes "txState d \<noteq> txStateNone" "(e, d') \<in> set (writeOps X d ts key v)" "isCVLFailure e"
  shows "\<exists>c. d' = d\<lparr>cv := c\<rparr>"
proof -
  have upd: "isCVLFailure (fst (ModEntry X d ts key v)) \<Longrightarrow> \<exists>c. snd (ModEntry X d ts key v) = d\<lparr>cv := c\<rparr>"
    using assms(1) cvl_reject_delete [of d X ts key]
      doWrite_not_cvl [of "snd (doCVL X d ts [OP_UPDATE] key [v])" X]
      doCVL_snd_reject [of X d ts "[OP_UPDATE]" key "[v]"]
    by (auto simp: ModEntry_def split_def Let_def split: if_splits)
  have fields: "isCVLFailure (fst (DeleteEntryFields X d ts key v)) \<Longrightarrow>
      \<exists>c. snd (DeleteEntryFields X d ts key v) = d\<lparr>cv := c\<rparr>"
    using doCVL_snd_reject [of X d ts "[OP_DELETE]" key "[v]"]
    by (auto simp: DeleteEntryFields_def split_def Let_def isCVLFailure_def split: if_splits)
  have "\<exists>c. snd ed = d\<lparr>cv := c\<rparr>" if "ed \<in> set (writeOps X d ts key v)" "isCVLFailure (fst ed)" for ed
    using that assms(1) upd fields cvl_reject_set [of d X ts key v] cvl_reject_delete [of d X ts key]
    by (auto simp: writeOps_def CreateEntry_def SetEntry_def)
  from this [OF assms(2)] assms(3) show ?thesis by simp
qed

text \<open>A CVL session that rejects every request.\<close>

definition rejInfra :: "(mem, nat) infra" where
  "rejInfra = memInfra\<lparr>validateEdit := (\<lambda>c _. ((emptyErrorInfo, CVL_SEMANTIC_ERROR), Suc c))\<rparr>"

theorem cvl_reject_no_effect_witness:
  "\<exists>c. snd (CreateEntry rejInfra memTx portTable eth0 mtu) = memTx\<lparr>cv := c\<rparr>"
proof (rule cvl_reject_no_effect [of memTx "fst (CreateEntry rejInfra memTx portTable eth0 mtu)" _
    rejInfra portTable eth0 mtu])
  show "txState memTx \<noteq> txStateNone" by (simp add: memTx_state)
  show "isCVLFailure (fst (CreateEntry rejInfra memTx portTable eth0 mtu))" by code_simp
qed (simp add: writeOps_def)

text \<open>
  A database object opened with writes disabled never changes the database: no sequence of
  create, set, modify and delete calls touches the connection or queues a command.
\<close>

theorem readonly_no_effect:
  assumes "IsWriteDisabled (Opts d)" "(tx_write X)\<^sup>*\<^sup>* d d'"
  shows "client d' = client d \<and> txCmds d' = txCmds d"
  using tx_writes_disabled [OF assms(2,1)] .

definition roDB :: "(mem, nat) DB" where
  "roDB = fst (NewDB memInfra (configOpts\<lparr>IsWriteDisabled := True\<rparr>))"

theorem readonly_no_effect_witness:
  "client (snd (SetEntry memInfra roDB portTable eth0 mtu)) = client roDB \<and>
   fst (SetEntry memInfra roDB portTable eth0 mtu) =
     Some (ErrorString ''Write to DB disabled during this operation'')"
proof -
  have "(tx_write memInfra)\<^sup>*\<^sup>* roDB (snd (SetEntry memInfra roDB portTable eth0 mtu))"
    by (rule r_into_rtranclp) (rule tx_write.set)
  moreover have "IsWriteDisabled (Opts roDB)" by code_simp
  moreover have "fst (SetEntry memInfra roDB portTable eth0 mtu) =
     Some (ErrorString ''Write to DB disabled during this operation'')" by code_simp
  ultimately show ?thesis using readonly_no_effect by blast
qed

subsection \<open>What a write makes of the entry\<close>

lemma memHash_put: "memHash (mapPut k f h) k' = (if k' = k then f else memHash h k')"
  by (simp add: memHash_def)

lemma mapGet_dels: "mapGet (fold mapDel ns f) x = (if x \<in> set ns then None else mapGet f x)"
  by (induction ns arbitrary: f) auto

lemma redis_hash_mem: "redis_hash memInfra"
  by (auto simp: redis_hash_def hashOf_def memInfra_def memHash_put mapPutAll_get mapGet_dels
      memHash_def map_add_def restrict_map_def fun_eq_iff)

lemma valueComplement_get:
  "mapGet (Field (valueComplement v cur)) f = None \<longleftrightarrow> mapGet (Field cur) f = None \<or> mapGet (Field v) f \<noteq> None"
proof -
  have keys: "fst ` set (fold (\<lambda>(k, _) m. if \<not> mapHas (Field v) k then mapPut k [] m else m) fs m) =
    fst ` set m \<union> (fst ` set fs - fst ` set (Field v))" for fs m
  proof (induction fs arbitrary: m)
    case (Cons kv fs)
    obtain k x where "kv = (k, x)" by (cases kv)
    with Cons show ?case by (cases "k \<in> fst ` set (Field v)") (auto simp: mapHas_iff)
  qed simp
  show ?thesis using keys [of "Field cur" "[]"] by (auto simp: valueComplement_def mapGet_None_iff)
qed

text \<open>Outside a transaction \<^verbatim>\<open>doWrite\<close> is one command.\<close>

lemma doWrite_now:
  assumes "txState d = txStateNone" "\<not> IsWriteDisabled (Opts d)"
  shows "doWrite X d ts txOpHMSet key v = withClient d (hMSet X (key2redis (Opts d) ts key) (Field v) (client d))"
    and "doWrite X d ts txOpHDel key v = withClient d (hDel X (key2redis (Opts d) ts key) (map fst (Field v)) (client d))"
    and "doWrite X d ts txOpDel key v = withClient d (redisDel X (key2redis (Opts d) ts key) (client d))"
  using assms by (simp_all add: doWrite_def)

lemma hashOf_hMSet:
  "redis_hash X \<Longrightarrow> hMSet X k fs r = (None, r') \<Longrightarrow> gomap_wf fs \<Longrightarrow>
   hashOf X r' = (hashOf X r)(k := hashOf X r k ++ mapGet fs)"
  by (simp add: redis_hash_def)

lemma hashOf_hDel:
  "redis_hash X \<Longrightarrow> hDel X k ns r = (None, r') \<Longrightarrow>
   hashOf X r' = (hashOf X r)(k := hashOf X r k |` (- set ns))"
  by (simp add: redis_hash_def)

lemma hashOf_del:
  "redis_hash X \<Longrightarrow> redisDel X k r = (None, r') \<Longrightarrow> hashOf X r' = (hashOf X r)(k := Map.empty)"
  by (simp add: redis_hash_def)

lemma DeleteEntry_now:
  assumes "redis_hash X" "txState d = txStateNone" "\<not> IsWriteDisabled (Opts d)"
    and "DeleteEntry X d ts key = (None, d')"
  shows "hashOf X (client d') = (hashOf X (client d))(key2redis (Opts d) ts key := Map.empty)"
  using assms hashOf_del [OF assms(1), of "key2redis (Opts d) ts key" "client d"]
  by (cases "redisDel X (key2redis (Opts d) ts key) (client d)")
     (auto simp: DeleteEntry_def doCVL_closed doWrite_now withClient_def)

lemma set_now:
  assumes "redis_hash X" "gomap_wf (Field v)" "txState d = txStateNone" "\<not> IsWriteDisabled (Opts d)"
    and "setEntry X d ts key v False = (None, d')"
  shows "hashOf X (client d') = (hashOf X (client d))(key2redis (Opts d) ts key := mapGet (Field v))"
proof (cases "Field v = []")
  case True
  with assms show ?thesis using DeleteEntry_now by (force simp: setEntry_def)
next
  case False
  let ?k = "key2redis (Opts d) ts key"
  obtain cur e where ce: "GetEntry X d ts key = (cur, e)" by fastforce
  define compl where "compl = (if e = None then valueComplement v cur else \<lparr>Field = []\<rparr>)"
  obtain e2 r2 where w: "hMSet X ?k (Field v) (client d) = (e2, r2)" by fastforce
  have eq: "setEntry X d ts key v False =
      (if e2 = None \<and> Field compl \<noteq> [] then doWrite X (d\<lparr>client := r2\<rparr>) ts txOpHDel key compl
       else (e2, d\<lparr>client := r2\<rparr>))"
    using False assms(3,4) ce w
    by (simp add: setEntry_def doCVL_closed doWrite_now withClient_def compl_def Let_def split: option.split)
  with assms(5) have "e2 = None" by (auto split: if_splits)
  with w have h2: "hashOf X r2 = (hashOf X (client d))(?k := hashOf X (client d) ?k ++ mapGet (Field v))"
    using hashOf_hMSet [OF assms(1) _ assms(2)] by blast
  have sub: "\<forall>f. mapGet (Field compl) f \<noteq> None \<longleftrightarrow> hashOf X (client d) ?k f \<noteq> None \<and> mapGet (Field v) f = None"
  proof (cases e)
    case None
    with ce have "mapGet (Field cur) = hashOf X (client d) ?k"
      by (auto simp: GetEntry_def hashOf_def split: prod.splits if_splits)
    with None show ?thesis using valueComplement_get [of v cur] by (auto simp: compl_def)
  next
    case (Some x)
    with ce have "fst (hGetAll X (client d) ?k) = [] \<or> snd (hGetAll X (client d) ?k) \<noteq> None"
      by (auto simp: GetEntry_def split: prod.splits if_splits)
    then have "hashOf X (client d) ?k = Map.empty"
      using assms(1) by (auto simp: redis_hash_def hashOf_def)
    with Some show ?thesis by (simp add: compl_def)
  qed
  show ?thesis
  proof (cases "Field compl = []")
    case True
    with sub have "hashOf X (client d) ?k ++ mapGet (Field v) = mapGet (Field v)"
      by (auto simp: map_add_def fun_eq_iff split: option.split)
    with True eq assms(5) h2 show ?thesis by (auto split: if_splits)
  next
    case False
    with eq assms(5) \<open>e2 = None\<close> have "doWrite X (d\<lparr>client := r2\<rparr>) ts txOpHDel key compl = (None, d')" by simp
    then have "hDel X ?k (map fst (Field compl)) r2 = (None, client d')"
      using assms(3,4) by (auto simp: doWrite_now withClient_def prod_eq_iff)
    then have "hashOf X (client d') = (hashOf X r2)(?k := hashOf X r2 ?k |` (- set (map fst (Field compl))))"
      by (rule hashOf_hDel [OF assms(1)])
    moreover have "hashOf X r2 ?k |` (- set (map fst (Field compl))) = mapGet (Field v)"
    proof
      fix f
      have "f \<in> set (map fst (Field compl)) \<longleftrightarrow> mapGet (Field compl) f \<noteq> None"
        by (simp add: mapGet_None_iff)
      with sub h2 show "(hashOf X r2 ?k |` (- set (map fst (Field compl)))) f = mapGet (Field v) f"
        by (cases "mapGet (Field v) f") (auto simp: restrict_map_def map_add_def)
    qed
    ultimately show ?thesis using h2 by simp
  qed
qed

text \<open>
  C12. Outside a transaction \<^verbatim>\<open>SetEntry\<close> replaces the entry: when it returns no error the stored hash
  has exactly the fields of the new value (fields only the old entry had are gone; the empty value
  deletes the entry), and every other valid key of the table still has the hash it had.
\<close>

theorem SetEntry_replaces:
  assumes "redis_hash X" "gomap_wf (Field v)" "txState d = txStateNone" "\<not> IsWriteDisabled (Opts d)"
    and "SetEntry X d ts key v = (None, d')" "validKey (Opts d) ts key"
  shows "hashOf X (client d') (key2redis (Opts d) ts key) = mapGet (Field v) \<and>
    (\<forall>k. validKey (Opts d) ts k \<longrightarrow> k \<noteq> key \<longrightarrow>
       hashOf X (client d') (key2redis (Opts d) ts k) = hashOf X (client d) (key2redis (Opts d) ts k))"
  using set_now [OF assms(1-4)] assms(5,6) key_codec.enc_inj by (auto simp: SetEntry_def)

definition portDB :: "(mem, nat) DB" where
  "portDB = memDB\<lparr>client := \<lparr>m_hash = [(''PORT|Ethernet0'', [(''alias'', ''eth''), (''mtu'', ''1500'')])],
     m_queue = None, m_conflict = False\<rparr>\<rparr>"

theorem SetEntry_replaces_witness:
  "hashOf memInfra (client (snd (SetEntry memInfra portDB portTable eth0 mtu))) ''PORT|Ethernet0'' ''alias'' = None \<and>
   hashOf memInfra (client portDB) ''PORT|Ethernet0'' ''alias'' = Some ''eth''"
proof -
  have "gomap_wf (Field mtu)" "txState portDB = txStateNone" "\<not> IsWriteDisabled (Opts portDB)"
    "fst (SetEntry memInfra portDB portTable eth0 mtu) = None" "validKey (Opts portDB) portTable eth0"
    "key2redis (Opts portDB) portTable eth0 = ''PORT|Ethernet0''"
    "mapGet (Field mtu) ''alias'' = None"
    "hashOf memInfra (client portDB) ''PORT|Ethernet0'' ''alias'' = Some ''eth''"
    by code_simp+
  with SetEntry_replaces [OF redis_hash_mem, of mtu portDB portTable eth0
      "snd (SetEntry memInfra portDB portTable eth0 mtu)"]
  show ?thesis by (metis prod.collapse)
qed

text \<open>
  C26. Outside a transaction \<^verbatim>\<open>ModEntry\<close> with a non-empty value merges: the given fields get the new
  values, the other fields of the entry and every other valid key of the table keep theirs.
\<close>

theorem ModEntry_merges:
  assumes "redis_hash X" "gomap_wf (Field v)" "txState d = txStateNone" "\<not> IsWriteDisabled (Opts d)"
    and "ModEntry X d ts key v = (None, d')" "validKey (Opts d) ts key" "Field v \<noteq> []"
  shows "hashOf X (client d') (key2redis (Opts d) ts key) =
      hashOf X (client d) (key2redis (Opts d) ts key) ++ mapGet (Field v) \<and>
    (\<forall>k. validKey (Opts d) ts k \<longrightarrow> k \<noteq> key \<longrightarrow>
       hashOf X (client d') (key2redis (Opts d) ts k) = hashOf X (client d) (key2redis (Opts d) ts k))"
proof -
  from assms have "hMSet X (key2redis (Opts d) ts key) (Field v) (client d) = (None, client d')"
    by (auto simp: ModEntry_def doCVL_closed doWrite_now withClient_def prod_eq_iff)
  from hashOf_hMSet [OF assms(1) this assms(2)] show ?thesis
    using key_codec.enc_inj assms(6) by auto
qed

theorem ModEntry_merges_witness:
  "hashOf memInfra (client (snd (ModEntry memInfra portDB portTable eth0 mtu))) ''PORT|Ethernet0'' ''alias'' = Some ''eth'' \<and>
   hashOf memInfra (client (snd (ModEntry memInfra portDB portTable eth0 mtu))) ''PORT|Ethernet0'' ''mtu'' = Some ''9100''"
proof -
  have "gomap_wf (Field mtu)" "txState portDB = txStateNone" "\<not> IsWriteDisabled (Opts portDB)"
    "fst (ModEntry memInfra portDB portTable eth0 mtu) = None" "validKey (Opts portDB) portTable eth0"
    "Field mtu \<noteq> []" and k: "key2redis (Opts portDB) portTable eth0 = ''PORT|Ethernet0''"
    and h: "(hashOf memInfra (client portDB) ''PORT|Ethernet0'' ++ mapGet (Field mtu)) ''alias'' = Some ''eth''"
      "(hashOf memInfra (client portDB) ''PORT|Ethernet0'' ++ mapGet (Field mtu)) ''mtu'' = Some ''9100''"
    by code_simp+
  then have "hashOf memInfra (client (snd (ModEntry memInfra portDB portTable eth0 mtu))) ''PORT|Ethernet0'' =
      hashOf memInfra (client portDB) ''PORT|Ethernet0'' ++ mapGet (Field mtu)"
    using ModEntry_merges [OF redis_hash_mem, of mtu portDB portTable eth0
      "snd (ModEntry memInfra portDB portTable eth0 mtu)"] by (metis prod.collapse)
  with h show ?thesis by simp
qed

subsection \<open>Round trips\<close>

text \<open>
  C32. Keys survive the encodings: decoding the Redis key of a valid key, or the keyspace channel the
  server notifies its changes on, gives the key back, and two valid keys with the same Redis key are
  the same key.
\<close>

theorem key_roundtrip:
  assumes "validKey opts ts k"
  shows "redis2key opts ts (key2redis opts ts k) = Some k \<and>
    redisChannel2key opts ts (key2redisChannel opts ts k) = Some k \<and>
    (\<forall>k'. validKey opts ts k' \<longrightarrow> key2redis opts ts k' = key2redis opts ts k \<longrightarrow> k' = k)"
  using assms key_codec.dec_enc channel_codec.dec_enc key_codec.enc_inj by metis

definition aclRule :: Key where
  "aclRule = \<lparr>Comp = [''acl1'', ''rule|1'']\<rparr>"

theorem key_roundtrip_witness:
  "redis2key configOpts \<lparr>ts_Name = ''ACL_RULE'', ts_CompCt = 2\<rparr> ''ACL_RULE|acl1|rule|1'' = Some aclRule"
proof -
  have "validKey configOpts \<lparr>ts_Name = ''ACL_RULE'', ts_CompCt = 2\<rparr> aclRule"
    "key2redis configOpts \<lparr>ts_Name = ''ACL_RULE'', ts_CompCt = 2\<rparr> aclRule = ''ACL_RULE|acl1|rule|1''"
    by code_simp+
  with key_roundtrip [of configOpts "\<lparr>ts_Name = ''ACL_RULE'', ts_CompCt = 2\<rparr>" aclRule]
  show ?thesis by simp
qed

text \<open>
  A leaf-list written with \<^verbatim>\<open>SetList\<close> is read back by \<^verbatim>\<open>GetList\<close> as it was written, as long as no
  element contains a comma and the list is not the one whose only element is the empty string (which
  reads back as the empty list); leaf-lists of another name (with the \<^verbatim>\<open>@\<close> suffix) are untouched.
\<close>

definition listName :: "string \<Rightarrow> string" where
  "listName n = (if hasSuffix n ''@'' then n else n @ ''@'')"

theorem list_roundtrip:
  assumes "list_all (\<lambda>x. CHR '','' \<notin> set x) items" "items \<noteq> [[]]"
  shows "Value_GetList (Value_SetList v n items) n = items \<and>
    (\<forall>n'. listName n' \<noteq> listName n \<longrightarrow> Value_GetList (Value_SetList v n items) n' = Value_GetList v n')"
  using assms Value_GetList_SetList [OF assms(1), of v n]
  by (auto simp: listName_def Value_GetList_def Value_SetList_def Value_Get_Set Value_Get_Remove Let_def)

theorem list_roundtrip_witness:
  "Value_GetList (Value_SetList mtu ''ports'' [''Ethernet0'', ''Ethernet4'']) ''ports'' = [''Ethernet0'', ''Ethernet4'']"
proof -
  have "list_all (\<lambda>x. CHR '','' \<notin> set x) [''Ethernet0'', ''Ethernet4'']" by simp
  from list_roundtrip [OF this, of mtu "''ports''"] show ?thesis by simp
qed

end
