(* ===== verification/Cvl_Tx.thy ===== *)
theory Cvl_Tx
  imports Cvl_Edit_Size Db_Props
begin

text \<open>
  The database wrapper on the validation library: in a transaction, what a successful creation or deletion
  of an entry has been checked for.
\<close>

subsection \<open>The same keys\<close>

text \<open>A table of the wrapper whose keys CVL splits as the wrapper joins them.\<close>

definition cvlTable :: "modelDataInfo \<Rightarrow> Options \<Rightarrow> TableSpec \<Rightarrow> bool" where
  "cvlTable mi opts ts \<longleftrightarrow>
     (\<exists>c. TableNameSeparator opts = [c] \<and> map fst (allKeyDelims mi) = [[c]] \<and> c \<notin> set (ts_Name ts)) \<and>
     mapHas (tableInfo mi) (ts_Name ts)"

lemma firstDelim_single:
  assumes "map fst ds = [[c]]" "c \<notin> set t"
  shows "firstDelim (t @ c # k) ds = Some (length t, [c])"
proof -
  from assms(1) obtain b where "ds = [([c], b)]" by auto
  moreover have "index (t @ c # k) [c] = Some (length t)"
    using assms(2) by (induction t) (auto simp: hasPrefix_def)
  ultimately show ?thesis by simp
qed

lemma splitRedisKey_key2redis:
  assumes "cvlTable mi opts ts"
  shows "splitRedisKey mi (key2redis opts ts key) = (ts_Name ts, joinStr (Comp key) (KeySeparator opts))"
proof -
  from assms obtain c where c: "TableNameSeparator opts = [c]" "map fst (allKeyDelims mi) = [[c]]" "c \<notin> set (ts_Name ts)"
    and t: "mapHas (tableInfo mi) (ts_Name ts)" by (auto simp: cvlTable_def)
  have "key2redis opts ts key = ts_Name ts @ c # joinStr (Comp key) (KeySeparator opts)"
    by (simp add: key2redis_def c)
  with firstDelim_single [OF c(2,3)] t show ?thesis by (simp add: splitRedisKey_def Let_def)
qed

subsection \<open>Validation by CVL\<close>

text \<open>The wrapper's parameters with the sessions and the validation of CVL; a panic does not return.\<close>

definition withCVL :: "('y, 'n) layers \<Rightarrow> modelDataInfo \<Rightarrow> ('r, 'y CVL) infra \<Rightarrow> ('r, 'y CVL) infra" where
  "withCVL E mi X =
     X\<lparr>sessOpen := ValidationSessOpen E,
       validateEdit := (\<lambda>c eds. the (ValidateEditConfig E mi c eds))\<rparr>"

text \<open>The pending edits of an open transaction.\<close>

definition pendingOk :: "('r, 'c) DB \<Rightarrow> bool" where
  "pendingOk d \<longleftrightarrow>
     txState d \<noteq> txStateNone \<and> \<not> DisableCVLCheck (Opts d) \<and>
     list_all (\<lambda>ed. VType ed = VALIDATE_NONE \<and> list_all (\<lambda>(f, _). f \<noteq> []) (cfgData ed)) (cvlEditConfigData d)"

lemma pendingOk_items: "pendingOk d \<Longrightarrow> list_all itemOk (cvlEditConfigData d)"
  by (auto simp: pendingOk_def itemOk_def list_all_iff)

lemma doCVL_one:
  assumes "schemaOk mi" "\<not> SkipValidation E" "pendingOk d" "cvlTable mi (Opts d) ts" "op \<noteq> OP_NONE"
    "list_all (\<lambda>(f, _). f \<noteq> []) (Field v)"
    "doCVL (withCVL E mi X) d ts [op] key [v] = (None, d')"
  defines "item \<equiv> \<lparr>VType = VALIDATE_ALL, VOp = op, cfgKey = key2redis (Opts d) ts key, cfgData = Field v\<rparr>"
    and "k \<equiv> joinStr (Comp key) (KeySeparator (Opts d))"
  shows "deleteAllowed E mi (cvlEditConfigData d @ [item]) item"
    "keyOk E (cachedReqs (cv d) (ts_Name ts) k @ [item]) item"
proof -
  let ?cfg = "cvlEditConfigData d @ [item]"
  have s: "splitRedisKey mi (cfgKey item) = (ts_Name ts, k)"
    using splitRedisKey_key2redis [OF assms(4)] by (simp add: item_def k_def)
  have items: "list_all itemOk ?cfg"
    using pendingOk_items [OF assms(3)] assms(6) by (simp add: item_def itemOk_def)
  obtain obj ret c' where V: "ValidateEditConfig E mi (cv d) ?cfg = Some ((obj, ret), c')"
    using ValidateEditConfig_total [OF assms(1) items] by fast
  have "doCVL (withCVL E mi X) d ts [op] key [v] =
    (if ret \<noteq> CVL_SUCCESS then (Some (TranslibCVLFailure (cvlCode ret) obj), d\<lparr>cv := c'\<rparr>)
     else (None, d\<lparr>cvlEditConfigData := cvlEditConfigData d @ validated [item], cv := c'\<rparr>))"
    using assms(3,5) V by (simp add: doCVL_open pendingOk_def editsOf_def withCVL_def item_def)
  with assms(7) have ret: "ret = CVL_SUCCESS" by (cases "ret = CVL_SUCCESS") simp_all
  note accept = ValidateEditConfig_accept [OF V [unfolded ret] assms(2)]
  from accept(1) show "deleteAllowed E mi ?cfg item" by (simp add: item_def)
  have "filter (itemAt mi (ts_Name ts) k) (cvlEditConfigData d) = []"
    using assms(3) by (auto simp: pendingOk_def list_all_iff itemAt_def filter_empty_conv)
  then have "cachedFor mi c' item = cachedReqs (cv d) (ts_Name ts) k @ [item]"
    using s accept(2) [of "ts_Name ts" k] by (simp add: cachedFor_def itemAt_def item_def)
  with accept(1) show "keyOk E (cachedReqs (cv d) (ts_Name ts) k @ [item]) item" by (simp add: item_def)
qed

lemma CreateEntry_CVL:
  assumes "CreateEntry X d ts key v = (None, d')" "Field v \<noteq> []"
  obtains d1 where "doCVL X d ts [OP_CREATE] key [v] = (None, d1)"
  using assms by (cases "doCVL X d ts [OP_CREATE] key [v]")
    (auto simp: CreateEntry_def setEntry_def Let_def split: if_splits)

lemma DeleteEntry_CVL:
  assumes "DeleteEntry X d ts key = (None, d')"
  obtains d1 where "doCVL X d ts [OP_DELETE] key [\<lparr>Field = []\<rparr>] = (None, d1)"
  using assms by (cases "doCVL X d ts [OP_DELETE] key [\<lparr>Field = []\<rparr>]")
    (auto simp: DeleteEntry_def Let_def split: if_splits)



text \<open>The memory of the wrapper's examples, with sessions of CVL.\<close>

definition cvlMem :: "(mem, nat CVL) infra" where
  "cvlMem =
     \<lparr>newClient = newClient memInfra, nilClient = nilClient memInfra, closeClient = closeClient memInfra,
      getInt = getInt memInfra, hGet = hGet memInfra, hGetAll = hGetAll memInfra, redisKeys = redisKeys memInfra,
      hMSet = hMSet memInfra, hSet = hSet memInfra, hDel = hDel memInfra, redisDel = redisDel memInfra,
      redisDo = redisDo memInfra, redisPublish = redisPublish memInfra,
      sessOpen = ValidationSessOpen (memLayers []), sessClose = (\<lambda>_. CVL_SUCCESS),
      nilSess = fst (ValidationSessOpen (memLayers [])),
      validateEdit = (\<lambda>c _. ((emptyErrorInfo, CVL_SUCCESS), c)), rangeOrder = id\<rparr>"

definition cvlTx :: "(mem, nat CVL) DB" where
  "cvlTx = \<lparr>client = newClient memInfra 4, Opts = configOpts, txState = txStateWatch, txCmds = [],
            cv = fst (ValidationSessOpen (memLayers [])), cvlEditConfigData = []\<rparr>"


end
