(* ===== verification/Rest_Error.thy ===== *)
theory Rest_Error
  imports Errors
begin

text \<open>
  Error responses of the REST server (\<^verbatim>\<open>rest/server/error.go\<close>): the HTTP status and the RESTCONF error
  entry of every error value.  Formatting an application error's message (through
  \<^verbatim>\<open>golang.org/x/text/message\<close>) is the argument \<open>errText\<close>, JSON encoding the argument \<open>marshal\<close>.
\<close>

datatype errtype = errtypeProtocol | errtypeApplication

datatype errtag =
    errtagInvalidValue
  | errtagOperationFailed
  | errtagOperationNotSupported
  | errtagAccessDenied
  | errtagResourceDenied
  | errtagInUse
  | errtagMalformedMessage

fun errtypeString :: "errtype \<Rightarrow> string" where
  "errtypeString errtypeProtocol = ''protocol''"
| "errtypeString errtypeApplication = ''application''"

fun errtagString :: "errtag \<Rightarrow> string" where
  "errtagString errtagInvalidValue = ''invalid-value''"
| "errtagString errtagOperationFailed = ''operation-failed''"
| "errtagString errtagOperationNotSupported = ''operation-not-supported''"
| "errtagString errtagAccessDenied = ''access-denied''"
| "errtagString errtagResourceDenied = ''resource-denied''"
| "errtagString errtagInUse = ''in-use''"
| "errtagString errtagMalformedMessage = ''malformed-message''"

record errorEntry =
  ee_Type :: errtype
  ee_Tag :: errtag
  ee_AppTag :: string
  ee_Path :: string
  ee_Message :: string

definition httpError :: "nat \<Rightarrow> string \<Rightarrow> go_error" where
  "httpError status msg = HttpErrorType status msg"

definition httpBadRequest :: "string \<Rightarrow> go_error" where
  "httpBadRequest msg = httpError 400 msg"

definition httpServerError :: "string \<Rightarrow> go_error" where
  "httpServerError msg = httpError 500 msg"

text \<open>The tag the code guesses from the status of a protocol error.\<close>

definition httpErrorTag :: "nat \<Rightarrow> errtag" where
  "httpErrorTag status =
     (if status = 400 then errtagInvalidValue
      else if status = 401 then errtagAccessDenied
      else if status = 403 then errtagAccessDenied
      else if status = 404 then errtagInvalidValue
      else if status = 405 then errtagOperationNotSupported
      else if status = 415 then errtagInvalidValue
      else errtagOperationFailed)"

definition toErrorEntry :: "(go_error \<Rightarrow> string) \<Rightarrow> go_error option \<Rightarrow> nat \<times> errorEntry" where
  "toErrorEntry errText err =
     (let info = \<lparr>ee_Type = errtypeApplication, ee_Tag = errtagOperationFailed,
                  ee_AppTag = [], ee_Path = [], ee_Message = []\<rparr>
      in case err of
           None \<Rightarrow> (500, info)
         | Some e \<Rightarrow>
             (case e of
                HttpErrorType status message \<Rightarrow>
                  (status, info\<lparr>ee_Type := errtypeProtocol, ee_Message := message,
                                ee_Tag := httpErrorTag status\<rparr>)
              | TranslibSyntaxValidationError _ str \<Rightarrow>
                  (400, info\<lparr>ee_Type := errtypeProtocol, ee_Tag := errtagInvalidValue,
                             ee_Message := errText str\<rparr>)
              | TranslibRedisClientEntryNotExist _ \<Rightarrow>
                  (404, info\<lparr>ee_Tag := errtagInvalidValue, ee_Message := ''Entry not found''\<rparr>)
              | TranslibCVLFailure code cei \<Rightarrow>
                  (let info1 = info\<lparr>ee_Tag := errtagInvalidValue,
                                    ee_Message := ei_ConstraintErrMsg cei,
                                    ee_AppTag := ei_ErrAppTag cei\<rparr>
                   in if code = cvlCode CVL_SEMANTIC_KEY_ALREADY_EXIST \<or>
                         code = cvlCode CVL_SEMANTIC_KEY_DUPLICATE
                      then (409, info1\<lparr>ee_Tag := errtagResourceDenied,
                                       ee_Message := ''Entry already exists''\<rparr>)
                      else if code = cvlCode CVL_SEMANTIC_KEY_NOT_EXIST
                      then (404, info1\<lparr>ee_Tag := errtagInvalidValue,
                                       ee_Message := ''Entry not found''\<rparr>)
                      else (500, info1))
              | TranslibTransactionFail \<Rightarrow>
                  (409, info\<lparr>ee_Type := errtypeProtocol, ee_Tag := errtagInUse,
                             ee_Message := ''Transaction failed. Please try again.''\<rparr>)
              | InternalError d \<Rightarrow> (500, info\<lparr>ee_Message := errText e, ee_Path := errPath d\<rparr>)
              | NotSupportedError d \<Rightarrow>
                  (405, info\<lparr>ee_Tag := errtagOperationNotSupported, ee_Message := errText e,
                             ee_Path := errPath d\<rparr>)
              | InvalidArgsError d \<Rightarrow>
                  (400, info\<lparr>ee_Tag := errtagInvalidValue, ee_Message := errText e, ee_Path := errPath d\<rparr>)
              | NotFoundError d \<Rightarrow>
                  (404, info\<lparr>ee_Tag := errtagInvalidValue, ee_Message := errText e, ee_Path := errPath d\<rparr>)
              | AlreadyExistsError d \<Rightarrow>
                  (409, info\<lparr>ee_Tag := errtagResourceDenied, ee_Message := errText e, ee_Path := errPath d\<rparr>)
              | AuthorizationError d \<Rightarrow>
                  (403, info\<lparr>ee_Message := ''Client is not authorized to perform this operation'',
                             ee_Path := errPath d, ee_Tag := errtagAccessDenied\<rparr>)
              | _ \<Rightarrow> (500, info)))"

definition prepareErrorResponse ::
  "(go_error \<Rightarrow> string) \<Rightarrow> (errorEntry list \<Rightarrow> string) \<Rightarrow> go_error option \<Rightarrow> nat \<times> string \<times> string" where
  "prepareErrorResponse errText marshal err =
     (let (status, entry) = toErrorEntry errText err
      in (status, marshal [entry], ''application/yang-data+json''))"

subsection \<open>Classification\<close>

text \<open>The protocol errors the server itself creates.\<close>

definition serverStatuses :: "nat list" where
  "serverStatuses = [400, 401, 404, 405, 415, 500]"

definition serverError :: "go_error \<Rightarrow> bool" where
  "serverError e \<longleftrightarrow> (case e of HttpErrorType s _ \<Rightarrow> s \<in> set serverStatuses | _ \<Rightarrow> True)"

text \<open>
  Every error gets an error status with a consistent tag: for the protocol errors the server
  creates and for every other error, the status is one of 400, 401, 403, 404, 405, 409, 415, 500;
  access-denied goes with 401 and 403 only, operation-not-supported with 405 only, resource-denied
  and in-use with 409 only; 403 is only ever the answer to an \<^verbatim>\<open>AuthorizationError\<close>, and an
  error that is not an application or protocol error of the framework is a plain 500.
\<close>

theorem error_status_consistent:
  assumes "serverError e"
  shows "let (status, info) = toErrorEntry errText (Some e) in
    status \<in> {400, 401, 403, 404, 405, 409, 415, 500} \<and>
    (ee_Tag info = errtagAccessDenied \<longleftrightarrow> status \<in> {401, 403}) \<and>
    (ee_Tag info = errtagOperationNotSupported \<longleftrightarrow> status = 405) \<and>
    (ee_Tag info \<in> {errtagResourceDenied, errtagInUse} \<longleftrightarrow> status = 409) \<and>
    (ee_Tag info = errtagOperationFailed \<longrightarrow> status = 500) \<and>
    (status = 403 \<longleftrightarrow> (\<exists>d. e = AuthorizationError d)) \<and>
    (e = ErrorString s \<longrightarrow> status = 500 \<and> ee_Message info = [])"
  using assms
  by (cases e)
     (auto simp: toErrorEntry_def serverError_def serverStatuses_def httpErrorTag_def Let_def split: if_splits)

definition rawText :: "go_error \<Rightarrow> string" where
  "rawText e = (case e of ErrorString s \<Rightarrow> s | HttpErrorType _ s \<Rightarrow> s | InternalError d \<Rightarrow> errFormat d | _ \<Rightarrow> [])"

theorem error_status_consistent_witness:
  "fst (toErrorEntry rawText (Some (httpError 401 []))) = 401 \<and>
   ee_Tag (snd (toErrorEntry rawText (Some (httpError 401 [])))) = errtagAccessDenied"
proof -
  have "serverError (httpError 401 [])" by code_simp
  from error_status_consistent [OF this] show ?thesis
    by (auto simp: toErrorEntry_def httpError_def httpErrorTag_def Let_def)
qed

end
