(* ===== verification/Rest_Context.thy ===== *)
theory Rest_Context
  imports Prelude Rest_Error
begin

text \<open>
  Request metadata of the REST server: media types and parameter name maps
  (\<^verbatim>\<open>rest/server/context.go\<close>), and the table of enabled authentication modes
  (\<^verbatim>\<open>rest/server/auth.go\<close>).  \<open>parseMime\<close> is the standard library's \<^verbatim>\<open>mime.ParseMediaType\<close> (type and
  parameters, or an error).
\<close>

subsection \<open>Media types\<close>

record MediaType =
  mt_Type :: string
  mt_Params :: "(string, string) gomap"
  TypePrefix :: string
  TypeSuffix :: string
  TypeMiddle :: string

type_synonym mime_parser = "string \<Rightarrow> (string \<times> (string, string) gomap) option"

text \<open>
  The groups of \<^verbatim>\<open>([^/]+)(?:/(?:([^+]+)\+)?(.+))?\<close> in a string without line breaks: the longest run
  without a slash, and, if a slash and something more follow, the part before the first plus sign
  (if neither it nor what follows is empty) and the rest.  No match gives \<^term>\<open>None\<close>.
\<close>

definition mediaTypeParts :: "string \<Rightarrow> (string \<times> string \<times> string) option" where
  "mediaTypeParts mtype =
     (let s = dropWhile (\<lambda>c. c = CHR ''/'') mtype;
          prefix = takeWhile (\<lambda>c. c \<noteq> CHR ''/'') s;
          rest = drop (Suc (length prefix)) s
      in if s = [] then None
         else if rest = [] then Some (prefix, [], [])
         else
           let middle = takeWhile (\<lambda>c. c \<noteq> CHR ''+'') rest;
               suffix = drop (Suc (length middle)) rest
           in if middle \<noteq> [] \<and> suffix \<noteq> [] then Some (prefix, middle, suffix)
              else Some (prefix, [], rest))"

text \<open>
  \<^verbatim>\<open>parseMediaType\<close>: the outer option is the error (or the panic on a type the expression does not
  match), the inner one the nil result for the empty string.
\<close>

definition parseMediaType :: "mime_parser \<Rightarrow> string \<Rightarrow> MediaType option option" where
  "parseMediaType parseMime s =
     (if s = [] then Some None
      else case parseMime s of
             None \<Rightarrow> None
           | Some (mtype, params) \<Rightarrow>
               (case mediaTypeParts mtype of
                  None \<Rightarrow> None
                | Some (p1, p2, p3) \<Rightarrow>
                    (let p2' = (if p3 = ''*'' \<and> p2 = [] then ''*'' else p2)
                     in Some (Some \<lparr>mt_Type = mtype, mt_Params = params, TypePrefix = p1,
                                    TypeSuffix = p3, TypeMiddle = p2'\<rparr>))))"

definition matchPart :: "string \<Rightarrow> string \<Rightarrow> bool" where
  "matchPart x y \<longleftrightarrow> x = y \<or> x = ''*'' \<or> y = ''*''"

definition Matches :: "MediaType \<Rightarrow> MediaType \<Rightarrow> bool" where
  "Matches m other \<longleftrightarrow>
     mt_Type m = mt_Type other \<or>
     (matchPart (TypePrefix m) (TypePrefix other) \<and>
      matchPart (TypeMiddle m) (TypeMiddle other) \<and>
      matchPart (TypeSuffix m) (TypeSuffix other))"

definition isJSON :: "MediaType \<Rightarrow> bool" where
  "isJSON m \<longleftrightarrow> TypeSuffix m = ''json''"

type_synonym MediaTypes = "MediaType list"

text \<open>\<^verbatim>\<open>Add\<close>: the result \<^term>\<open>None\<close> is the panic on the empty string, \<open>Inl\<close> the parse error.\<close>

definition MediaTypes_Add :: "mime_parser \<Rightarrow> MediaTypes \<Rightarrow> string \<Rightarrow> (unit + MediaTypes) option" where
  "MediaTypes_Add parseMime m mimeType =
     (case parseMediaType parseMime mimeType of
        None \<Rightarrow> Some (Inl ())
      | Some None \<Rightarrow> None
      | Some (Some mtype) \<Rightarrow> Some (Inr (m @ [mtype])))"

text \<open>A type that does not parse reads as the empty string.\<close>

definition MediaTypes_Contains :: "mime_parser \<Rightarrow> MediaTypes \<Rightarrow> string \<Rightarrow> bool" where
  "MediaTypes_Contains parseMime m mimeType =
     (let t = (case parseMime mimeType of Some (t, _) \<Rightarrow> t | None \<Rightarrow> [])
      in list_ex (\<lambda>entry. mt_Type entry = t) m)"

text \<open>\<^term>\<open>None\<close>: \<^verbatim>\<open>Matches\<close> dereferences the nil hint.\<close>

definition GetMatching :: "mime_parser \<Rightarrow> MediaTypes \<Rightarrow> string \<Rightarrow> MediaTypes option" where
  "GetMatching parseMime m mimeType =
     (case parseMediaType parseMime mimeType of
        None \<Rightarrow> Some []
      | Some None \<Rightarrow> (if m = [] then Some [] else None)
      | Some (Some mtype) \<Rightarrow> Some (filter (\<lambda>entry. Matches entry mtype) m))"

subsection \<open>Parameter names\<close>

type_synonym NameMap = "(string, string) gomap"

definition NameMap_Get :: "NameMap \<Rightarrow> string \<Rightarrow> string" where
  "NameMap_Get m name = (case mapGet m name of Some mappedName \<Rightarrow> mappedName | None \<Rightarrow> name)"

subsection \<open>Authentication modes\<close>

type_synonym UserAuth = "(string, bool) gomap"

definition authFlag :: "UserAuth \<Rightarrow> string \<Rightarrow> bool" where
  "authFlag i mode \<longleftrightarrow> mapGet i mode = Some True"

definition UserAuth_Any :: "UserAuth \<Rightarrow> bool" where
  "UserAuth_Any i = (if authFlag i ''none'' then False else list_ex snd i)"

definition UserAuth_Enabled :: "UserAuth \<Rightarrow> string \<Rightarrow> bool" where
  "UserAuth_Enabled i mode = (if authFlag i ''none'' then False else authFlag i mode)"

text \<open>\<^verbatim>\<open>strings.Trim(m, " ")\<close>\<close>

definition trimSpaces :: "string \<Rightarrow> string" where
  "trimSpaces s =
     rev (dropWhile (\<lambda>c. c = CHR '' '') (rev (dropWhile (\<lambda>c. c = CHR '' '') s)))"

definition modeError :: go_error where
  "modeError = ErrorString (''Expecting one or more of 'cert', 'password' or 'jwt'' @ [CHR 0x27])"

fun setModes :: "UserAuth \<Rightarrow> string list \<Rightarrow> go_error option \<times> UserAuth" where
  "setModes i [] = (None, i)"
| "setModes i (x # xs) =
     (let m = trimSpaces x
      in if m = ''none'' \<or> m = [] then (None, mapPut ''none'' True i)
         else if \<not> mapHas i m then (Some modeError, i)
         else setModes (mapPut m True i) xs)"

definition UserAuth_Set :: "UserAuth \<Rightarrow> string \<Rightarrow> go_error option \<times> UserAuth" where
  "UserAuth_Set i mode = setModes i (splitStr mode '','')"

fun unsetModes :: "UserAuth \<Rightarrow> string list \<Rightarrow> go_error option \<times> UserAuth" where
  "unsetModes i [] = (None, i)"
| "unsetModes i (x # xs) =
     (let m = trimSpaces x
      in if \<not> mapHas i m then (Some modeError, i) else unsetModes (mapPut m False i) xs)"

definition UserAuth_Unset :: "UserAuth \<Rightarrow> string \<Rightarrow> go_error option \<times> UserAuth" where
  "UserAuth_Unset i mode = unsetModes i (splitStr mode '','')"

text \<open>\<^verbatim>\<open>String\<close>: the enabled modes, each followed by a space.\<close>

definition UserAuth_String :: "UserAuth \<Rightarrow> string" where
  "UserAuth_String i =
     (if authFlag i ''none'' then []
      else concat (map (\<lambda>(key, v). if v then key @ '' '' else []) i))"

subsection \<open>Lemmas\<close>

lemma matchPart_sym: "matchPart x y \<longleftrightarrow> matchPart y x"
  by (auto simp: matchPart_def)

lemma Matches_sym: "Matches m n \<longleftrightarrow> Matches n m"
  using matchPart_sym by (auto simp: Matches_def)

lemma UserAuth_Any_iff: "gomap_wf i \<Longrightarrow> UserAuth_Any i \<longleftrightarrow> (\<exists>m. UserAuth_Enabled i m)"
  by (force simp: UserAuth_Any_def UserAuth_Enabled_def authFlag_def list_ex_iff mapGet_Some_iff)

lemma setModes_wf: "gomap_wf i \<Longrightarrow> gomap_wf (snd (setModes i xs))"
  by (induction i xs rule: setModes.induct) (auto simp: Let_def)

lemma dropWhile_not_in: "(\<And>x. x \<in> set xs \<Longrightarrow> \<not> P x) \<Longrightarrow> dropWhile P xs = xs"
  by (cases xs) auto

lemma trimSpaces_id:
  assumes "CHR '' '' \<notin> set s"
  shows "trimSpaces s = s"
proof -
  have "dropWhile (\<lambda>c. c = CHR '' '') t = t" if "CHR '' '' \<notin> set t" for t :: string
    using that by (intro dropWhile_not_in) auto
  from this [of s] this [of "rev s"] assms show ?thesis by (simp add: trimSpaces_def)
qed

text \<open>What a run over well-named modes does to each flag.\<close>

lemma setModes_flags:
  assumes "\<forall>x \<in> set xs. trimSpaces x \<noteq> [] \<and> trimSpaces x \<noteq> ''none'' \<and> mapHas i (trimSpaces x)"
  shows "fst (setModes i xs) = None \<and>
    (\<forall>m. authFlag (snd (setModes i xs)) m \<longleftrightarrow> authFlag i m \<or> m \<in> trimSpaces ` set xs)"
  using assms
proof (induction xs arbitrary: i)
  case (Cons x xs)
  then have "\<forall>y \<in> set xs. trimSpaces y \<noteq> [] \<and> trimSpaces y \<noteq> ''none'' \<and>
      mapHas (mapPut (trimSpaces x) True i) (trimSpaces y)"
    by (simp add: mapHas_put)
  from Cons.IH [OF this] Cons.prems show ?case by (auto simp: Let_def authFlag_def)
qed (simp add: authFlag_def)

end
