(* ===== verification/Rest_Routes.thy ===== *)
theory Rest_Routes
  imports Prelude "HOL-Library.Monad_Syntax"
begin

text \<open>
  The RESTCONF route tree (\<^verbatim>\<open>rest/server/router.go\<close>): path normalisation, the split of a path into its
  elements, registration of path templates and resolution of request paths.  Go maps are
  association lists; the order in which \<^verbatim>\<open>match\<close> visits a map is the order of the list.  Handlers are
  values of a type \<^typ>\<open>'h\<close>.
\<close>

subsection \<open>Paths\<close>

text \<open>\<^verbatim>\<open>path.Clean\<close> of a path that starts with a slash.\<close>

fun cleanElems :: "string list \<Rightarrow> string list \<Rightarrow> string list" where
  "cleanElems acc [] = rev acc"
| "cleanElems acc (e # es) =
     (if e = [] \<or> e = ''.'' then cleanElems acc es
      else if e = ''..'' then cleanElems (tl acc) es
      else cleanElems (e # acc) es)"

definition pathClean :: "string \<Rightarrow> string" where
  "pathClean p = CHR ''/'' # joinStr (cleanElems [] (splitStr p ''/'')) ''/''"

definition cleanPath :: "string \<Rightarrow> string" where
  "cleanPath p =
     (if p = [] then ''/''
      else let p' = (if hd p \<noteq> CHR ''/'' then CHR ''/'' # p else p) in pathClean p')"

definition restconfPathPrefix :: string where
  "restconfPathPrefix = ''/restconf/''"

definition restconfDataPathPrefix :: string where
  "restconfDataPathPrefix = ''/restconf/data/''"

definition restconfOperPathPrefix :: string where
  "restconfOperPathPrefix = ''/restconf/operations/''"

definition isServeFromTree :: "string \<Rightarrow> bool" where
  "isServeFromTree path = hasPrefix path restconfPathPrefix"

text \<open>Root element and remaining path; the \<open>+ 1\<close> maps the code's "not found" to 0.\<close>

definition pathSplit :: "string \<Rightarrow> string \<times> string" where
  "pathSplit p =
     (if length p > 1
      then case index (tl p) ''/'' of
             Some k \<Rightarrow> (take (k + 1) p, drop (k + 1) p)
           | None \<Rightarrow> (p, [])
      else (p, []))"

definition pathNameValues :: "string \<Rightarrow> string \<times> string list" where
  "pathNameValues p =
     (case index p ''='' of
        Some k \<Rightarrow> (take k p, splitStr (drop (k + 1) p) '','')
      | None \<Rightarrow> (p, []))"

subsection \<open>Path parameters\<close>

text \<open>The characters of \<^verbatim>\<open>[a-zA-Z0-9_.-]\<close>.\<close>

definition isIdentChar :: "char \<Rightarrow> bool" where
  "isIdentChar c \<longleftrightarrow>
     (CHR ''a'' \<le> c \<and> c \<le> CHR ''z'') \<or> (CHR ''A'' \<le> c \<and> c \<le> CHR ''Z'') \<or>
     (CHR ''0'' \<le> c \<and> c \<le> CHR ''9'') \<or> c = CHR ''_'' \<or> c = CHR ''.'' \<or> c = CHR ''-''"

text \<open>\<^verbatim>\<open>pathParamExpr.FindStringSubmatch\<close>: the name of the leftmost parameter \<^verbatim>\<open>{name}\<close> of the string.\<close>

fun pathParam :: "string \<Rightarrow> string option" where
  "pathParam [] = None"
| "pathParam (c # s) =
     (if c = CHR ''{'' \<and> takeWhile isIdentChar s \<noteq> [] \<and>
         hasPrefix (dropWhile isIdentChar s) [CHR 0x7D]
      then Some (takeWhile isIdentChar s)
      else pathParam s)"

subsection \<open>The tree\<close>

datatype 'h routeNode =
  RouteNode (node_path: string) (node_name: string) (node_params: "string list")
    (node_handlers: "(string, 'h) gomap") (node_subpaths: "(string \<times> 'h routeNode) list")

type_synonym 'h routeTree = "(string, 'h routeNode) gomap"

definition newRouteNode :: "string \<Rightarrow> string \<Rightarrow> 'h routeNode option" where
  "newRouteNode p parentPrefix =
     (let (name, params) = pathNameValues p
      in map_option (\<lambda>ps. RouteNode (parentPrefix @ p) name ps [] []) (those (map pathParam params)))"

lemma pathSplit_cases:
  obtains (last) "pathSplit p = (p, [])"
  | (more) root next' where "pathSplit p = (root, next')" "p = root @ next'" "root \<noteq> []" "next' \<noteq> []"
      "hd next' = CHR ''/''" "CHR ''/'' \<notin> set (tl root)"
proof (cases "length p > 1 \<and> CHR ''/'' \<in> set (tl p)")
  case False
  then have "pathSplit p = (p, [])"
    using containsStr_char [of "tl p" "CHR ''/''"]
    by (auto simp: pathSplit_def containsStr_def split: option.split)
  then show thesis by (rule last)
next
  case True
  then obtain c q where p: "p = c # q" "CHR ''/'' \<in> set q" by (cases p) auto
  from split_list_first [OF p(2)] obtain a b where ab: "q = a @ CHR ''/'' # b" "CHR ''/'' \<notin> set a" by auto
  then have "index q ''/'' = Some (length a)"
    using index_first [of "CHR ''/''" a "[]" "[]" b] by simp
  with p ab have "pathSplit p = (c # a, CHR ''/'' # b)"
    by (simp add: pathSplit_def)
  with p ab show thesis by (intro more) auto
qed

lemma pathSplit_shorter [termination_simp]:
  "(root, next') = pathSplit p \<Longrightarrow> next' \<noteq> [] \<Longrightarrow> length next' < length p"
  by (cases p rule: pathSplit_cases) auto


text \<open>
  \<^verbatim>\<open>add\<close>: a template whose element does not parse is logged and dropped, with the nodes above it in
  place.  \<open>h\<close> is the handler with its middleware.
\<close>

function treeAdd :: "'h routeTree \<Rightarrow> string \<Rightarrow> string \<Rightarrow> string \<Rightarrow> 'h \<Rightarrow> 'h routeTree" where
  "treeAdd t parentPrefix path mth h =
     (let (root, next') = pathSplit path
      in case (case mapGet t root of Some n \<Rightarrow> Some n | None \<Rightarrow> newRouteNode root parentPrefix) of
           None \<Rightarrow> t
         | Some (RouteNode np nm ps hs subs) \<Rightarrow>
             (if length next' = 0
              then mapPut root (RouteNode np nm ps (mapPut mth h hs) subs) t
              else mapPut root (RouteNode np nm ps hs (treeAdd subs np next' mth h)) t))"
  by pat_completeness auto
termination
  by (relation "measure (\<lambda>(_, _, path, _, _). length path)") (auto simp: pathSplit_shorter)

function treeGetNode :: "'h routeTree \<Rightarrow> string \<Rightarrow> 'h routeNode option" where
  "treeGetNode t path =
     (let (root, next') = pathSplit path
      in case mapGet t root of
           None \<Rightarrow> None
         | Some node \<Rightarrow>
             (if length next' = 0 then Some node else treeGetNode (node_subpaths node) next'))"
  by pat_completeness auto
termination
  by (relation "measure (\<lambda>(_, path). length path)") (auto simp: pathSplit_shorter)

record 'h routeMatchInfo =
  rm_path :: string
  rm_vars :: "(string, string) gomap"
  rm_node :: "'h routeNode option"

text \<open>
  \<^verbatim>\<open>match\<close>: \<open>vars\<close> are the variables collected so far.  The match information of a failed search is
  not used by the caller.
\<close>

function treeMatch :: "'h routeTree \<Rightarrow> string \<Rightarrow> (string, string) gomap \<Rightarrow> 'h routeMatchInfo option" where
  "treeMatch t path vars =
     (let (root, next') = pathSplit path;
          (name, values) = pathNameValues root
      in case find (\<lambda>(_, node). \<not> (node_name node \<noteq> name \<or> length (node_params node) \<noteq> length values)) t of
           None \<Rightarrow> None
         | Some (_, node) \<Rightarrow>
             (let vars' = fold (\<lambda>(p, v) m. mapPut p v m) (zip (node_params node) values) vars
              in if length next' = 0
                 then Some \<lparr>rm_path = node_path node, rm_vars = vars', rm_node = Some node\<rparr>
                 else treeMatch (node_subpaths node) next' vars'))"
  by pat_completeness auto
termination
  by (relation "measure (\<lambda>(_, path, _). length path)") (auto simp: pathSplit_shorter)

declare treeAdd.simps [simp del] treeGetNode.simps [simp del] treeMatch.simps [simp del]

subsection \<open>The tree over path elements\<close>

text \<open>A path as the list of its elements; the three tree operations recurse along it.\<close>

function segs :: "string \<Rightarrow> string list" where
  "segs p = (let (root, next') = pathSplit p in if next' = [] then [root] else root # segs next')"
  by pat_completeness auto
termination
  by (relation "measure length") (auto simp: pathSplit_shorter)

declare segs.simps [simp del]

lemma segs_last: "pathSplit p = (p, []) \<Longrightarrow> segs p = [p]"
  by (simp add: segs.simps [of p])

lemma segs_more: "pathSplit p = (root, next') \<Longrightarrow> next' \<noteq> [] \<Longrightarrow> segs p = root # segs next'"
  by (simp add: segs.simps [of p])

lemma segs_nonempty [simp]: "segs p \<noteq> []"
  by (cases p rule: pathSplit_cases) (auto simp: segs_last segs_more)

lemma concat_segs [simp]: "concat (segs p) = p"
proof (induction p rule: segs.induct)
  case (1 p)
  show ?case
    by (cases p rule: pathSplit_cases) (use 1 in \<open>auto simp: segs_last segs_more\<close>)
qed

lemma segs_inj: "segs p = segs q \<longleftrightarrow> p = q"
  using concat_segs [of p] concat_segs [of q] by metis

definition segParams :: "string \<Rightarrow> string list option" where
  "segParams r = those (map pathParam (snd (pathNameValues r)))"

definition shape :: "string \<Rightarrow> string \<times> nat" where
  "shape r = (fst (pathNameValues r), length (snd (pathNameValues r)))"

fun nodeAt :: "'h routeTree \<Rightarrow> string list \<Rightarrow> 'h routeNode option" where
  "nodeAt t [] = None"
| "nodeAt t (r # rs) =
     (case mapGet t r of
        None \<Rightarrow> None
      | Some n \<Rightarrow> if rs = [] then Some n else nodeAt (node_subpaths n) rs)"

fun addAt :: "'h routeTree \<Rightarrow> string \<Rightarrow> string list \<Rightarrow> string \<Rightarrow> 'h \<Rightarrow> 'h routeTree" where
  "addAt t pre [] mth h = t"
| "addAt t pre (r # rs) mth h =
     (case (case mapGet t r of Some n \<Rightarrow> Some n | None \<Rightarrow> newRouteNode r pre) of
        None \<Rightarrow> t
      | Some n \<Rightarrow>
          mapPut r (RouteNode (node_path n) (node_name n) (node_params n)
             (if rs = [] then mapPut mth h (node_handlers n) else node_handlers n)
             (if rs = [] then node_subpaths n
              else addAt (node_subpaths n) (node_path n) rs mth h)) t)"

fun matchAt :: "'h routeTree \<Rightarrow> string list \<Rightarrow> (string, string) gomap \<Rightarrow> ('h routeNode \<times> (string, string) gomap) option" where
  "matchAt t [] vars = None"
| "matchAt t (r # rs) vars =
     (case find (\<lambda>(_, n). (node_name n, length (node_params n)) = shape r) t of
        None \<Rightarrow> None
      | Some (_, n) \<Rightarrow>
          (let vars' = fold (\<lambda>(p, v) m. mapPut p v m) (zip (node_params n) (snd (pathNameValues r))) vars
           in if rs = [] then Some (n, vars') else matchAt (node_subpaths n) rs vars'))"

lemma nodeAt_empty [simp]: "nodeAt [] rs = None"
  by (cases rs) auto

lemma treeGetNode_segs: "treeGetNode t p = nodeAt t (segs p)"
proof (induction t p rule: treeGetNode.induct)
  case (1 t p)
  show ?case
    by (cases "pathSplit p")
       (use 1 in \<open>auto simp: treeGetNode.simps [of t p] segs.simps [of p] split: option.split\<close>)
qed

lemma treeAdd_segs: "treeAdd t pre p mth h = addAt t pre (segs p) mth h"
proof (induction t pre p mth h rule: treeAdd.induct)
  case (1 t pre p mth h)
  show ?case
    by (cases "pathSplit p")
       (use 1 in \<open>auto simp: treeAdd.simps [of t pre p] segs.simps [of p] split: option.split routeNode.split\<close>)
qed

lemma treeMatch_segs:
  "treeMatch t p vars =
   map_option (\<lambda>(n, vars'). \<lparr>rm_path = node_path n, rm_vars = vars', rm_node = Some n\<rparr>) (matchAt t (segs p) vars)"
proof (induction t p vars rule: treeMatch.induct)
  case (1 t p vars)
  have eq: "(\<lambda>(_, n). \<not> (node_name n \<noteq> name \<or> length (node_params n) \<noteq> length values)) =
      (\<lambda>(_, n). (node_name n, length (node_params n)) = (name, length values))"
    for name :: string and "values" :: "string list" by (auto simp: fun_eq_iff)
  obtain root next' where p: "pathSplit p = (root, next')" by fastforce
  obtain name vals where nv: "pathNameValues root = (name, vals)" by fastforce
  show ?case
    using 1 [OF refl, OF p [symmetric], OF refl, OF nv [symmetric]] p nv
    by (auto simp: treeMatch.simps [of t p] segs.simps [of p] shape_def Let_def split_def eq
        split: option.split)
qed

subsection \<open>Registration obeys the laws of a table\<close>

inductive tree_wf :: "string \<Rightarrow> 'h routeTree \<Rightarrow> bool" where
  "gomap_wf t \<Longrightarrow>
   (\<And>r n. (r, n) \<in> set t \<Longrightarrow> node_path n = pre @ r \<and> node_name n = fst (pathNameValues r) \<and>
      segParams r = Some (node_params n) \<and> gomap_wf (node_handlers n) \<and>
      tree_wf (pre @ r) (node_subpaths n)) \<Longrightarrow>
   tree_wf pre t"

inductive_cases tree_wfE: "tree_wf pre t"

definition nodeOK :: "string \<Rightarrow> string \<Rightarrow> 'h routeNode \<Rightarrow> bool" where
  "nodeOK pre r n \<longleftrightarrow>
     node_path n = pre @ r \<and> node_name n = fst (pathNameValues r) \<and>
     segParams r = Some (node_params n) \<and> gomap_wf (node_handlers n) \<and>
     tree_wf (pre @ r) (node_subpaths n)"

lemma tree_wf_iff: "tree_wf pre t \<longleftrightarrow> gomap_wf t \<and> (\<forall>(r, n) \<in> set t. nodeOK pre r n)"
  by (subst tree_wf.simps) (auto simp: nodeOK_def)

lemma tree_wf_Nil [simp]: "tree_wf pre []"
  by (simp add: tree_wf_iff)

lemma tree_wf_get: "tree_wf pre t \<Longrightarrow> mapGet t r = Some n \<Longrightarrow> nodeOK pre r n"
  by (auto simp: tree_wf_iff mapGet_Some_iff)

lemma mapPut_all:
  assumes "gomap_wf t" "\<forall>(r, n) \<in> set t. P r n" "P r' n'"
  shows "\<forall>(r, n) \<in> set (mapPut r' n' t). P r n"
proof clarify
  fix r n
  assume "(r, n) \<in> set (mapPut r' n' t)"
  then have "mapGet (mapPut r' n' t) r = Some n"
    using mapGet_Some_iff [OF gomap_wf_put [OF assms(1)]] by blast
  with assms show "P r n" using mapGet_SomeD [of t r n] by (auto split: if_splits)
qed

lemma newRouteNode_OK: "newRouteNode r pre = Some n \<Longrightarrow> nodeOK pre r n \<and> node_handlers n = [] \<and> node_subpaths n = []"
  by (auto simp: newRouteNode_def nodeOK_def segParams_def split: prod.splits)

lemma newRouteNode_None: "newRouteNode r pre = None \<longleftrightarrow> segParams r = None"
  by (simp add: newRouteNode_def segParams_def split_def Let_def)

lemma addAt_node_cases:
  fixes t :: "'h routeTree"
  assumes "tree_wf pre t"
  obtains (drop) "segParams r = None" "mapGet t r = None" "addAt t pre (r # rs) mth h = t"
  | (put) n where "segParams r \<noteq> None" "nodeOK pre r n"
      "mapGet t r = Some n \<or> mapGet t r = None \<and> node_handlers n = [] \<and> node_subpaths n = []"
      "addAt t pre (r # rs) mth h = mapPut r (RouteNode (node_path n) (node_name n) (node_params n)
             (if rs = [] then mapPut mth h (node_handlers n) else node_handlers n)
             (if rs = [] then node_subpaths n
              else addAt (node_subpaths n) (node_path n) rs mth h)) t"
proof (cases "mapGet t r")
  case (Some n)
  with assms have "nodeOK pre r n" by (rule tree_wf_get)
  with Some show thesis by (intro put [of n]) (auto simp: nodeOK_def)
next
  case None
  show thesis
  proof (cases "segParams r")
    case None
    then have "addAt t pre (r # rs) mth h = t"
      using \<open>mapGet t r = None\<close> by (simp add: newRouteNode_None [THEN iffD2])
    with None \<open>mapGet t r = None\<close> show thesis by (intro drop)
  next
    case (Some ps)
    then obtain n :: "'h routeNode" where n: "newRouteNode r pre = Some n"
      using newRouteNode_None [of r pre, where 'a = 'h] by fastforce
    with newRouteNode_OK [OF n] \<open>mapGet t r = None\<close> show thesis
      by (intro put [of n]) (auto simp: nodeOK_def)
  qed
qed

lemma addAt_wf: "tree_wf pre t \<Longrightarrow> tree_wf pre (addAt t pre rs mth h)"
proof (induction rs arbitrary: t pre)
  case (Cons r rs)
  from Cons.prems show ?case
  proof (cases rule: addAt_node_cases [where r = r and rs = rs and mth = mth and h = h])
    case drop
    with Cons.prems show ?thesis by simp
  next
    case (put n)
    then have "tree_wf (pre @ r) (addAt (node_subpaths n) (node_path n) rs mth h)"
      using Cons.IH [of "pre @ r" "node_subpaths n"] by (simp add: nodeOK_def)
    with put(2) Cons.prems show ?thesis
      unfolding put(4) tree_wf_iff [of pre]
      by (intro conjI mapPut_all) (auto simp: nodeOK_def)
  qed
qed simp

definition handlerAt :: "'h routeTree \<Rightarrow> string list \<Rightarrow> string \<Rightarrow> 'h option" where
  "handlerAt t rs mth = Option.bind (nodeAt t rs) (\<lambda>n. mapGet (node_handlers n) mth)"

lemma handlerAt_addAt:
  assumes "tree_wf pre t"
  shows "handlerAt (addAt t pre rs mth h) qs m =
    (if rs \<noteq> [] \<and> qs = rs \<and> m = mth \<and> (\<forall>r \<in> set rs. segParams r \<noteq> None) then Some h else handlerAt t qs m)"
  using assms
proof (induction rs arbitrary: t pre qs)
  case (Cons r rs)
  from Cons.prems show ?case
  proof (cases rule: addAt_node_cases [where r = r and rs = rs and mth = mth and h = h])
    case drop
    then show ?thesis by simp
  next
    case (put n)
    have IH: "handlerAt (addAt (node_subpaths n) (node_path n) rs mth h) q m =
      (if rs \<noteq> [] \<and> q = rs \<and> m = mth \<and> (\<forall>r \<in> set rs. segParams r \<noteq> None) then Some h
       else handlerAt (node_subpaths n) q m)" for q
      using put(2) by (intro Cons.IH) (auto simp: nodeOK_def)
    show ?thesis
    proof (cases qs)
      case (Cons q qs')
      show ?thesis
      proof (cases "q = r")
        case True
        with Cons put(1,3) IH [of qs'] show ?thesis
          unfolding put(4) by (auto simp: handlerAt_def bind_eq_Some_conv split: if_splits)
      next
        case False
        with Cons show ?thesis unfolding put(4) by (auto simp: handlerAt_def)
      qed
    qed (simp add: handlerAt_def)
  qed
qed (simp add: handlerAt_def)

text \<open>
  The contract of a table that is filled entry by entry: a lookup returns the last value added
  under an acceptable key.
\<close>

locale keyed_table =
  fixes tinv :: "'t \<Rightarrow> bool"
    and new :: 't
    and add :: "'k \<Rightarrow> 'v \<Rightarrow> 't \<Rightarrow> 't"
    and look :: "'t \<Rightarrow> 'k \<Rightarrow> 'v option"
    and ok :: "'k \<Rightarrow> bool"
  assumes inv_new: "tinv new"
    and inv_add: "tinv t \<Longrightarrow> tinv (add k v t)"
    and look_new: "look new k = None"
    and look_add: "tinv t \<Longrightarrow> look (add k v t) k' = (if ok k \<and> k' = k then Some v else look t k')"
begin

lemma inv_adds: "tinv t \<Longrightarrow> tinv (fold (\<lambda>(k, v). add k v) kvs t)"
  by (induction kvs arbitrary: t) (auto simp: inv_add)

lemma look_adds:
  "tinv t \<Longrightarrow> look (fold (\<lambda>(k, v). add k v) kvs t) k =
    (case map_of (rev kvs) k of Some v \<Rightarrow> if ok k then Some v else look t k | None \<Rightarrow> look t k)"
proof (induction kvs arbitrary: t)
  case (Cons kv kvs)
  obtain k' v' where "kv = (k', v')" by (cases kv)
  with Cons.IH [OF inv_add [OF Cons.prems]] look_add [OF Cons.prems] show ?case
    by (auto simp: map_add_def split: option.split)
qed simp

lemma look_built:
  "look (fold (\<lambda>(k, v). add k v) kvs new) k = (if ok k then map_of (rev kvs) k else None)"
  using look_adds [OF inv_new] by (auto simp: look_new split: option.split)

end

definition templateOK :: "string \<Rightarrow> bool" where
  "templateOK p \<longleftrightarrow> list_all (\<lambda>r. segParams r \<noteq> None) (segs p)"

interpretation tree: keyed_table "tree_wf pre" "[]"
    "\<lambda>(p, m) h t. treeAdd t pre p m h"
    "\<lambda>t (p, m). Option.bind (treeGetNode t p) (\<lambda>n. mapGet (node_handlers n) m)"
    "\<lambda>(p, m). templateOK p" for pre :: string
proof unfold_locales
  fix t :: "'h routeTree" and k k' :: "string \<times> string" and v :: 'h
  obtain p m where k: "k = (p, m)" by (cases k)
  obtain p' m' where k': "k' = (p', m')" by (cases k')
  assume wf: "tree_wf pre t"
  then show "tree_wf pre ((case k of (p, m) \<Rightarrow> \<lambda>h t. treeAdd t pre p m h) v t)"
    by (simp add: k treeAdd_segs addAt_wf)
  show "(case k' of (p, m) \<Rightarrow> Option.bind (treeGetNode ((case k of (p, m) \<Rightarrow> \<lambda>h t. treeAdd t pre p m h) v t) p)
      (\<lambda>n. mapGet (node_handlers n) m)) =
    (if (case k of (p, m) \<Rightarrow> templateOK p) \<and> k' = k then Some v
     else case k' of (p, m) \<Rightarrow> Option.bind (treeGetNode t p) (\<lambda>n. mapGet (node_handlers n) m))"
    using handlerAt_addAt [OF wf, of "segs p" m v "segs p'" m']
    by (auto simp: k k' handlerAt_def treeAdd_segs treeGetNode_segs segs_inj templateOK_def list_all_iff)
qed (auto simp: treeGetNode_segs split: prod.split)

subsection \<open>Matching finds the template\<close>

definition tmplParams :: "string list \<Rightarrow> string list" where
  "tmplParams rs = concat (map (\<lambda>r. the (segParams r)) rs)"

definition reqValues :: "string list \<Rightarrow> string list" where
  "reqValues qs = concat (map (\<lambda>r. snd (pathNameValues r)) qs)"

definition bindVars :: "string list \<Rightarrow> string list \<Rightarrow> (string, string) gomap \<Rightarrow> (string, string) gomap" where
  "bindVars ps vs vars = fold (\<lambda>(p, v) m. mapPut p v m) (zip ps vs) vars"

lemma those_length: "those xs = Some ys \<Longrightarrow> length ys = length xs"
  by (induction xs arbitrary: ys) (auto split: option.splits)

lemma nodeOK_shape: "nodeOK pre r n \<Longrightarrow> shape r = (node_name n, length (node_params n))"
  by (auto simp: nodeOK_def shape_def segParams_def dest: those_length)

lemma bindVars_Cons:
  assumes "length ps = length vs"
  shows "bindVars (ps @ ps') (vs @ vs') vars = bindVars ps' vs' (bindVars ps vs vars)"
  using assms by (simp add: bindVars_def)

lemma bindVars_step:
  assumes "nodeOK pre r n" "shape r = shape q"
  shows "bindVars (tmplParams (r # rs)) (reqValues (q # qs)) vars =
    bindVars (tmplParams rs) (reqValues qs) (bindVars (node_params n) (snd (pathNameValues q)) vars)"
proof -
  from assms have "length (node_params n) = length (snd (pathNameValues q))"
    using nodeOK_shape [OF assms(1)] by (simp add: shape_def)
  with assms show ?thesis
    by (simp add: tmplParams_def reqValues_def bindVars_Cons nodeOK_def)
qed

lemma find_shape:
  assumes "tree_wf pre t" "find (\<lambda>(_, n). (node_name n, length (node_params n)) = s) t = Some (r, n)"
  shows "mapGet t r = Some n \<and> nodeOK pre r n \<and> shape r = s"
proof -
  from assms(2) have "(r, n) \<in> set t" "(node_name n, length (node_params n)) = s"
    by (auto simp: find_Some_iff in_set_conv_nth)
  with assms(1) show ?thesis
    using nodeOK_shape by (fastforce simp: tree_wf_iff mapGet_Some_iff)
qed

lemma matchAt_sound:
  assumes "tree_wf pre t" "matchAt t qs vars = Some (n, vars')"
  shows "\<exists>rs. nodeAt t rs = Some n \<and> node_path n = pre @ concat rs \<and> map shape rs = map shape qs \<and>
    vars' = bindVars (tmplParams rs) (reqValues qs) vars"
  using assms
proof (induction qs arbitrary: t pre vars)
  case (Cons q qs)
  obtain r n0 where f: "find (\<lambda>(_, n). (node_name n, length (node_params n)) = shape q) t = Some (r, n0)"
    using Cons.prems(2) by (fastforce split: option.splits)
  note n0 = find_shape [OF Cons.prems(1) f]
  define vars0 where "vars0 = bindVars (node_params n0) (snd (pathNameValues q)) vars"
  have m: "matchAt t (q # qs) vars = (if qs = [] then Some (n0, vars0) else matchAt (node_subpaths n0) qs vars0)"
    using f by (simp add: vars0_def bindVars_def Let_def)
  show ?case
  proof (cases "qs = []")
    case True
    with m Cons.prems(2) n0 bindVars_step [of pre r n0 q "[]" "[]" vars] show ?thesis
      by (intro exI [of _ "[r]"]) (auto simp: vars0_def nodeOK_def tmplParams_def reqValues_def bindVars_def)
  next
    case False
    from n0 have "tree_wf (pre @ r) (node_subpaths n0)" by (simp add: nodeOK_def)
    from Cons.IH [OF this, of vars0] m False Cons.prems(2)
    obtain rs where rs: "nodeAt (node_subpaths n0) rs = Some n" "node_path n = (pre @ r) @ concat rs"
      "map shape rs = map shape qs" "vars' = bindVars (tmplParams rs) (reqValues qs) vars0" by auto
    moreover have "rs \<noteq> []" using rs(1) by auto
    ultimately show ?thesis using n0 bindVars_step [of pre r n0 q rs qs vars]
      by (intro exI [of _ "r # rs"]) (auto simp: vars0_def)
  qed
qed simp

definition unambiguous :: "'h routeTree \<Rightarrow> bool" where
  "unambiguous t \<longleftrightarrow>
     (\<forall>rs rs'. nodeAt t rs \<noteq> None \<longrightarrow> nodeAt t rs' \<noteq> None \<longrightarrow> map shape rs = map shape rs' \<longrightarrow> rs = rs')"

lemma matchAt_complete:
  assumes "tree_wf pre t" "unambiguous t" "nodeAt t rs = Some n" "map shape rs = map shape qs"
  shows "matchAt t qs vars = Some (n, bindVars (tmplParams rs) (reqValues qs) vars)"
  using assms
proof (induction rs arbitrary: t pre qs vars)
  case (Cons r rs)
  then obtain q qs' where qs: "qs = q # qs'" "shape r = shape q" "map shape rs = map shape qs'"
    by (cases qs) auto
  from Cons.prems(3) obtain n1 where n1: "mapGet t r = Some n1"
    and sub: "if rs = [] then n1 = n else nodeAt (node_subpaths n1) rs = Some n"
    by (auto split: option.splits if_splits)
  have ok1: "nodeOK pre r n1" using Cons.prems(1) n1 by (rule tree_wf_get)
  let ?P = "\<lambda>(_, n). (node_name n, length (node_params n)) = shape q"
  have "find ?P t \<noteq> None"
  proof
    assume "find ?P t = None"
    moreover have "(r, n1) \<in> set t" using n1 by (rule mapGet_SomeD)
    ultimately show False using nodeOK_shape [OF ok1] qs(2) by (auto simp: find_None_iff)
  qed
  then obtain r2 n2 where f: "find ?P t = Some (r2, n2)" by auto
  note n2 = find_shape [OF Cons.prems(1) f]
  have "[r2] = [r]"
    using Cons.prems(2) n1 n2 qs(2) unfolding unambiguous_def
    by (elim allE [of _ "[r2]"] allE [of _ "[r]"]) auto
  with n1 n2 have eq: "r2 = r" "n2 = n1" by auto
  define vars0 where "vars0 = bindVars (node_params n1) (snd (pathNameValues q)) vars"
  have m: "matchAt t qs vars = (if qs' = [] then Some (n1, vars0) else matchAt (node_subpaths n1) qs' vars0)"
    using f eq by (simp add: qs(1) vars0_def bindVars_def Let_def)
  note step = bindVars_step [OF ok1 qs(2), of rs qs' vars]
  show ?case
  proof (cases "rs = []")
    case True
    with qs have "qs' = []" by simp
    with True sub m step show ?thesis
      by (simp add: qs(1) vars0_def tmplParams_def reqValues_def bindVars_def)
  next
    case False
    with qs(3) have "qs' \<noteq> []" by auto
    have "unambiguous (node_subpaths n1)"
      unfolding unambiguous_def
    proof (intro allI impI)
      fix a b
      assume ab: "nodeAt (node_subpaths n1) a \<noteq> None" "nodeAt (node_subpaths n1) b \<noteq> None"
        "map shape a = map shape b"
      then have "nodeAt t (r # a) \<noteq> None" "nodeAt t (r # b) \<noteq> None" using n1 by auto
      with ab(3) Cons.prems(2) have "r # a = r # b" unfolding unambiguous_def by (metis list.simps(9))
      then show "a = b" by simp
    qed
    moreover have "tree_wf (pre @ r) (node_subpaths n1)" using ok1 by (simp add: nodeOK_def)
    ultimately have "matchAt (node_subpaths n1) qs' vars0 = Some (n, bindVars (tmplParams rs) (reqValues qs') vars0)"
      using Cons.IH sub False qs(3) by auto
    with m step \<open>qs' \<noteq> []\<close> show ?thesis by (simp add: qs(1) vars0_def)
  qed
qed simp

subsection \<open>The nodes of a registered tree\<close>

lemma nodeAt_addAt:
  assumes "tree_wf pre t" "nodeAt (addAt t pre rs mth h) qs \<noteq> None"
  shows "nodeAt t qs \<noteq> None \<or> (\<exists>k. qs = take (Suc k) rs \<and> k < length rs)"
  using assms
proof (induction rs arbitrary: t pre qs)
  case (Cons r rs)
  from Cons.prems(1) show ?case
  proof (cases rule: addAt_node_cases [where r = r and rs = rs and mth = mth and h = h])
    case drop
    with Cons.prems show ?thesis by simp
  next
    case (put n)
    from Cons.prems(2) obtain q qs' where qs: "qs = q # qs'" by (cases qs) auto
    show ?thesis
    proof (cases "q = r")
      case False
      with Cons.prems(2) qs put(4) show ?thesis by simp
    next
      case True
      show ?thesis
      proof (cases "qs' = []")
        case True
        with \<open>q = r\<close> qs show ?thesis by (intro disjI2 exI [of _ 0]) simp
      next
        case False
        have wf: "tree_wf (node_path n) (node_subpaths n)" using put(2) by (simp add: nodeOK_def)
        have "nodeAt (if rs = [] then node_subpaths n else addAt (node_subpaths n) (node_path n) rs mth h) qs' \<noteq> None"
          using Cons.prems(2) qs \<open>q = r\<close> False put(4) by simp
        then have "nodeAt (node_subpaths n) qs' \<noteq> None \<or> (\<exists>k. qs' = take (Suc k) rs \<and> k < length rs)"
          using Cons.IH [OF wf] by (auto split: if_splits)
        then show ?thesis
        proof
          assume "nodeAt (node_subpaths n) qs' \<noteq> None"
          with put(3) qs \<open>q = r\<close> False show ?thesis by auto
        next
          assume "\<exists>k. qs' = take (Suc k) rs \<and> k < length rs"
          then obtain k where "qs' = take (Suc k) rs" "k < length rs" by blast
          with qs \<open>q = r\<close> show ?thesis by (intro disjI2 exI [of _ "Suc k"]) simp
        qed
      qed
    qed
  qed
qed simp

text \<open>All templates and their prefixes, and the check that no two of them match the same requests.\<close>

definition prefixesOf :: "string \<Rightarrow> string list list" where
  "prefixesOf p = map (\<lambda>k. take (Suc k) (segs p)) [0..<length (segs p)]"

definition unambiguousPaths :: "string list \<Rightarrow> bool" where
  "unambiguousPaths paths =
     (let ps = concat (map prefixesOf paths)
      in list_all (\<lambda>x. list_all (\<lambda>y. map shape x = map shape y \<longrightarrow> x = y) ps) ps)"

type_synonym 'h routes = "((string \<times> string) \<times> 'h) list"

definition buildTree :: "'h routes \<Rightarrow> 'h routeTree" where
  "buildTree rts = fold (\<lambda>((p, m), h) t. treeAdd t [] p m h) rts []"

lemma buildTree_fold: "buildTree rts = fold (\<lambda>(k, v). (\<lambda>(p, m) h t. treeAdd t [] p m h) k v) rts []"
  by (simp add: buildTree_def split_def)

lemma buildTree_wf: "tree_wf [] (buildTree rts)"
  unfolding buildTree_fold by (rule tree.inv_adds) simp

lemma buildTree_nodes:
  "nodeAt (buildTree rts) qs \<noteq> None \<Longrightarrow> \<exists>p \<in> (fst \<circ> fst) ` set rts. qs \<in> set (prefixesOf p)"
proof -
  have "tree_wf [] t \<Longrightarrow> nodeAt (fold (\<lambda>((p, m), h) t. treeAdd t [] p m h) rts t) qs \<noteq> None \<Longrightarrow>
    nodeAt t qs \<noteq> None \<or> (\<exists>p \<in> (fst \<circ> fst) ` set rts. qs \<in> set (prefixesOf p))" for t
  proof (induction rts arbitrary: t)
    case (Cons rt rts)
    obtain p m h where rt: "rt = ((p, m), h)" by (metis surj_pair)
    from Cons.prems(1) have "tree_wf [] (addAt t [] (segs p) m h)" by (rule addAt_wf)
    with Cons rt have "nodeAt (addAt t [] (segs p) m h) qs \<noteq> None \<or>
        (\<exists>p \<in> (fst \<circ> fst) ` set rts. qs \<in> set (prefixesOf p))" by (simp add: treeAdd_segs)
    with nodeAt_addAt [OF Cons.prems(1), of "segs p" m h qs] rt show ?case
      by (force simp: prefixesOf_def)
  qed simp
  from this [of "[]"] show "nodeAt (buildTree rts) qs \<noteq> None \<Longrightarrow> ?thesis" by (simp add: buildTree_def)
qed

lemma buildTree_unambiguous:
  "unambiguousPaths (map (fst \<circ> fst) rts) \<Longrightarrow> unambiguous (buildTree rts)"
  unfolding unambiguous_def
proof (intro allI impI)
  fix rs rs'
  assume u: "unambiguousPaths (map (fst \<circ> fst) rts)" and "nodeAt (buildTree rts) rs \<noteq> None"
    "nodeAt (buildTree rts) rs' \<noteq> None" and eq: "map shape rs = map shape rs'"
  then have "rs \<in> set (concat (map prefixesOf (map (fst \<circ> fst) rts)))"
    "rs' \<in> set (concat (map prefixesOf (map (fst \<circ> fst) rts)))"
    using buildTree_nodes by fastforce+
  with u eq show "rs = rs'" by (auto simp: unambiguousPaths_def list_all_iff Let_def)
qed

text \<open>The handlers of a registered path: per method, the last one registered.\<close>

lemma buildTree_handler:
  "Option.bind (treeGetNode (buildTree rts) p) (\<lambda>n. mapGet (node_handlers n) m) =
    (if templateOK p then map_of (rev rts) (p, m) else None)"
  using tree.look_built [where k = "(p, m)" and kvs = rts] by (simp add: buildTree_fold)

subsection \<open>Properties\<close>

lemma nodeAt_path: "tree_wf pre t \<Longrightarrow> nodeAt t rs = Some n \<Longrightarrow> node_path n = pre @ concat rs"
proof (induction rs arbitrary: t pre)
  case (Cons r rs)
  obtain n1 where n1: "mapGet t r = Some n1" using Cons.prems(2) by (auto split: option.splits)
  with Cons.prems(1) have "nodeOK pre r n1" by (rule tree_wf_get)
  with Cons n1 show ?case by (cases "rs = []") (auto simp: nodeOK_def)
qed simp

lemma prefixesOf_concat: "rs \<in> set (prefixesOf p) \<Longrightarrow> hasPrefix p (concat rs)"
proof -
  assume "rs \<in> set (prefixesOf p)"
  then obtain k where "rs = take (Suc k) (segs p)" by (auto simp: prefixesOf_def)
  then have "p = concat rs @ concat (drop (Suc k) (segs p))"
    by (metis append_take_drop_id concat_append concat_segs)
  then show ?thesis by (auto simp: hasPrefix_iff)
qed

lemma match_node:
  assumes "unambiguousPaths (map (fst \<circ> fst) rts)" "templateOK p" "((p, m), h) \<in> set rts"
    and "map shape (segs q) = map shape (segs p)"
  shows "\<exists>node. treeMatch (buildTree rts) q [] =
      Some \<lparr>rm_path = p, rm_vars = bindVars (tmplParams (segs p)) (reqValues (segs q)) [], rm_node = Some node\<rparr> \<and>
    (\<forall>m'. mapGet (node_handlers node) m' = map_of (rev rts) (p, m'))"
proof -
  have "map_of (rev rts) (p, m) \<noteq> None"
    using weak_map_of_SomeI [of "(p, m)" h "rev rts"] assms(3) by auto
  with buildTree_handler [of rts p m] assms(2) obtain n where n: "treeGetNode (buildTree rts) p = Some n"
    by (auto simp: bind_eq_Some_conv)
  then have at: "nodeAt (buildTree rts) (segs p) = Some n" by (simp add: treeGetNode_segs)
  have "mapGet (node_handlers n) m' = map_of (rev rts) (p, m')" for m'
    using buildTree_handler [of rts p m'] assms(2) n by simp
  with matchAt_complete [OF buildTree_wf buildTree_unambiguous [OF assms(1)] at assms(4) [symmetric]]
    nodeAt_path [OF buildTree_wf at]
  show ?thesis by (simp add: treeMatch_segs)
qed

lemma match_none:
  assumes "\<forall>p \<in> (fst \<circ> fst) ` set rts. \<forall>ps \<in> set (prefixesOf p). map shape ps \<noteq> map shape (segs q)"
  shows "treeMatch (buildTree rts) q [] = None"
proof (rule ccontr)
  assume "treeMatch (buildTree rts) q [] \<noteq> None"
  then obtain n vs where "matchAt (buildTree rts) (segs q) [] = Some (n, vs)" by (auto simp: treeMatch_segs)
  from matchAt_sound [OF buildTree_wf this] obtain rs where
    "nodeAt (buildTree rts) rs \<noteq> None" "map shape rs = map shape (segs q)" by auto
  with buildTree_nodes [of rts rs] assms show False by auto
qed

text \<open>
  C25. A request reaches the route it is written for.  When no two registered templates (or prefixes of
  templates) have the same element names and parameter counts, a request path whose elements have
  the names and value counts of a valid registered template resolves, whatever the order of
  registration and of map iteration, to that template, with the last handler registered for the
  template and method, and with every parameter bound to the value at its position.
\<close>

theorem match_resolves:
  assumes "unambiguousPaths (map (fst \<circ> fst) rts)" "templateOK p" "((p, m), h) \<in> set rts"
    and "map shape (segs q) = map shape (segs p)"
  shows "\<exists>node. treeMatch (buildTree rts) q [] =
      Some \<lparr>rm_path = p, rm_vars = bindVars (tmplParams (segs p)) (reqValues (segs q)) [], rm_node = Some node\<rparr> \<and>
    mapGet (node_handlers node) m = map_of (rev rts) (p, m) \<and> map_of (rev rts) (p, m) \<noteq> None"
  using match_node [OF assms] weak_map_of_SomeI [of "(p, m)" h "rev rts"] assms(3) by auto

definition demoRoutes :: "nat routes" where
  "demoRoutes = [((''/acl/set={name},{type}'', ''GET''), 1), ((''/acl/set={name},{type}'', ''GET''), 2),
     ((''/acl'', ''GET''), 3), ((''/acl/set={name},{type}/seq={id}'', ''PUT''), 4)]"

theorem match_resolves_witness:
  "map_option rm_vars (treeMatch (buildTree demoRoutes) ''/acl/set=a,b/seq=7'' []) =
     Some [(''name'', ''a''), (''type'', ''b''), (''id'', ''7'')]"
proof -
  let ?p = "''/acl/set={name},{type}/seq={id}''" and ?q = "''/acl/set=a,b/seq=7''"
  have "unambiguousPaths (map (fst \<circ> fst) demoRoutes)" by code_simp
  moreover have "templateOK ?p" by code_simp
  moreover have "((?p, ''PUT''), 4) \<in> set demoRoutes" by (simp add: demoRoutes_def)
  moreover have "map shape (segs ?q) = map shape (segs ?p)" by code_simp
  moreover have "bindVars (tmplParams (segs ?p)) (reqValues (segs ?q)) [] =
      [(''name'', ''a''), (''type'', ''b''), (''id'', ''7'')]" by code_simp
  ultimately show ?thesis using match_resolves [of demoRoutes ?p "''PUT''" 4 ?q] by auto
qed

text \<open>
  C29. Nothing else is served: when a path resolves, the template found is a registered template or the
  beginning of one, its elements have the names and value counts of the path's elements, and the
  variables are bound by position.
\<close>

theorem match_sound:
  assumes "treeMatch (buildTree rts) q [] = Some info"
  shows "\<exists>rs p m h. ((p, m), h) \<in> set rts \<and> rs \<in> set (prefixesOf p) \<and> hasPrefix p (rm_path info) \<and>
    rm_path info = concat rs \<and> map shape rs = map shape (segs q) \<and>
    rm_vars info = bindVars (tmplParams rs) (reqValues (segs q)) []"
proof -
  from assms obtain n where m: "matchAt (buildTree rts) (segs q) [] = Some (n, rm_vars info)"
    and n: "rm_path info = node_path n" by (auto simp: treeMatch_segs)
  from matchAt_sound [OF buildTree_wf m] obtain rs where rs: "nodeAt (buildTree rts) rs = Some n"
    "node_path n = concat rs" "map shape rs = map shape (segs q)"
    "rm_vars info = bindVars (tmplParams rs) (reqValues (segs q)) []" by auto
  then obtain p where p: "p \<in> (fst \<circ> fst) ` set rts" "rs \<in> set (prefixesOf p)"
    using buildTree_nodes [of rts rs] by auto
  then obtain m h where "((p, m), h) \<in> set rts" by force
  moreover have "rm_path info = concat rs" using rs(2) n by simp
  ultimately show ?thesis using p(2) rs(3,4) prefixesOf_concat [OF p(2)] by metis
qed

theorem match_sound_witness:
  "map_option rm_path (treeMatch (buildTree demoRoutes) ''/acl/set=x,y'' []) = Some ''/acl/set={name},{type}'' \<and>
   (\<exists>p. p \<in> (fst \<circ> fst) ` set demoRoutes \<and> hasPrefix p ''/acl/set={name},{type}'')"
proof -
  have eq: "map_option rm_path (treeMatch (buildTree demoRoutes) ''/acl/set=x,y'' []) = Some ''/acl/set={name},{type}''"
    by code_simp
  then obtain info where "treeMatch (buildTree demoRoutes) ''/acl/set=x,y'' [] = Some info"
    "rm_path info = ''/acl/set={name},{type}''" by auto
  with match_sound [of demoRoutes "''/acl/set=x,y''" info] eq show ?thesis by force
qed

definition properElem :: "string \<Rightarrow> bool" where
  "properElem e \<longleftrightarrow> CHR ''/'' \<notin> set e \<and> e \<noteq> [] \<and> e \<noteq> ''.'' \<and> e \<noteq> ''..''"

lemma cleanElems_ok:
  "\<forall>e \<in> set es. CHR ''/'' \<notin> set e \<Longrightarrow> \<forall>e \<in> set acc. properElem e \<Longrightarrow>
   \<forall>e \<in> set (cleanElems acc es). properElem e"
proof (induction acc es rule: cleanElems.induct)
  case (2 acc e es)
  have tl: "\<forall>e \<in> set (tl acc). properElem e" using 2(5) by (cases acc) auto
  have es: "\<forall>e \<in> set es. CHR ''/'' \<notin> set e" using 2(4) by simp
  show ?case
  proof (cases "e = [] \<or> e = ''.''")
    case True
    with "2.IH"(1) [OF True es 2(5)] show ?thesis by simp
  next
    case no: False
    show ?thesis
    proof (cases "e = ''..''")
      case True
      with "2.IH"(2) [OF no True es tl] show ?thesis by simp
    next
      case False
      with no 2(4) have "properElem e" by (auto simp: properElem_def)
      with 2(5) have "\<forall>e \<in> set (e # acc). properElem e" by simp
      from "2.IH"(3) [OF no False es this] no False show ?thesis by simp
    qed
  qed
qed auto

lemma cleanElems_id: "\<forall>e \<in> set es. properElem e \<Longrightarrow> cleanElems acc es = rev acc @ es"
  by (induction es arbitrary: acc) (auto simp: properElem_def)

text \<open>
  Path normalisation is canonical and closes off traversal: a cleaned path starts with a slash,
  none of its elements is empty, \<^verbatim>\<open>.\<close> or \<^verbatim>\<open>..\<close> (unless it is the root path), and cleaning it again
  changes nothing.
\<close>

theorem cleanPath_canonical:
  "\<exists>es. cleanPath p = CHR ''/'' # joinStr es ''/'' \<and> (es \<noteq> [] \<longrightarrow> splitStr (tl (cleanPath p)) ''/'' = es) \<and>
    (\<forall>e \<in> set es. properElem e) \<and>
    cleanPath (cleanPath p) = cleanPath p"
proof -
  define es where "es = (if p = [] then []
    else cleanElems [] (splitStr (if hd p \<noteq> CHR ''/'' then CHR ''/'' # p else p) ''/''))"
  have eq: "cleanPath p = CHR ''/'' # joinStr es ''/''"
    by (simp add: cleanPath_def pathClean_def es_def)
  have ok: "\<forall>e \<in> set es. properElem e"
    using cleanElems_ok [of "splitStr (if hd p \<noteq> CHR ''/'' then CHR ''/'' # p else p) ''/''" "[]"]
      splitStr_char_free by (auto simp: es_def)
  have sp: "es \<noteq> [] \<Longrightarrow> splitStr (joinStr es ''/'') ''/'' = es"
    using ok by (intro split_join_char) (auto simp: properElem_def)
  have "splitStr (CHR ''/'' # joinStr es ''/'') ''/'' = [] # splitStr (joinStr es ''/'') ''/''"
    using splitStr_first [of "CHR ''/''" "[]" "[]" "[]" "joinStr es ''/''"] by simp
  moreover have "cleanElems [] (splitStr (joinStr es ''/'') ''/'') = es"
  proof (cases "es = []")
    case True
    have "splitStr [] ''/'' = [[]]" by code_simp
    with True show ?thesis by simp
  next
    case False
    with sp cleanElems_id [of es "[]"] ok show ?thesis by simp
  qed
  ultimately have "cleanPath (cleanPath p) = cleanPath p"
    unfolding eq by (simp add: cleanPath_def pathClean_def)
  with eq ok sp show ?thesis by (intro exI [of _ es]) simp
qed

theorem cleanPath_canonical_witness:
  "cleanPath (cleanPath ''/restconf/x/..//./data'') = ''/restconf/data''"
proof -
  have "cleanPath ''/restconf/x/..//./data'' = ''/restconf/data''" by code_simp
  with cleanPath_canonical [of "''/restconf/x/..//./data''"] show ?thesis by auto
qed

end
