(* ===== verification/Rest_Server.thy ===== *)
theory Rest_Server
  imports Rest_Context Rest_Routes
begin

text \<open>
  The request pipeline of the REST server: authentication (\<^verbatim>\<open>auth.go\<close>, \<^verbatim>\<open>basicAuth.go\<close>,
  \<^verbatim>\<open>clientCertAuth.go\<close>, \<^verbatim>\<open>jwtAuth.go\<close>), the middleware chain and the router (\<^verbatim>\<open>router.go\<close>).

  A handler is a value: a registered function of type \<^typ>\<open>'h\<close> (generated code outside the
  repository), the common OPTIONS handler, or one of the two middlewares around a handler;
  \<open>serve\<close> runs it.  The request context, which the code keeps as a pointer in the request, is
  passed along.  Operating system, SSH, JWT library, gorilla mux, JSON and MIME are fields of the
  record \<^verbatim>\<open>rest_env\<close>.
\<close>

subsection \<open>Requests and responses\<close>

record request =
  rq_Method :: string
  rq_EscapedPath :: string
  rq_Path :: string
  rq_Query :: "(string, string list) gomap"
  rq_ContentLength :: int
  rq_Body :: "string option"
  rq_Header :: fields
  rq_BasicAuth :: "(string \<times> string) option"
  rq_TLSName :: "string option"

text \<open>
  A response writer: the header map under construction, the status line and headers once sent, and
  the body.  The first \<^verbatim>\<open>WriteHeader\<close> (or \<^verbatim>\<open>Write\<close>) sends the headers; later ones have no effect on
  them.
\<close>

record writer =
  w_Header :: fields
  w_Sent :: "(nat \<times> fields) option"
  w_Body :: string

definition newWriter :: writer where
  "newWriter = \<lparr>w_Header = [], w_Sent = None, w_Body = []\<rparr>"

definition headerSet :: "string \<Rightarrow> string \<Rightarrow> writer \<Rightarrow> writer" where
  "headerSet k v w = w\<lparr>w_Header := mapPut k v (w_Header w)\<rparr>"

definition WriteHeader :: "nat \<Rightarrow> writer \<Rightarrow> writer" where
  "WriteHeader status w = (if w_Sent w = None then w\<lparr>w_Sent := Some (status, w_Header w)\<rparr> else w)"

definition writeBody :: "string \<Rightarrow> writer \<Rightarrow> writer" where
  "writeBody data w = (let w1 = WriteHeader 200 w in w1\<lparr>w_Body := w_Body w1 @ data\<rparr>)"

definition w_status :: "writer \<Rightarrow> nat" where
  "w_status w = (case w_Sent w of Some (s, _) \<Rightarrow> s | None \<Rightarrow> 200)"

subsection \<open>Contexts\<close>

record AuthInfo =
  au_User :: string
  au_Roles :: "string list"

record apiStats =
  handlerTime :: int
  translibTime :: int
  authTime :: int
  internal :: bool

record 'n RequestContext =
  rc_ID :: string
  rc_Name :: string
  rc_Consumes :: MediaTypes
  rc_Produces :: MediaTypes
  rc_Model :: "string option"
  rc_PMap :: NameMap
  rc_stats :: "apiStats option"
  rc_route :: "'n routeMatchInfo option"
  rc_Auth :: AuthInfo
  rc_ClientAuth :: UserAuth

definition setStats :: "(apiStats \<Rightarrow> apiStats) \<Rightarrow> 'n RequestContext \<Rightarrow> 'n RequestContext" where
  "setStats f rc = rc\<lparr>rc_stats := map_option f (rc_stats rc)\<rparr>"

text \<open>\<^verbatim>\<open>GetContext\<close> on a request without one: the counter value makes the id.\<close>

definition newContext :: "string \<Rightarrow> apiStats option \<Rightarrow> 'n RequestContext" where
  "newContext rid stats =
     \<lparr>rc_ID = ''REST-'' @ rid, rc_Name = [], rc_Consumes = [], rc_Produces = [], rc_Model = None,
      rc_PMap = [], rc_stats = stats, rc_route = None, rc_Auth = \<lparr>au_User = [], au_Roles = []\<rparr>,
      rc_ClientAuth = []\<rparr>"

subsection \<open>Handlers\<close>

datatype 'h handler =
    HandlerFunc 'h
  | OptionsHandlerFunc
  | LogHandler string "'h handler"
  | AuthHandler UserAuth "'h handler"

record Claims =
  cl_Username :: string
  cl_Roles :: "string list"
  cl_ExpiresAt :: int

text \<open>\<^verbatim>\<open>jwt.ParseWithClaims\<close>: an error (is it the invalid signature?) or validity and claims.\<close>

datatype jwt_result = JwtError bool | JwtToken bool Claims

record 'h muxRoute =
  mx_Methods :: "string list"
  mx_Path :: string
  mx_IsPrefix :: bool
  mx_Handler :: "'h handler"

datatype 'h mux_result =
    MuxMatch "'h handler" "(string \<times> (string, string) gomap) option"
  | MuxNotFound
  | MuxNotAllowed

record 'h rest_env =
  runHandler :: "'h \<Rightarrow> request \<Rightarrow> 'h handler RequestContext \<Rightarrow> writer \<Rightarrow> writer \<times> 'h handler RequestContext"
  sshLogin :: "string \<Rightarrow> string \<Rightarrow> bool"
  lookupUser :: "string \<Rightarrow> bool"
  groupIds :: "string \<Rightarrow> string list option"
  groupName :: "string \<Rightarrow> string option"
  jwtParse :: "string \<Rightarrow> jwt_result"
  muxServe :: "'h muxRoute list \<Rightarrow> request \<Rightarrow> 'h mux_result"
  errText :: "go_error \<Rightarrow> string"
  marshalErr :: "errorEntry list \<Rightarrow> string"
  mimeParse :: mime_parser
  detectType :: "string \<Rightarrow> string"
  jsonValidate :: "string \<Rightarrow> string \<Rightarrow> go_error + string"
  authDur :: int
  handlerDur :: int
  translibDur :: int

subsection \<open>Users\<close>

definition toUpperChar :: "char \<Rightarrow> char" where
  "toUpperChar c = (if CHR ''a'' \<le> c \<and> c \<le> CHR ''z'' then char_of (of_char c - 32 :: nat) else c)"

text \<open>All group names, or \<^term>\<open>None\<close> at the first failing lookup.\<close>

definition GetUserRoles :: "'h rest_env \<Rightarrow> string \<Rightarrow> string list option" where
  "GetUserRoles env usr = Option.bind (groupIds env usr) (\<lambda>gids. those (map (groupName env) gids))"

text \<open>
  \<^verbatim>\<open>PopulateAuthStruct\<close>: whether it succeeds, and the structure; the user name is already set when the
  roles cannot be read.
\<close>

definition PopulateAuthStruct :: "'h rest_env \<Rightarrow> string \<Rightarrow> AuthInfo \<Rightarrow> bool \<times> AuthInfo" where
  "PopulateAuthStruct env username auth =
     (if \<not> lookupUser env username then (False, auth)
      else let auth1 = auth\<lparr>au_User := username\<rparr>
           in case GetUserRoles env username of
                None \<Rightarrow> (False, auth1)
              | Some roles \<Rightarrow> (True, auth1\<lparr>au_Roles := roles\<rparr>))"

definition UserPwAuth :: "'h rest_env \<Rightarrow> string \<Rightarrow> string \<Rightarrow> bool" where
  "UserPwAuth env username passwd = sshLogin env username passwd"

definition isWriteOperation :: "request \<Rightarrow> bool" where
  "isWriteOperation r = (rq_Method r \<in> set [''POST'', ''PUT'', ''PATCH'', ''DELETE''])"

subsection \<open>Authentication\<close>

definition BasicAuthenAndAuthor ::
  "'h rest_env \<Rightarrow> request \<Rightarrow> 'n RequestContext \<Rightarrow> go_error option \<times> 'n RequestContext" where
  "BasicAuthenAndAuthor env r rc =
     (case rq_BasicAuth r of
        None \<Rightarrow> (Some (httpError 401 []), rc)
      | Some (username, passwd) \<Rightarrow>
          (if \<not> UserPwAuth env username passwd then (Some (httpError 401 []), rc)
           else let (ok, auth) = PopulateAuthStruct env username (rc_Auth rc); rc1 = rc\<lparr>rc_Auth := auth\<rparr>
                in if \<not> ok then (Some (httpError 401 []), rc1) else (None, rc1)))"

definition ClientCertAuthenAndAuthor ::
  "'h rest_env \<Rightarrow> request \<Rightarrow> 'n RequestContext \<Rightarrow> go_error option \<times> 'n RequestContext" where
  "ClientCertAuthenAndAuthor env r rc =
     (let username = (case rq_TLSName r of Some cn \<Rightarrow> map toLowerChar cn | None \<Rightarrow> [])
      in if length username = 0 then (Some (httpError 401 []), rc)
         else let (ok, auth) = PopulateAuthStruct env username (rc_Auth rc); rc1 = rc\<lparr>rc_Auth := auth\<rparr>
              in if \<not> ok then (Some (httpError 401 []), rc1) else (None, rc1))"

definition JwtAuthenAndAuthor ::
  "'h rest_env \<Rightarrow> request \<Rightarrow> 'n RequestContext \<Rightarrow> (string \<times> go_error option) \<times> 'n RequestContext" where
  "JwtAuthenAndAuthor env r rc =
     (let auth_hdr = mapStr (rq_Header r) ''Authorization''; auth_parts = splitStr auth_hdr '' ''
      in if length auth_hdr = 0 then (([], Some (httpError 401 ''JWT Token not present'')), rc)
         else if length auth_parts \<noteq> 2 \<or> auth_parts ! 0 \<noteq> ''Bearer''
         then (([], Some (httpError 401 ''Invalid JWT Token'')), rc)
         else
           let token = auth_parts ! 1
           in case jwtParse env token of
                JwtError sig \<Rightarrow>
                  ((token, Some (httpError 401 (if sig then ''Invalid JWT Signature'' else ''Invalid JWT Token''))), rc)
              | JwtToken valid claims \<Rightarrow>
                  (if \<not> valid then ((token, Some (httpError 401 ''Invalid JWT Token'')), rc)
                   else ((token, None),
                         rc\<lparr>rc_Auth := \<lparr>au_User = cl_Username claims, au_Roles = cl_Roles claims\<rparr>\<rparr>)))"

text \<open>The attempts of the middleware, in order; the error of the last attempt is reported.\<close>

definition authenticate ::
  "'h rest_env \<Rightarrow> request \<Rightarrow> 'n RequestContext \<Rightarrow> (bool \<times> go_error option) \<times> 'n RequestContext" where
  "authenticate env r rc =
     (let ((s1, e1), rc1) =
            (if UserAuth_Enabled (rc_ClientAuth rc) ''password'' \<or> UserAuth_Enabled (rc_ClientAuth rc) ''user''
             then (let (e, rc') = BasicAuthenAndAuthor env r rc in ((e = None, e), rc'))
             else ((False, None), rc));
          ((s2, e2), rc2) =
            (if \<not> s1 \<and> UserAuth_Enabled (rc_ClientAuth rc1) ''jwt''
             then (let ((_, e), rc') = JwtAuthenAndAuthor env r rc1 in ((e = None, e), rc'))
             else ((s1, e1), rc1))
      in (if \<not> s2 \<and> UserAuth_Enabled (rc_ClientAuth rc2) ''cert''
          then (let (e, rc') = ClientCertAuthenAndAuthor env r rc2 in ((e = None, e), rc'))
          else ((s2, e2), rc2)))"

subsection \<open>Error responses\<close>

definition writeErrorResponse :: "'h rest_env \<Rightarrow> writer \<Rightarrow> go_error option \<Rightarrow> writer" where
  "writeErrorResponse env w err =
     (let (status, data, ctype) = prepareErrorResponse (errText env) (marshalErr env) err
      in writeBody data (WriteHeader status (headerSet ''Content-Type'' ctype w)))"

definition notFound :: "'h rest_env \<Rightarrow> writer \<Rightarrow> writer" where
  "notFound env w = writeErrorResponse env w (Some (httpError 404 ''Not Found''))"

definition notAllowed :: "'h rest_env \<Rightarrow> request \<Rightarrow> writer \<Rightarrow> writer" where
  "notAllowed env r w = writeErrorResponse env w (Some (httpError 405 (rq_Method r @ '' Not Allowed'')))"

subsection \<open>Routes\<close>

record 'h routeRegInfo =
  rr_name :: string
  rr_method :: string
  rr_path :: string
  rr_handler :: 'h

definition AddRoute ::
  "string \<Rightarrow> string \<Rightarrow> string \<Rightarrow> 'h \<Rightarrow> 'h routeRegInfo list \<Rightarrow> 'h routeRegInfo list" where
  "AddRoute name method pattern handler allRoutes =
     allRoutes @ [\<lparr>rr_name = name, rr_method = map toUpperChar method, rr_path = pattern, rr_handler = handler\<rparr>]"

definition loggingMiddleware :: "'h handler \<Rightarrow> string \<Rightarrow> 'h handler" where
  "loggingMiddleware inner name = LogHandler name inner"

definition authMiddleware :: "'h handler \<Rightarrow> UserAuth \<Rightarrow> 'h handler" where
  "authMiddleware inner auth = (if \<not> UserAuth_Any auth then inner else AuthHandler auth inner)"

definition withMiddleware :: "'h handler \<Rightarrow> string \<Rightarrow> UserAuth \<Rightarrow> 'h handler" where
  "withMiddleware h name auth = loggingMiddleware (authMiddleware h auth) name"

record 'h Router =
  rcRoutes :: "'h handler routeTree"
  muxRoutes :: "'h muxRoute list"
  optionsHandler :: "'h handler"

text \<open>\<^verbatim>\<open>getAllMethodsForPath\<close>: the keys of the node's handler map, or the methods registered for the path.\<close>

definition getAllMethodsForPath :: "'h routeRegInfo list \<Rightarrow> 'n routeMatchInfo \<Rightarrow> string list" where
  "getAllMethodsForPath allRoutes m =
     (case rm_node m of
        Some node \<Rightarrow> map fst (node_handlers node)
      | None \<Rightarrow> map rr_method (filter (\<lambda>rr. rr_path rr = rm_path m) allRoutes))"

text \<open>
  Route information of the context, or of mux's current route (template and variables), or the
  cleaned request path.
\<close>

definition GetContextWithRouteInfo ::
  "request \<Rightarrow> (string \<times> (string, string) gomap) option \<Rightarrow> 'n RequestContext \<Rightarrow> 'n RequestContext" where
  "GetContextWithRouteInfo r current rc =
     (if rc_route rc \<noteq> None then rc
      else
        let (path, vars) = (case current of Some (tmpl, vs) \<Rightarrow> (tmpl, vs) | None \<Rightarrow> ([], []));
            path' = (if length path = 0 then cleanPath (rq_Path r) else path)
        in rc\<lparr>rc_route := Some \<lparr>rm_path = path', rm_vars = vars, rm_node = None\<rparr>\<rparr>)"

definition containsString :: "string list \<Rightarrow> string \<Rightarrow> bool" where
  "containsString arr s = list_ex (\<lambda>v. v = s) arr"

definition commonOptionsHandler ::
  "'h routeRegInfo list \<Rightarrow> request \<Rightarrow> 'h handler RequestContext \<Rightarrow> writer \<Rightarrow>
   (string \<times> (string, string) gomap) option \<Rightarrow> writer" where
  "commonOptionsHandler allRoutes r rc w current =
     (let rc' = GetContextWithRouteInfo r current rc;
          route = the (rc_route rc');
          methods = getAllMethodsForPath allRoutes route;
          hasPatch = containsString methods ''PATCH'';
          w1 = (if length methods \<noteq> 0
                then let methods' = (if \<not> containsString methods ''OPTIONS'' then methods @ [''OPTIONS''] else methods)
                     in headerSet ''Allow'' (joinStr (sort methods') '', '') w
                else w)
      in if hasPatch \<and> hasPrefix (rm_path route) restconfDataPathPrefix
         then headerSet ''Accept-Patch'' ''application/yang-data+json'' w1 else w1)"

text \<open>Running a handler.  \<open>current\<close> is mux's current route of the request, if mux dispatched it.\<close>

fun serve ::
  "'h rest_env \<Rightarrow> 'h routeRegInfo list \<Rightarrow> (string \<times> (string, string) gomap) option \<Rightarrow> 'h handler \<Rightarrow>
   request \<Rightarrow> 'h handler RequestContext \<Rightarrow> writer \<Rightarrow> writer \<times> 'h handler RequestContext" where
  "serve env allRoutes current (HandlerFunc h) r rc w = runHandler env h r rc w"
| "serve env allRoutes current OptionsHandlerFunc r rc w =
     (commonOptionsHandler allRoutes r rc w current, GetContextWithRouteInfo r current rc)"
| "serve env allRoutes current (LogHandler name inner) r rc w =
     (let (w', rc') = serve env allRoutes current inner r (rc\<lparr>rc_Name := name\<rparr>) w
      in (w', setStats (\<lambda>s. s\<lparr>handlerTime := handlerDur env\<rparr>) rc'))"
| "serve env allRoutes current (AuthHandler auth inner) r rc w =
     (let ((success, err), rc1) = authenticate env r (rc\<lparr>rc_ClientAuth := auth\<rparr>);
          rc2 = setStats (\<lambda>s. s\<lparr>authTime := authDur env\<rparr>) rc1
      in if \<not> success then (writeErrorResponse env w err, rc2)
         else serve env allRoutes current inner r rc2 w)"

subsection \<open>The router\<close>

definition serveFromTree ::
  "'h rest_env \<Rightarrow> 'h routeRegInfo list \<Rightarrow> 'h Router \<Rightarrow> string \<Rightarrow> request \<Rightarrow> 'h handler RequestContext \<Rightarrow>
   writer \<Rightarrow> writer \<times> 'h handler RequestContext" where
  "serveFromTree env allRoutes router path r rc w =
     (case treeMatch (rcRoutes router) path [] of
        None \<Rightarrow> (notFound env w, rc)
      | Some routeInfo \<Rightarrow>
          (let hs = (case rm_node routeInfo of Some node \<Rightarrow> node_handlers node | None \<Rightarrow> []);
               handler = (case mapGet hs (rq_Method r) of
                            Some h \<Rightarrow> Some h
                          | None \<Rightarrow> if rq_Method r = ''OPTIONS'' then Some (optionsHandler router) else None)
           in case handler of
                None \<Rightarrow> (notAllowed env r w, rc)
              | Some h \<Rightarrow> serve env allRoutes None h r (rc\<lparr>rc_route := Some routeInfo\<rparr>) w))"

definition Router_ServeHTTP ::
  "'h rest_env \<Rightarrow> 'h routeRegInfo list \<Rightarrow> 'h Router \<Rightarrow> request \<Rightarrow> 'h handler RequestContext \<Rightarrow>
   writer \<Rightarrow> writer \<times> 'h handler RequestContext" where
  "Router_ServeHTTP env allRoutes router r rc w =
     (let path = cleanPath (rq_EscapedPath r)
      in if isServeFromTree path then serveFromTree env allRoutes router path r rc w
         else case muxServe env (muxRoutes router) r of
                MuxMatch h current \<Rightarrow> serve env allRoutes current h r rc w
              | MuxNotFound \<Rightarrow> (notFound env w, rc)
              | MuxNotAllowed \<Rightarrow> (notAllowed env r w, rc))"

text \<open>
  \<^verbatim>\<open>newRouter\<close>: RESTCONF templates go to the tree, the others to mux, followed by the common OPTIONS
  handler of every mux path and the internal services, in the order \<^verbatim>\<open>finish\<close> adds them.
\<close>

definition addRoute :: "UserAuth \<Rightarrow> 'h routeRegInfo \<Rightarrow> 'h handler routeTree \<times> 'h muxRoute list \<Rightarrow>
    'h handler routeTree \<times> 'h muxRoute list" where
  "addRoute auth rr tm =
     (let (tree, mux) = tm; h = withMiddleware (HandlerFunc (rr_handler rr)) (rr_name rr) auth
      in if isServeFromTree (rr_path rr)
         then (treeAdd tree [] (rr_path rr) (rr_method rr) h, mux)
         else (tree, mux @ [\<lparr>mx_Methods = [rr_method rr], mx_Path = rr_path rr, mx_IsPrefix = False,
                             mx_Handler = h\<rparr>]))"

definition muxFinish :: "UserAuth \<Rightarrow> 'h muxRoute list \<Rightarrow> string list \<Rightarrow> 'h muxRoute list \<Rightarrow> 'h muxRoute list" where
  "muxFinish auth services paths mux =
     (let oh = withMiddleware OptionsHandlerFunc ''optionsHandler'' auth
      in mux @ map (\<lambda>p. \<lparr>mx_Methods = [''OPTIONS''], mx_Path = p, mx_IsPrefix = False, mx_Handler = oh\<rparr>) paths
         @ services)"

definition newRouter :: "UserAuth \<Rightarrow> 'h muxRoute list \<Rightarrow> 'h routeRegInfo list \<Rightarrow> 'h Router" where
  "newRouter auth services allRoutes =
     (let (tree, mux) = fold (addRoute auth) allRoutes ([], [])
      in \<lparr>rcRoutes = tree, muxRoutes = muxFinish auth services (remdups (map mx_Path mux)) mux,
          optionsHandler = withMiddleware OptionsHandlerFunc ''optionsHandler'' auth\<rparr>)"

end
