(* ===== verification/Rest_Auth.thy ===== *)
theory Rest_Auth
  imports Rest_Server
begin

text \<open>
  Correctness of the request pipeline: a handler behind the authentication middleware only runs
  for a verified identity, every registered RESTCONF route is behind it, and unknown paths and
  methods get 404 and 405.
\<close>

subsection \<open>Verified identities\<close>

text \<open>
  What it means that the request proves identity \<open>a\<close> under the enabled modes: a password the system
  accepts, a valid token, or a client certificate; in the first and the last case the roles are
  the user's groups.
\<close>

definition userRoles :: "'h rest_env \<Rightarrow> string \<Rightarrow> AuthInfo \<Rightarrow> bool" where
  "userRoles env u a \<longleftrightarrow>
     lookupUser env u \<and> (\<exists>roles. GetUserRoles env u = Some roles \<and> a = \<lparr>au_User = u, au_Roles = roles\<rparr>)"

definition byPassword :: "'h rest_env \<Rightarrow> request \<Rightarrow> AuthInfo \<Rightarrow> bool" where
  "byPassword env r a \<longleftrightarrow>
     (\<exists>u p. rq_BasicAuth r = Some (u, p) \<and> sshLogin env u p \<and> userRoles env u a)"

definition byToken :: "'h rest_env \<Rightarrow> request \<Rightarrow> AuthInfo \<Rightarrow> bool" where
  "byToken env r a \<longleftrightarrow>
     (\<exists>tok claims. mapStr (rq_Header r) ''Authorization'' = ''Bearer '' @ tok \<and> CHR '' '' \<notin> set tok \<and>
        jwtParse env tok = JwtToken True claims \<and>
        a = \<lparr>au_User = cl_Username claims, au_Roles = cl_Roles claims\<rparr>)"

definition byCert :: "'h rest_env \<Rightarrow> request \<Rightarrow> AuthInfo \<Rightarrow> bool" where
  "byCert env r a \<longleftrightarrow>
     (\<exists>cn. rq_TLSName r = Some cn \<and> cn \<noteq> [] \<and> userRoles env (map toLowerChar cn) a)"

definition identity :: "'h rest_env \<Rightarrow> UserAuth \<Rightarrow> request \<Rightarrow> AuthInfo \<Rightarrow> bool" where
  "identity env auth r a \<longleftrightarrow>
     (UserAuth_Enabled auth ''password'' \<or> UserAuth_Enabled auth ''user'') \<and> byPassword env r a \<or>
     UserAuth_Enabled auth ''jwt'' \<and> byToken env r a \<or>
     UserAuth_Enabled auth ''cert'' \<and> byCert env r a"

lemma populate_cases:
  obtains (ok) a' where "PopulateAuthStruct env u a = (True, a')" "userRoles env u a'"
  | (fail) a' where "PopulateAuthStruct env u a = (False, a')" "\<forall>x. \<not> userRoles env u x"
proof (cases "lookupUser env u")
  case True
  show thesis
  proof (cases "GetUserRoles env u")
    case None
    with True show thesis
      by (intro fail [of "a\<lparr>au_User := u\<rparr>"]) (simp_all add: PopulateAuthStruct_def userRoles_def Let_def)
  next
    case (Some roles)
    with True show thesis
      by (intro ok [of "\<lparr>au_User = u, au_Roles = roles\<rparr>"])
         (simp_all add: PopulateAuthStruct_def userRoles_def Let_def)
  qed
next
  case False
  then show thesis by (intro fail [of a]) (simp_all add: PopulateAuthStruct_def userRoles_def)
qed

lemma Basic_spec:
  assumes "BasicAuthenAndAuthor env r rc = (e, rc')"
  shows "(e = None \<longrightarrow> byPassword env r (rc_Auth rc')) \<and>
    (e \<noteq> None \<longrightarrow> e = Some (HttpErrorType 401 []) \<and> (\<forall>a. \<not> byPassword env r a)) \<and>
    rc_ClientAuth rc' = rc_ClientAuth rc"
proof (cases "rq_BasicAuth r")
  case None
  with assms show ?thesis by (auto simp: BasicAuthenAndAuthor_def byPassword_def httpError_def)
next
  case (Some up)
  obtain u p where up: "up = (u, p)" by (cases up)
  show ?thesis
  proof (cases "sshLogin env u p")
    case False
    with Some up assms show ?thesis
      by (auto simp: BasicAuthenAndAuthor_def byPassword_def UserPwAuth_def httpError_def)
  next
    case True
    show ?thesis
      by (cases rule: populate_cases [of env u "rc_Auth rc"])
         (use Some up True assms in \<open>auto simp: BasicAuthenAndAuthor_def byPassword_def UserPwAuth_def
            httpError_def Let_def\<close>)
  qed
qed

lemma Cert_spec:
  assumes "ClientCertAuthenAndAuthor env r rc = (e, rc')"
  shows "(e = None \<longrightarrow> byCert env r (rc_Auth rc')) \<and>
    (e \<noteq> None \<longrightarrow> e = Some (HttpErrorType 401 []) \<and> (\<forall>a. \<not> byCert env r a)) \<and>
    rc_ClientAuth rc' = rc_ClientAuth rc"
proof (cases "rq_TLSName r")
  case None
  with assms show ?thesis by (auto simp: ClientCertAuthenAndAuthor_def byCert_def httpError_def)
next
  case (Some cn)
  show ?thesis
  proof (cases "cn = []")
    case True
    with Some assms show ?thesis
      by (auto simp: ClientCertAuthenAndAuthor_def byCert_def httpError_def)
  next
    case False
    show ?thesis
      by (cases rule: populate_cases [of env "map toLowerChar cn" "rc_Auth rc"])
         (use Some False assms in \<open>auto simp: ClientCertAuthenAndAuthor_def byCert_def httpError_def Let_def\<close>)
  qed
qed

text \<open>An authorization header with exactly the scheme and one token.\<close>

lemma bearer_split:
  "length (splitStr s '' '') = 2 \<and> splitStr s '' '' ! 0 = ''Bearer'' \<longleftrightarrow>
   (\<exists>tok. s = ''Bearer '' @ tok \<and> CHR '' '' \<notin> set tok \<and> splitStr s '' '' = [''Bearer'', tok])"
proof
  assume "length (splitStr s '' '') = 2 \<and> splitStr s '' '' ! 0 = ''Bearer''"
  then obtain tok where t: "splitStr s '' '' = [''Bearer'', tok]"
    by (auto simp: length_Suc_conv numeral_2_eq_2)
  moreover have "s = joinStr (splitStr s '' '') '' ''" by simp
  ultimately have "s = ''Bearer '' @ tok" by simp
  moreover have "CHR '' '' \<notin> set tok" using splitStr_char_free [of s "CHR '' ''"] t by simp
  ultimately show "\<exists>tok. s = ''Bearer '' @ tok \<and> CHR '' '' \<notin> set tok \<and> splitStr s '' '' = [''Bearer'', tok]"
    using t by blast
qed auto

lemma bearer_token: "CHR '' '' \<notin> set tok \<Longrightarrow> splitStr (''Bearer '' @ tok) '' '' = [''Bearer'', tok]"
  using split_join_char [of "[''Bearer'', tok]" "CHR '' ''"] by simp

lemma Jwt_spec:
  assumes "JwtAuthenAndAuthor env r rc = ((tok, e), rc')"
  shows "(e = None \<longrightarrow> byToken env r (rc_Auth rc')) \<and>
    (e \<noteq> None \<longrightarrow> (\<exists>m. e = Some (HttpErrorType 401 m)) \<and> (\<forall>a. \<not> byToken env r a)) \<and>
    rc_ClientAuth rc' = rc_ClientAuth rc"
proof -
  define hdr where "hdr = mapStr (rq_Header r) ''Authorization''"
  show ?thesis
  proof (cases "length (splitStr hdr '' '') = 2 \<and> splitStr hdr '' '' ! 0 = ''Bearer''")
    case True
    then obtain t where t: "hdr = ''Bearer '' @ t" "CHR '' '' \<notin> set t" "splitStr hdr '' '' = [''Bearer'', t]"
      using bearer_split by blast
    then have "hdr \<noteq> []" by simp
    with t show ?thesis
      using assms by (auto simp: JwtAuthenAndAuthor_def byToken_def hdr_def [symmetric] httpError_def Let_def
          split: jwt_result.splits if_splits)
  next
    case False
    then have "\<not> byToken env r a" for a
      using bearer_token by (auto simp: byToken_def hdr_def)
    moreover have "(\<exists>m. e = Some (HttpErrorType 401 m)) \<and> rc' = rc"
      using False assms by (auto simp: JwtAuthenAndAuthor_def hdr_def [symmetric] httpError_def Let_def split: if_splits)
    ultimately show ?thesis by auto
  qed
qed

lemma authenticate_spec:
  assumes "authenticate env r rc = ((s, e), rc')" "rc_ClientAuth rc = auth"
  shows "(s \<longrightarrow> identity env auth r (rc_Auth rc')) \<and> (\<not> s \<longrightarrow> (\<forall>a. \<not> identity env auth r a)) \<and>
    rc_ClientAuth rc' = auth \<and>
    (\<not> s \<longrightarrow> (\<exists>m \<in> set [''password'', ''user'', ''jwt'', ''cert'']. UserAuth_Enabled auth m) \<longrightarrow>
       (\<exists>msg. e = Some (HttpErrorType 401 msg)))"
proof -
  obtain eb rb where b: "BasicAuthenAndAuthor env r rc = (eb, rb)" by fastforce
  define pw where "pw \<longleftrightarrow> UserAuth_Enabled auth ''password'' \<or> UserAuth_Enabled auth ''user''"
  define rc1 where "rc1 = (if pw then rb else rc)"
  obtain tj ej rj where j: "JwtAuthenAndAuthor env r rc1 = ((tj, ej), rj)" by (metis surj_pair)
  define js where "js \<longleftrightarrow> \<not> (pw \<and> eb = None) \<and> UserAuth_Enabled auth ''jwt''"
  define rc2 where "rc2 = (if js then rj else rc1)"
  obtain ec rcc where c: "ClientCertAuthenAndAuthor env r rc2 = (ec, rcc)" by fastforce
  note specs = Basic_spec [OF b] Jwt_spec [OF j] Cert_spec [OF c]
  have a1: "rc_ClientAuth rc1 = auth" using specs(1) assms(2) by (simp add: rc1_def)
  have a2: "rc_ClientAuth rc2 = auth" using specs(2) a1 by (simp add: rc2_def)
  have s2: "(if js then ej = None else pw \<and> eb = None) \<or>
      \<not> (if js then ej = None else pw \<and> eb = None)" by blast
  have eq: "authenticate env r rc =
    (if \<not> (if js then ej = None else pw \<and> eb = None) \<and> UserAuth_Enabled auth ''cert''
     then ((ec = None, ec), rcc)
     else ((if js then ej = None else pw \<and> eb = None,
            if js then ej else if pw then eb else None), rc2))"
    using assms(2) a1 a2 b j c
    by (auto simp: authenticate_def pw_def [symmetric] js_def rc1_def rc2_def Let_def split: if_splits)
  show ?thesis
  proof (cases "\<not> (if js then ej = None else pw \<and> eb = None) \<and> UserAuth_Enabled auth ''cert''")
    case True
    with assms(1) eq have r: "s = (ec = None)" "e = ec" "rc' = rcc" by auto
    have "\<not> identity env auth r a" if "ec \<noteq> None" for a
      using that True specs by (auto simp: identity_def pw_def [symmetric] js_def split: if_splits)
    with True specs a2 r show ?thesis by (auto simp: identity_def)
  next
    case False
    with assms(1) eq have r: "s = (if js then ej = None else pw \<and> eb = None)"
      "e = (if js then ej else if pw then eb else None)" "rc' = rc2" by simp_all
    have "identity env auth r (rc_Auth rc2)" if s
      using that r specs by (auto simp: identity_def pw_def [symmetric] js_def rc1_def rc2_def split: if_splits)
    moreover have "\<not> identity env auth r a" if "\<not> s" for a
      using that r False specs by (auto simp: identity_def pw_def [symmetric] js_def split: if_splits)
    moreover have "\<exists>msg. e = Some (HttpErrorType 401 msg)"
      if "\<not> s" "\<exists>m \<in> set [''password'', ''user'', ''jwt'', ''cert'']. UserAuth_Enabled auth m"
      using that r False specs by (auto simp: pw_def js_def split: if_splits)
    ultimately show ?thesis using a2 r by blast
  qed
qed

subsection \<open>Properties\<close>

text \<open>
  C5. No handler runs unauthenticated.  With any authentication mode enabled, a handler wrapped by
  \<^verbatim>\<open>withMiddleware\<close> either runs in a context whose identity the request proves under an enabled mode, or
  it does not run at all: the response is the error response of the last attempt, which happens only
  when the request proves no identity, and its status is 401 as soon as one of the four known modes
  is enabled.
\<close>

theorem auth_guard:
  assumes "UserAuth_Any auth"
  shows "(\<exists>rc1. identity env auth r (rc_Auth rc1) \<and> rc_ClientAuth rc1 = auth \<and>
      fst (serve env rts cur (withMiddleware (HandlerFunc h) name auth) r rc w) =
        fst (runHandler env h r rc1 w)) \<or>
    ((\<forall>a. \<not> identity env auth r a) \<and>
     (\<exists>e. fst (serve env rts cur (withMiddleware (HandlerFunc h) name auth) r rc w) = writeErrorResponse env w e \<and>
        ((\<exists>m \<in> set [''password'', ''user'', ''jwt'', ''cert'']. UserAuth_Enabled auth m) \<longrightarrow>
           (\<exists>msg. e = Some (HttpErrorType 401 msg)))))"
proof -
  let ?rc = "rc\<lparr>rc_Name := name, rc_ClientAuth := auth\<rparr>"
  obtain s e rc1 where a: "authenticate env r ?rc = ((s, e), rc1)" by (metis surj_pair)
  define rc2 where "rc2 = setStats (\<lambda>s. s\<lparr>authTime := authDur env\<rparr>) rc1"
  have rc2: "rc_Auth rc2 = rc_Auth rc1" "rc_ClientAuth rc2 = rc_ClientAuth rc1"
    by (simp_all add: rc2_def setStats_def)
  have eq: "fst (serve env rts cur (withMiddleware (HandlerFunc h) name auth) r rc w) =
      (if s then fst (runHandler env h r rc2 w) else writeErrorResponse env w e)"
    using assms a by (simp add: withMiddleware_def loggingMiddleware_def authMiddleware_def rc2_def split_def Let_def)
  note spec = authenticate_spec [OF a refl]
  show ?thesis
  proof (cases s)
    case True
    with spec eq rc2 show ?thesis by (intro disjI1 exI [of _ rc2]) simp
  next
    case False
    with spec eq show ?thesis by (intro disjI2 conjI exI [of _ e]) auto
  qed
qed

text \<open>A server whose only account is admin/secret, and whose handlers answer with the user's name.\<close>

definition demoEnv :: "nat rest_env" where
  "demoEnv = \<lparr>runHandler = (\<lambda>h r rc w. (writeBody (au_User (rc_Auth rc)) w, rc)),
     sshLogin = (\<lambda>u p. u = ''admin'' \<and> p = ''secret''), lookupUser = (\<lambda>u. u = ''admin''),
     groupIds = (\<lambda>_. Some [''1000'']), groupName = (\<lambda>_. Some ''sudo''),
     jwtParse = (\<lambda>_. JwtError True), muxServe = (\<lambda>_ _. MuxNotFound), errText = rawText,
     marshalErr = (\<lambda>es. concat (map ee_Message es)), mimeParse = (\<lambda>s. Some (s, [])),
     detectType = (\<lambda>_. ''text/plain''), jsonValidate = (\<lambda>_ b. Inr b),
     authDur = 2, handlerDur = 5, translibDur = 1\<rparr>"

definition demoReq :: "string \<Rightarrow> string \<Rightarrow> request" where
  "demoReq method path = \<lparr>rq_Method = method, rq_EscapedPath = path, rq_Path = path, rq_Query = [],
     rq_ContentLength = 0, rq_Body = None, rq_Header = [], rq_BasicAuth = Some (''admin'', ''wrong''),
     rq_TLSName = None\<rparr>"

definition demoAuth :: UserAuth where
  "demoAuth = [(''password'', True), (''cert'', False), (''jwt'', True)]"

theorem auth_guard_witness:
  "\<exists>msg. fst (serve demoEnv [] None (withMiddleware (HandlerFunc 7) ''op'' demoAuth) (demoReq ''GET'' ''/'')
      (newContext ''1'' None) newWriter) =
    writeErrorResponse demoEnv newWriter (Some (HttpErrorType 401 msg))"
proof -
  have any: "UserAuth_Any demoAuth" by code_simp
  have en: "UserAuth_Enabled demoAuth ''password''" by code_simp
  have "\<not> identity demoEnv demoAuth (demoReq ''GET'' ''/'') a" for a
    by (auto simp: identity_def byPassword_def byToken_def byCert_def demoEnv_def demoReq_def demoAuth_def
        UserAuth_Enabled_def authFlag_def)
  with auth_guard [OF any, of demoEnv "demoReq ''GET'' ''/''" "[]" None 7 "''op''" "newContext ''1'' None" newWriter]
    en show ?thesis by auto
qed

text \<open>The tree of \<^verbatim>\<open>newRouter\<close> is the one built from the RESTCONF routes.\<close>

definition restconfRoutes :: "UserAuth \<Rightarrow> 'h routeRegInfo list \<Rightarrow> 'h handler routes" where
  "restconfRoutes auth allRoutes =
     map (\<lambda>rr. ((rr_path rr, rr_method rr), withMiddleware (HandlerFunc (rr_handler rr)) (rr_name rr) auth))
       (filter (\<lambda>rr. isServeFromTree (rr_path rr)) allRoutes)"

lemma addRoute_fold:
  "fst (fold (addRoute auth) allRoutes (t, m)) =
   fold (\<lambda>((p, m), h) t. treeAdd t [] p m h) (restconfRoutes auth allRoutes) t"
  by (induction allRoutes arbitrary: t m) (auto simp: restconfRoutes_def addRoute_def Let_def)

lemma newRouter_tree: "rcRoutes (newRouter auth services allRoutes) = buildTree (restconfRoutes auth allRoutes)"
  using addRoute_fold [of auth allRoutes "[]" "[]"]
  by (simp add: newRouter_def buildTree_def split_def Let_def)

lemma newRouter_options:
  "optionsHandler (newRouter auth services allRoutes) = withMiddleware OptionsHandlerFunc ''optionsHandler'' auth"
  by (simp add: newRouter_def split_def Let_def)

text \<open>The last registration of a path and method among the RESTCONF routes.\<close>

definition registered :: "'h routeRegInfo list \<Rightarrow> string \<Rightarrow> string \<Rightarrow> 'h routeRegInfo option" where
  "registered allRoutes p m = find (\<lambda>rr. rr_path rr = p \<and> rr_method rr = m) (rev allRoutes)"

lemma map_of_routes:
  "map_of (map (\<lambda>rr. ((rr_path rr, rr_method rr), f rr)) xs) (p, m) =
   map_option f (find (\<lambda>rr. rr_path rr = p \<and> rr_method rr = m) xs)"
  by (induction xs) auto

lemma find_filter: "(\<And>x. Q x \<Longrightarrow> P x) \<Longrightarrow> find Q (filter P xs) = find Q xs"
  by (induction xs) auto

lemma restconfRoutes_last:
  assumes "isServeFromTree p"
  shows "map_of (rev (restconfRoutes auth allRoutes)) (p, m) =
    map_option (\<lambda>rr. withMiddleware (HandlerFunc (rr_handler rr)) (rr_name rr) auth) (registered allRoutes p m)"
  using assms
  by (auto simp: restconfRoutes_def registered_def rev_map rev_filter map_of_routes
      intro!: arg_cong [of _ _ "map_option _"] find_filter)

text \<open>
  C6. Requests under \<^verbatim>\<open>/restconf/\<close> are dispatched as registered.  For the router of any list of routes
  whose templates are unambiguous: when the cleaned request path has the element names and value
  counts of a valid registered template, the request is served by the last handler registered for
  that template and method, behind the middleware, with the template and its variables as route
  information; OPTIONS without a registration goes to the common handler behind the middleware; any
  other method gets 405.
\<close>

theorem router_dispatch:
  assumes "unambiguousPaths (map rr_path (filter (\<lambda>rr. isServeFromTree (rr_path rr)) allRoutes))"
    and "q = cleanPath (rq_EscapedPath r)" "rr \<in> set allRoutes" "isServeFromTree (rr_path rr)"
    and "templateOK (rr_path rr)" "isServeFromTree q" "map shape (segs q) = map shape (segs (rr_path rr))"
  shows "\<exists>info. rm_path info = rr_path rr \<and>
    rm_vars info = bindVars (tmplParams (segs (rr_path rr))) (reqValues (segs q)) [] \<and>
    Router_ServeHTTP env allRoutes (newRouter auth services allRoutes) r rc w =
      (case registered allRoutes (rr_path rr) (rq_Method r) of
         Some rr' \<Rightarrow> serve env allRoutes None (withMiddleware (HandlerFunc (rr_handler rr')) (rr_name rr') auth) r
                      (rc\<lparr>rc_route := Some info\<rparr>) w
       | None \<Rightarrow>
           (if rq_Method r = ''OPTIONS''
            then serve env allRoutes None (withMiddleware OptionsHandlerFunc ''optionsHandler'' auth) r
                   (rc\<lparr>rc_route := Some info\<rparr>) w
            else (notAllowed env r w, rc)))"
proof -
  let ?rts = "restconfRoutes auth allRoutes"
  let ?h = "withMiddleware (HandlerFunc (rr_handler rr)) (rr_name rr) auth"
  have unamb: "unambiguousPaths (map (fst \<circ> fst) ?rts)"
    using assms(1) by (simp add: restconfRoutes_def o_def)
  have "((rr_path rr, rr_method rr), ?h) \<in> set ?rts" using assms(3,4) by (auto simp: restconfRoutes_def)
  from match_node [OF unamb assms(5) this assms(7)] obtain info node where
    info: "treeMatch (buildTree ?rts) q [] = Some info" "rm_path info = rr_path rr"
      "rm_vars info = bindVars (tmplParams (segs (rr_path rr))) (reqValues (segs q)) []" "rm_node info = Some node"
    and hs: "\<And>m. mapGet (node_handlers node) m = map_of (rev ?rts) (rr_path rr, m)"
    by fastforce
  have "Router_ServeHTTP env allRoutes (newRouter auth services allRoutes) r rc w =
      serveFromTree env allRoutes (newRouter auth services allRoutes) q r rc w"
    using assms(2,6) by (simp add: Router_ServeHTTP_def Let_def)
  with info show ?thesis
    by (intro exI [of _ info])
       (simp add: serveFromTree_def newRouter_tree newRouter_options hs restconfRoutes_last [OF assms(4)]
         split: option.split)
qed

definition demoAPI :: "nat routeRegInfo list" where
  "demoAPI = AddRoute ''get_acl'' ''get'' ''/restconf/data/acl={name}'' 1
     (AddRoute ''put_acl'' ''put'' ''/restconf/data/acl={name}'' 2 [])"

theorem router_dispatch_witness:
  "w_status (fst (Router_ServeHTTP demoEnv demoAPI (newRouter [] [] demoAPI)
      (demoReq ''DELETE'' ''/restconf//data/./acl=x'') (newContext ''1'' None) newWriter)) = 405"
proof -
  let ?r = "demoReq ''DELETE'' ''/restconf//data/./acl=x''" and ?rr = "hd demoAPI"
  have "unambiguousPaths (map rr_path (filter (\<lambda>rr. isServeFromTree (rr_path rr)) demoAPI))" by code_simp
  moreover have "?rr \<in> set demoAPI" by (simp add: demoAPI_def AddRoute_def)
  moreover have "isServeFromTree (rr_path ?rr)" "templateOK (rr_path ?rr)"
    "isServeFromTree (cleanPath (rq_EscapedPath ?r))"
    "map shape (segs (cleanPath (rq_EscapedPath ?r))) = map shape (segs (rr_path ?rr))" by code_simp+
  ultimately obtain info where
    eq: "Router_ServeHTTP demoEnv demoAPI (newRouter [] [] demoAPI) ?r (newContext ''1'' None) newWriter =
      (case registered demoAPI (rr_path ?rr) (rq_Method ?r) of
         Some rr' \<Rightarrow> serve demoEnv demoAPI None (withMiddleware (HandlerFunc (rr_handler rr')) (rr_name rr') []) ?r
                      ((newContext ''1'' None)\<lparr>rc_route := Some info\<rparr>) newWriter
       | None \<Rightarrow>
           (if rq_Method ?r = ''OPTIONS''
            then serve demoEnv demoAPI None (withMiddleware OptionsHandlerFunc ''optionsHandler'' []) ?r
                   ((newContext ''1'' None)\<lparr>rc_route := Some info\<rparr>) newWriter
            else (notAllowed demoEnv ?r newWriter, newContext ''1'' None)))"
    using router_dispatch [of demoAPI _ ?r ?rr demoEnv "[]" "[]" "newContext ''1'' None" newWriter] by blast
  have "registered demoAPI (rr_path ?rr) (rq_Method ?r) = None" by code_simp
  moreover have "rq_Method ?r \<noteq> ''OPTIONS''" by code_simp
  moreover have "w_status (notAllowed demoEnv ?r newWriter) = 405" by code_simp
  ultimately show ?thesis using eq by simp
qed

text \<open>
  Nothing unregistered is served: a request under \<^verbatim>\<open>/restconf/\<close> whose cleaned path has the shape of
  no registered template or prefix of one is answered 404, whatever its method, and no handler runs.
\<close>

theorem router_not_found:
  assumes "isServeFromTree (cleanPath (rq_EscapedPath r))"
    and "\<forall>rr \<in> set allRoutes. \<forall>ps \<in> set (prefixesOf (rr_path rr)).
           map shape ps \<noteq> map shape (segs (cleanPath (rq_EscapedPath r)))"
  shows "Router_ServeHTTP env allRoutes (newRouter auth services allRoutes) r rc w = (notFound env w, rc) \<and>
    (w_Sent w = None \<longrightarrow> w_status (notFound env w) = 404)"
proof
  have "treeMatch (buildTree (restconfRoutes auth allRoutes)) (cleanPath (rq_EscapedPath r)) [] = None"
    using assms(2) by (intro match_none) (auto simp: restconfRoutes_def)
  with assms(1) show "Router_ServeHTTP env allRoutes (newRouter auth services allRoutes) r rc w = (notFound env w, rc)"
    by (simp add: Router_ServeHTTP_def serveFromTree_def newRouter_tree)
qed (simp add: notFound_def writeErrorResponse_def prepareErrorResponse_def toErrorEntry_def httpError_def
    w_status_def writeBody_def WriteHeader_def headerSet_def Let_def)

theorem router_not_found_witness:
  "w_status (fst (Router_ServeHTTP demoEnv demoAPI (newRouter [] [] demoAPI)
      (demoReq ''GET'' ''/restconf/data/acl=x,y'') (newContext ''1'' None) newWriter)) = 404"
proof -
  let ?r = "demoReq ''GET'' ''/restconf/data/acl=x,y''"
  have a: "isServeFromTree (cleanPath (rq_EscapedPath ?r))" by code_simp
  have b: "\<forall>rr \<in> set demoAPI. \<forall>ps \<in> set (prefixesOf (rr_path rr)).
           map shape ps \<noteq> map shape (segs (cleanPath (rq_EscapedPath ?r)))" by code_simp
  have "w_Sent newWriter = None" by code_simp
  with router_not_found [OF a b, of demoEnv "[]" "[]" "newContext ''1'' None" newWriter] show ?thesis by simp
qed

end
