(* ===== verification/Rest_Handler.thy ===== *)
theory Rest_Handler
  imports Rest_Server Go_Strconv Translib_App
begin

text \<open>
  The landing place of all REST requests (\<^verbatim>\<open>rest/server/handler.go\<close>, \<^verbatim>\<open>restconf.go\<close>,
  \<^verbatim>\<open>req_validate.go\<close>): request body, path translation, query parameters, the call into translib and
  the response.  Translib is the record \<^verbatim>\<open>translib_api\<close> over a state \<^typ>\<open>'s\<close>; the order in which the
  code visits the path variables and the query parameters is the order of their association lists.
\<close>

subsection \<open>Paths for translib\<close>

definition hexVal :: "char \<Rightarrow> nat option" where
  "hexVal c =
     (if CHR ''0'' \<le> c \<and> c \<le> CHR ''9'' then Some (of_char c - of_char CHR ''0'')
      else if CHR ''a'' \<le> c \<and> c \<le> CHR ''f'' then Some (of_char c - of_char CHR ''a'' + 10)
      else if CHR ''A'' \<le> c \<and> c \<le> CHR ''F'' then Some (of_char c - of_char CHR ''A'' + 10)
      else None)"

text \<open>\<^verbatim>\<open>url.PathUnescape\<close>\<close>

fun PathUnescape :: "string \<Rightarrow> string option" where
  "PathUnescape [] = Some []"
| "PathUnescape (c # s) =
     (if c = CHR ''%''
      then (case s of
              a # b # s' \<Rightarrow>
                (case (hexVal a, hexVal b) of
                   (Some x, Some y) \<Rightarrow> map_option ((#) (char_of (16 * x + y))) (PathUnescape s')
                 | _ \<Rightarrow> None)
            | _ \<Rightarrow> None)
      else map_option ((#) c) (PathUnescape s))"

definition escapeKeyValue :: "string \<Rightarrow> string" where
  "escapeKeyValue val =
     (let val1 = replaceAll val [CHR 0x5C] [CHR 0x5C, CHR 0x5C]
      in replaceAll val1 '']'' [CHR 0x5C, CHR '']''])"

definition trimRestconfPrefix :: "string \<Rightarrow> string" where
  "trimRestconfPrefix path =
     (let (pattern, k) = (case index path restconfDataPathPrefix of
                            Some k \<Rightarrow> (restconfDataPathPrefix, Some k)
                          | None \<Rightarrow> (restconfOperPathPrefix, index path restconfOperPathPrefix))
      in case k of Some k \<Rightarrow> drop (k + length pattern - 1) path | None \<Rightarrow> path)"

text \<open>A path variable's value: unescaped, or as it is when it does not unescape.\<close>

definition unescapeVar :: "string \<Rightarrow> string" where
  "unescapeVar v = (case PathUnescape v of Some u \<Rightarrow> u | None \<Rightarrow> v)"

definition substVar :: "NameMap \<Rightarrow> string \<times> string \<Rightarrow> string \<Rightarrow> string" where
  "substVar pmap kv path =
     (let (k, v) = kv;
          restStyle = ''{'' @ k @ ''}'';
          gnmiStyle = ''['' @ NameMap_Get pmap k @ ''='' @ escapeKeyValue (unescapeVar v) @ '']''
      in replaceN path restStyle gnmiStyle 1)"

definition getPathForTranslib :: "NameMap \<Rightarrow> 'n routeMatchInfo \<Rightarrow> string" where
  "getPathForTranslib pmap route =
     (let path = rm_path route; vars = rm_vars route
      in if length vars = 0 then trimRestconfPrefix path
         else
           let path1 = trimRestconfPrefix path;
               path2 = replaceAll path1 ''={'' ''{'';
               path3 = replaceAll path2 ''},{'' ''}{''
           in fold (substVar pmap) vars path3)"

subsection \<open>Query parameters\<close>

record translibArgs =
  ta_method :: string
  ta_path :: string
  ta_data :: string
  ta_depth :: nat
  ta_AuthEnabled :: bool
  ta_User :: UserRoles

definition isOperationsRequest :: "request \<Rightarrow> bool" where
  "isOperationsRequest r = containsStr (rq_Path r) restconfOperPathPrefix"

definition parseDepthParam :: "string list \<Rightarrow> request \<Rightarrow> go_error + nat" where
  "parseDepthParam v r =
     (if rq_Method r \<noteq> ''GET'' \<and> rq_Method r \<noteq> ''HEAD''
      then Inl (httpError 400 (rq_Method r @ '' does not support 'depth' query parameter''))
      else if length v \<noteq> 1 then Inl (httpError 400 ''Invalid 'depth' query parameter'')
      else if hd v = ''unbounded'' then Inr 0
      else case parseUint (hd v) 16 of
             None \<Rightarrow> Inl (httpError 400 ''Invalid 'depth' query parameter'')
           | Some d \<Rightarrow>
               (if d = 0 then Inl (httpError 400 ''Invalid 'depth' query parameter'') else Inr d))"

fun parseRestconfQueryParams ::
  "request \<Rightarrow> (string, string list) gomap \<Rightarrow> translibArgs \<Rightarrow> go_error option \<times> translibArgs" where
  "parseRestconfQueryParams r [] args = (None, args)"
| "parseRestconfQueryParams r ((name, val) # ps) args =
     (if name = ''depth''
      then (case parseDepthParam val r of
              Inl err \<Rightarrow> (Some err, args\<lparr>ta_depth := 0\<rparr>)
            | Inr d \<Rightarrow> parseRestconfQueryParams r ps (args\<lparr>ta_depth := d\<rparr>))
      else (Some (httpError 400 (''Unsupported query parameter '' @ [CHR 0x27] @ name @ [CHR 0x27])), args))"

definition parseQueryParams :: "request \<Rightarrow> translibArgs \<Rightarrow> go_error option \<times> translibArgs" where
  "parseQueryParams r args =
     (if hasPrefix (rq_Path r) restconfPathPrefix
      then parseRestconfQueryParams r (rq_Query r) args else (None, args))"

subsection \<open>Request body and response type\<close>

text \<open>\<^verbatim>\<open>RequestValidate\<close>: JSON decoding and schema validation are the function \<^verbatim>\<open>jsonValidate\<close>.\<close>

definition RequestValidate :: "'h rest_env \<Rightarrow> string \<Rightarrow> string \<Rightarrow> MediaType \<Rightarrow> go_error + string" where
  "RequestValidate env model payload ctype =
     (if isJSON ctype then jsonValidate env model payload else Inr payload)"

text \<open>
  \<^verbatim>\<open>getRequestBody\<close>: media type (nil without a body) and data.  A guessed or given content type is
  never empty where it is parsed, so the nil result of \<^verbatim>\<open>parseMediaType\<close> does not arise.
\<close>

definition getRequestBody ::
  "'h rest_env \<Rightarrow> request \<Rightarrow> 'n RequestContext \<Rightarrow> go_error + MediaType option \<times> string" where
  "getRequestBody env r rc =
     (if rq_ContentLength r = 0 then Inr (None, [])
      else case rq_Body r of
             None \<Rightarrow> Inl (httpError 500 [])
           | Some body \<Rightarrow>
               (let ctype = (if mapStr (rq_Header r) ''Content-Type'' = [] then detectType env body
                             else mapStr (rq_Header r) ''Content-Type'')
                in case parseMediaType (mimeParse env) ctype of
                     Some (Some ct) \<Rightarrow>
                       (if \<not> MediaTypes_Contains (mimeParse env) (rc_Consumes rc) (mt_Type ct)
                        then Inl (httpError 415 ''Unsupported content-type'')
                        else case rc_Model rc of
                               Some model \<Rightarrow>
                                 (case RequestValidate env model body ct of
                                    Inl err \<Rightarrow> Inl err
                                  | Inr body' \<Rightarrow> Inr (Some ct, body'))
                             | None \<Rightarrow> Inr (Some ct, body))
                   | _ \<Rightarrow> Inl (httpBadRequest ''Bad content-type'')))"

text \<open>\<open>format\<close> is \<^verbatim>\<open>mime.FormatMediaType\<close>.\<close>

definition resolveResponseContentType ::
  "'h rest_env \<Rightarrow> (string \<Rightarrow> (string, string) gomap \<Rightarrow> string) \<Rightarrow> string \<Rightarrow> 'n RequestContext \<Rightarrow> string" where
  "resolveResponseContentType env format data rc =
     (if length data = 0 then []
      else if length (rc_Produces rc) = 1
      then format (mt_Type (rc_Produces rc ! 0)) (mt_Params (rc_Produces rc ! 0))
      else detectType env data)"

subsection \<open>Calling translib\<close>

text \<open>Payload and error of a read or action; error of a write.\<close>

record 's translib_api =
  tl_Get :: "GetRequest \<Rightarrow> 's \<Rightarrow> (string \<times> go_error option) \<times> 's"
  tl_Action :: "SetRequest \<Rightarrow> 's \<Rightarrow> (string \<times> go_error option) \<times> 's"
  tl_Create :: "SetRequest \<Rightarrow> 's \<Rightarrow> go_error option \<times> 's"
  tl_Replace :: "SetRequest \<Rightarrow> 's \<Rightarrow> go_error option \<times> 's"
  tl_Update :: "SetRequest \<Rightarrow> 's \<Rightarrow> go_error option \<times> 's"
  tl_Delete :: "SetRequest \<Rightarrow> 's \<Rightarrow> go_error option \<times> 's"

definition setRequest :: "translibArgs \<Rightarrow> string \<Rightarrow> SetRequest" where
  "setRequest args payload =
     \<lparr>sr_Path = ta_path args, sr_Payload = payload, sr_AuthEnabled = ta_AuthEnabled args, sr_User = ta_User args\<rparr>"

text \<open>Status, content and error; the status only counts without an error.\<close>

definition invokeTranslib ::
  "'s translib_api \<Rightarrow> translibArgs \<Rightarrow> request \<Rightarrow> 's \<Rightarrow> (nat \<times> string \<times> go_error option) \<times> 's" where
  "invokeTranslib T args r s =
     (if rq_Method r = ''GET'' \<or> rq_Method r = ''HEAD''
      then (let ((payload, err), s') = tl_Get T
                  \<lparr>gr_Path = ta_path args, gr_Depth = ta_depth args, gr_AuthEnabled = ta_AuthEnabled args,
                   gr_User = ta_User args\<rparr> s
            in if err = None then ((200, payload, None), s') else ((400, [], err), s'))
      else if rq_Method r = ''POST''
      then (if isOperationsRequest r
            then (let ((payload, err), s') = tl_Action T (setRequest args (ta_data args)) s
                  in if err = None then ((200, payload, None), s') else ((400, [], err), s'))
            else (let (err, s') = tl_Create T (setRequest args (ta_data args)) s in ((201, [], err), s')))
      else if rq_Method r = ''PUT''
      then (let (err, s') = tl_Replace T (setRequest args (ta_data args)) s in ((204, [], err), s'))
      else if rq_Method r = ''PATCH''
      then (let (err, s') = tl_Update T (setRequest args (ta_data args)) s in ((204, [], err), s'))
      else if rq_Method r = ''DELETE''
      then (let (err, s') = tl_Delete T (setRequest args []) s in ((204, [], err), s'))
      else ((400, [], Some (httpBadRequest ''Invalid method'')), s))"

subsection \<open>Process\<close>

definition writeResponse :: "nat \<Rightarrow> string \<Rightarrow> string \<Rightarrow> writer \<Rightarrow> writer" where
  "writeResponse status data rtype w =
     (if length data \<noteq> 0
      then writeBody data (WriteHeader status (headerSet ''Content-Type'' rtype w))
      else WriteHeader status w)"

definition errorResponse :: "'h rest_env \<Rightarrow> go_error \<Rightarrow> writer \<Rightarrow> writer" where
  "errorResponse env err w =
     (let (status, data, rtype) = prepareErrorResponse (errText env) (marshalErr env) (Some err)
      in writeResponse status data rtype w)"

definition requestArgs :: "request \<Rightarrow> 'n RequestContext \<Rightarrow> translibArgs" where
  "requestArgs r rc =
     \<lparr>ta_method = rq_Method r, ta_path = [], ta_data = [], ta_depth = 0,
      ta_AuthEnabled = UserAuth_Any (rc_ClientAuth rc),
      ta_User = \<lparr>ur_Name = au_User (rc_Auth rc), ur_Roles = au_Roles (rc_Auth rc)\<rparr>\<rparr>"

definition Process ::
  "'h rest_env \<Rightarrow> 's translib_api \<Rightarrow> (string \<Rightarrow> (string, string) gomap \<Rightarrow> string) \<Rightarrow>
   (string \<times> (string, string) gomap) option \<Rightarrow> request \<Rightarrow> 'n RequestContext \<Rightarrow> writer \<Rightarrow> 's \<Rightarrow> writer \<times> 's" where
  "Process env T format current r rc w s =
     (let args = requestArgs r rc
      in case getRequestBody env r rc of
           Inl err \<Rightarrow> (errorResponse env err w, s)
         | Inr (_, data) \<Rightarrow>
             (let rc1 = GetContextWithRouteInfo r current rc;
                  args1 = args\<lparr>ta_data := data,
                               ta_path := getPathForTranslib (rc_PMap rc1) (the (rc_route rc1))\<rparr>
              in case parseQueryParams r args1 of
                   (Some err, _) \<Rightarrow> (errorResponse env err w, s)
                 | (None, args2) \<Rightarrow>
                     (case invokeTranslib T args2 r s of
                        ((_, _, Some err), s') \<Rightarrow> (errorResponse env err w, s')
                      | ((status, content, None), s') \<Rightarrow>
                          (let (w1, content') =
                                 (if rq_Method r = ''HEAD''
                                  then (headerSet ''Content-Length'' (natStr (length content)) w, [])
                                  else (w, content))
                           in (writeResponse status content' (resolveResponseContentType env format content' rc1) w1,
                               s')))))"

subsection \<open>Built-in handlers\<close>

definition hostMetadataHandler :: "writer \<Rightarrow> writer" where
  "hostMetadataHandler w =
     writeBody (''<XRD xmlns='http://docs.oasis-open.org/ns/xri/xrd-1.0'>'' @
                ''<Link rel='restconf' href='/restconf'/>'' @ ''</XRD>'')
       (headerSet ''Content-Type'' ''application/xrd+xml'' w)"

definition yanglibVersionHandler :: "request \<Rightarrow> writer \<Rightarrow> writer" where
  "yanglibVersionHandler r w =
     (if containsStr (mapStr (rq_Header r) ''Accept'') ''application/yang-data+xml''
      then writeBody (''<yang-library-version xmlns='urn:ietf:params:xml:ns:yang:ietf-restconf'>'' @
                      ''2016-06-21</yang-library-version>'')
             (headerSet ''Content-Type'' ''application/yang-data+xml'' w)
      else writeBody (''{\"ietf-restconf:yang-library-version\": \"2016-06-21\"}'')
             (headerSet ''Content-Type'' ''application/yang-data+json'' w))"

end
