(* ===== verification/Rest_Process.thy ===== *)
theory Rest_Process
  imports Rest_Handler
begin

text \<open>
  Properties of the REST request handler: query parameters, statuses, HEAD and OPTIONS.
\<close>

subsection \<open>Query parameters\<close>

lemma parseDepthParam_Inr:
  "parseDepthParam v r = Inr d \<longleftrightarrow>
    (rq_Method r = ''GET'' \<or> rq_Method r = ''HEAD'') \<and>
    (\<exists>x. v = [x] \<and> (x = ''unbounded'' \<and> d = 0 \<or> x \<noteq> ''unbounded'' \<and> parseUint x 16 = Some d \<and> d \<noteq> 0))"
  by (cases v rule: remdups_adj.cases) (auto simp: parseDepthParam_def split: option.split)

definition depthOf :: "string \<Rightarrow> nat" where
  "depthOf x = (if x = ''unbounded'' then 0 else case parseUint x 16 of Some d \<Rightarrow> d | None \<Rightarrow> 0)"

definition depthOK :: "string \<Rightarrow> bool" where
  "depthOK x \<longleftrightarrow> x = ''unbounded'' \<or> (\<exists>d. parseUint x 16 = Some d \<and> d \<noteq> 0)"

lemma parse_depth_ok:
  "rq_Method r = ''GET'' \<or> rq_Method r = ''HEAD'' \<Longrightarrow> depthOK x \<Longrightarrow> parseDepthParam [x] r = Inr (depthOf x)"
  by (auto simp: parseDepthParam_Inr depthOf_def depthOK_def)

lemma depthOf_bound: "depthOf x < 65536"
  using parseUint_bound [of x 16] by (auto simp: depthOf_def split: option.split)

text \<open>
  C28. The query parameters of a RESTCONF request are checked completely: parsing succeeds exactly when
  the request has no parameter or only \<^verbatim>\<open>depth\<close>, on GET or HEAD, with one value that is
  \<^verbatim>\<open>unbounded\<close> or a decimal number from 1 to 65535; the depth passed on is that number, or 0 for
  unbounded, and nothing else of the arguments changes.
\<close>

theorem query_params_exact:
  assumes "gomap_wf ps" "ta_depth args = 0"
  shows "parseRestconfQueryParams r ps args = (None, args') \<longleftrightarrow>
    (ps = [] \<and> args' = args \<or>
     (\<exists>x. ps = [(''depth'', [x])] \<and> (rq_Method r = ''GET'' \<or> rq_Method r = ''HEAD'') \<and> depthOK x \<and>
          args' = args\<lparr>ta_depth := depthOf x\<rparr> \<and> depthOf x < 65536))"
proof (cases ps)
  case (Cons nv ps')
  obtain name val where nv: "nv = (name, val)" by (cases nv)
  show ?thesis
  proof (cases "name = ''depth''")
    case False
    with Cons nv show ?thesis by simp
  next
    case True
    have ps': "ps' = [] \<and> a' = a" if "parseRestconfQueryParams r ps' a = (None, a')" for a a'
    proof (cases ps')
      case (Cons nv' ps'')
      obtain name' val' where nv': "nv' = (name', val')" by (cases nv')
      with assms(1) Cons \<open>ps = nv # ps'\<close> nv True have "name' \<noteq> ''depth''" by auto
      with that Cons nv' show ?thesis by simp
    qed (use that in simp)
    show ?thesis
    proof (cases "parseDepthParam val r")
      case (Inl e)
      have "\<not> (\<exists>x. val = [x] \<and> (rq_Method r = ''GET'' \<or> rq_Method r = ''HEAD'') \<and> depthOK x)"
        using Inl parse_depth_ok by fastforce
      with Inl Cons nv True show ?thesis by auto
    next
      case (Inr d)
      then obtain x where x: "val = [x]" "rq_Method r = ''GET'' \<or> rq_Method r = ''HEAD''" "depthOK x" "depthOf x = d"
        by (auto simp: parseDepthParam_Inr depthOK_def depthOf_def)
      with depthOf_bound [of x] ps' Inr Cons nv True show ?thesis by auto
    qed
  qed
qed auto

definition argsInit :: translibArgs where
  "argsInit = \<lparr>ta_method = ''GET'', ta_path = [], ta_data = [], ta_depth = 0, ta_AuthEnabled = False,
     ta_User = \<lparr>ur_Name = [], ur_Roles = []\<rparr>\<rparr>"

definition getReq :: "string \<Rightarrow> (string, string list) gomap \<Rightarrow> request" where
  "getReq method q = \<lparr>rq_Method = method, rq_EscapedPath = ''/restconf/data/acl'', rq_Path = ''/restconf/data/acl'',
     rq_Query = q, rq_ContentLength = 0, rq_Body = None, rq_Header = [], rq_BasicAuth = None, rq_TLSName = None\<rparr>"

theorem query_params_exact_witness:
  "fst (parseRestconfQueryParams (getReq ''GET'' []) [(''depth'', [''65536''])] argsInit) \<noteq> None \<and>
   parseRestconfQueryParams (getReq ''GET'' []) [(''depth'', [''65535''])] argsInit =
     (None, argsInit\<lparr>ta_depth := 65535\<rparr>)"
proof -
  have a: "gomap_wf [(''depth'', [''65536''])]" "gomap_wf [(''depth'', [''65535''])]" "ta_depth argsInit = 0"
    by code_simp+
  have b: "\<not> depthOK ''65536''" "depthOK ''65535''" "depthOf ''65535'' = 65535"
    by (auto simp: depthOK_def depthOf_def parseUint_def digitsVal_def digitVal_def isDigit_def)
  show ?thesis
    using query_params_exact [OF a(1,3), of "getReq ''GET'' []"] query_params_exact [OF a(2,3), of "getReq ''GET'' []"] b
    by (cases "parseRestconfQueryParams (getReq ''GET'' []) [(''depth'', [''65536''])] argsInit")
       (auto simp: getReq_def)
qed

subsection \<open>Outcomes of a request\<close>

definition successStatus :: "request \<Rightarrow> nat" where
  "successStatus r =
     (if rq_Method r = ''GET'' \<or> rq_Method r = ''HEAD'' then 200
      else if rq_Method r = ''POST'' then (if isOperationsRequest r then 200 else 201) else 204)"

lemma invokeTranslib_status: "invokeTranslib T args r s = ((st, c, None), s') \<Longrightarrow> st = successStatus r"
  by (auto simp: invokeTranslib_def successStatus_def Let_def split: prod.splits if_splits)

lemma writeResponse_status: "w_Sent w = None \<Longrightarrow> w_status (writeResponse st d t w) = st"
  by (simp add: writeResponse_def writeBody_def WriteHeader_def headerSet_def w_status_def Let_def)

lemma errorResponse_status:
  "w_Sent w = None \<Longrightarrow> w_status (errorResponse env e w) = fst (toErrorEntry (errText env) (Some e))"
  by (simp add: errorResponse_def prepareErrorResponse_def writeResponse_status split_def Let_def)


text \<open>A translib whose state is the list of the paths it was asked to delete.\<close>

definition logTranslib :: "string list translib_api" where
  "logTranslib = \<lparr>tl_Get = (\<lambda>q s. (if gr_Path q = ''/acl'' then (''acl!'', None) else ([], Some (NotFound [] [])), s)),
     tl_Action = (\<lambda>_ s. (([], None), s)), tl_Create = (\<lambda>_ s. (None, s)), tl_Replace = (\<lambda>_ s. (None, s)),
     tl_Update = (\<lambda>_ s. (None, s)), tl_Delete = (\<lambda>q s. (None, sr_Path q # s))\<rparr>"

text \<open>The environment of a server that has no registered handlers, accounts or tokens.\<close>

definition plainEnv :: "nat rest_env" where
  "plainEnv = \<lparr>runHandler = (\<lambda>h r rc w. (w, rc)), sshLogin = (\<lambda>_ _. False), lookupUser = (\<lambda>_. False),
     groupIds = (\<lambda>_. None), groupName = (\<lambda>_. None), jwtParse = (\<lambda>_. JwtError True),
     muxServe = (\<lambda>_ _. MuxNotFound), errText = rawText, marshalErr = (\<lambda>es. concat (map ee_Message es)),
     mimeParse = (\<lambda>s. Some (s, [])), detectType = (\<lambda>_. ''text/plain''), jsonValidate = (\<lambda>_ b. Inr b),
     authDur = 0, handlerDur = 0, translibDur = 0\<rparr>"

definition plainContext :: "nat handler RequestContext" where
  "plainContext = newContext ''1'' None"


subsection \<open>HEAD is GET without the body\<close>

definition asHead :: "request \<Rightarrow> request" where
  "asHead r = r\<lparr>rq_Method := ''HEAD''\<rparr>"

lemma asHead_simps [simp]:
  "rq_Method (asHead r) = ''HEAD''" "rq_Path (asHead r) = rq_Path r" "rq_Query (asHead r) = rq_Query r"
  "rq_ContentLength (asHead r) = rq_ContentLength r" "rq_Body (asHead r) = rq_Body r"
  "rq_Header (asHead r) = rq_Header r"
  by (simp_all add: asHead_def)

lemma parse_head:
  assumes "rq_Method r = ''GET''"
  shows "parseRestconfQueryParams (asHead r) ps (a\<lparr>ta_method := ''HEAD''\<rparr>) =
    (fst (parseRestconfQueryParams r ps a), (snd (parseRestconfQueryParams r ps a))\<lparr>ta_method := ''HEAD''\<rparr>)"
proof (induction ps arbitrary: a)
  case (Cons nv ps)
  obtain name val where nv: "nv = (name, val)" by (cases nv)
  have eq: "a\<lparr>ta_method := ''HEAD'', ta_depth := d\<rparr> = a\<lparr>ta_depth := d, ta_method := ''HEAD''\<rparr>" for d
    by simp
  have "parseDepthParam val (asHead r) = parseDepthParam val r"
    using assms by (simp add: parseDepthParam_def)
  then show ?case
    using nv by (cases "parseDepthParam val r"; cases "name = ''depth''") (simp_all add: eq Cons)
qed simp

lemma head_query:
  assumes "rq_Method r = ''GET''" "parseQueryParams r a = (eq, a')"
  shows "parseQueryParams (asHead r) (a\<lparr>ta_method := ''HEAD''\<rparr>) = (eq, a'\<lparr>ta_method := ''HEAD''\<rparr>)"
  using assms(2) parse_head [OF assms(1), of "rq_Query r" a] by (auto simp: parseQueryParams_def split: if_splits)

lemma head_invoke:
  assumes "rq_Method r = ''GET''"
  obtains c err s2 where
    "invokeTranslib T args r s = ((if err = None then (200, c, None) else (400, [], err)), s2)"
    "invokeTranslib T (args\<lparr>ta_method := ''HEAD''\<rparr>) (asHead r) s =
      ((if err = None then (200, c, None) else (400, [], err)), s2)"
proof -
  obtain c err s2 where "tl_Get T \<lparr>gr_Path = ta_path args, gr_Depth = ta_depth args,
      gr_AuthEnabled = ta_AuthEnabled args, gr_User = ta_User args\<rparr> s = ((c, err), s2)" by (metis surj_pair)
  with assms show thesis by (intro that [where c = c and err = err and ?s2.0 = s2]) (auto simp: invokeTranslib_def)
qed

lemma head_context:
  "getRequestBody env (asHead r) rc = getRequestBody env r rc"
  "GetContextWithRouteInfo (asHead r) cur rc = GetContextWithRouteInfo r cur rc"
  unfolding getRequestBody_def GetContextWithRouteInfo_def asHead_simps by (rule refl)+

text \<open>
  HEAD answers like GET without a body: on a fresh writer it leaves translib in the same state,
  has the same status, and, when the read succeeds, an empty body whose announced length is the
  length of the body GET sends.
\<close>

theorem head_like_get:
  assumes "rq_Method r = ''GET''" "w_Sent w = None" "w_Body w = []"
    and "Process env T fmt cur r rc w s = (wg, sg)" "Process env T fmt cur (asHead r) rc w s = (wh, sh)"
  shows "sh = sg \<and> w_status wh = w_status wg \<and>
    (w_status wg = 200 \<and> (\<forall>e. fst (toErrorEntry (errText env) (Some e)) \<noteq> 200) \<longrightarrow>
       w_Body wh = [] \<and> (\<exists>h. w_Sent wh = Some (200, h) \<and>
         mapGet h ''Content-Length'' = Some (natStr (length (w_Body wg)))))"
proof (cases "getRequestBody env r rc")
  case (Inl e)
  with assms show ?thesis by (auto simp: Process_def errorResponse_status head_context Let_def)
next
  case (Inr md)
  define rc1 where "rc1 = GetContextWithRouteInfo r cur rc"
  define args1 where "args1 = (requestArgs r rc)\<lparr>ta_data := snd md,
    ta_path := getPathForTranslib (rc_PMap rc1) (the (rc_route rc1))\<rparr>"
  have args1h: "(requestArgs (asHead r) rc)\<lparr>ta_data := snd md,
    ta_path := getPathForTranslib (rc_PMap rc1) (the (rc_route rc1))\<rparr> = args1\<lparr>ta_method := ''HEAD''\<rparr>"
    by (simp add: args1_def requestArgs_def)
  obtain eq args2 where q: "parseQueryParams r args1 = (eq, args2)" by fastforce
  obtain c err s2 where i:
    "invokeTranslib T args2 r s = ((if err = None then (200, c, None) else (400, [], err)), s2)"
    "invokeTranslib T (args2\<lparr>ta_method := ''HEAD''\<rparr>) (asHead r) s =
       ((if err = None then (200, c, None) else (400, [], err)), s2)"
    by (rule head_invoke [OF assms(1)])
  note facts = assms Inr q head_query [OF assms(1) q] args1h i
  show ?thesis
  proof (cases "eq = None \<and> err = None")
    case False
    with facts show ?thesis
      by (cases eq) (auto simp: Process_def errorResponse_status head_context rc1_def [symmetric]
          args1_def [symmetric] Let_def split_def)
  next
    case True
    with facts have "wg = writeResponse 200 c (resolveResponseContentType env fmt c rc1) w" "sg = s2"
      "wh = writeResponse 200 [] (resolveResponseContentType env fmt [] rc1)
              (headerSet ''Content-Length'' (natStr (length c)) w)" "sh = s2"
      by (auto simp: Process_def head_context rc1_def [symmetric] args1_def [symmetric] Let_def split_def)
    with assms(2,3) show ?thesis
      by (auto simp: writeResponse_def writeBody_def WriteHeader_def headerSet_def w_status_def Let_def)
  qed
qed

theorem head_like_get_witness:
  "snd (Process plainEnv logTranslib (\<lambda>t _. t) None (asHead (getReq ''GET'' [])) plainContext newWriter [''x'']) =
   snd (Process plainEnv logTranslib (\<lambda>t _. t) None (getReq ''GET'' []) plainContext newWriter [''x''])"
proof -
  have a: "rq_Method (getReq ''GET'' []) = ''GET''" "w_Sent newWriter = None" "w_Body newWriter = []" by code_simp+
  from head_like_get [OF a prod.collapse [symmetric] prod.collapse [symmetric], of plainEnv logTranslib
      "\<lambda>t _. t" None plainContext "[''x'']"]
  show ?thesis by blast
qed

end
