(* ===== verification/Rest_Stats.thy ===== *)
theory Rest_Stats
  imports Rest_Server
begin

text \<open>
  Request statistics of the REST server (\<^verbatim>\<open>rest/server/stats.go\<close>): the counters of the five buckets
  and the classification of a finished request.  Durations are numbers of nanoseconds; the mutex
  makes an update of the buckets one step.
\<close>

record opStat =
  st_Hits :: nat
  st_Time :: int
  st_Peak :: int

definition opStat_add :: "int \<Rightarrow> opStat \<Rightarrow> opStat" where
  "opStat_add t s =
     s\<lparr>st_Hits := st_Hits s + 1, st_Time := st_Time s + t, st_Peak := (if t > st_Peak s then t else st_Peak s)\<rparr>"

definition opStat_clear :: "opStat \<Rightarrow> opStat" where
  "opStat_clear s = s\<lparr>st_Hits := 0, st_Time := 0, st_Peak := 0\<rparr>"

text \<open>The package variables; \<open>cvlStat\<close> is the counter kept by package \<^verbatim>\<open>cvl\<close>.\<close>

record serverStats =
  svcRequestStat :: opStat
  apiRequestStat :: opStat
  handlerStat :: opStat
  authStat :: opStat
  translibStat :: opStat
  cvlStat :: opStat

definition clearAllStats :: "serverStats \<Rightarrow> serverStats" where
  "clearAllStats g =
     g\<lparr>svcRequestStat := opStat_clear (svcRequestStat g), apiRequestStat := opStat_clear (apiRequestStat g),
       handlerStat := opStat_clear (handlerStat g), authStat := opStat_clear (authStat g),
       translibStat := opStat_clear (translibStat g), cvlStat := opStat_clear (cvlStat g)\<rparr>"

definition markInternal :: "'n RequestContext \<Rightarrow> 'n RequestContext" where
  "markInternal rc = setStats (\<lambda>s. s\<lparr>internal := True\<rparr>) rc"

definition noStats :: apiStats where
  "noStats = \<lparr>handlerTime = 0, translibTime = 0, authTime = 0, internal = False\<rparr>"

text \<open>The bookkeeping of \<^verbatim>\<open>withStat\<close> after the router returned: \<open>tt\<close> is the time of the whole request.\<close>

definition recordRequest :: "int \<Rightarrow> apiStats \<Rightarrow> serverStats \<Rightarrow> serverStats" where
  "recordRequest tt stats g =
     (if internal stats \<or> handlerTime stats = 0
      then g\<lparr>svcRequestStat := opStat_add tt (svcRequestStat g)\<rparr>
      else
        let g1 = g\<lparr>apiRequestStat := opStat_add tt (apiRequestStat g),
                   handlerStat := opStat_add (handlerTime stats) (handlerStat g)\<rparr>;
            g2 = (if authTime stats > 0 then g1\<lparr>authStat := opStat_add (authTime stats) (authStat g1)\<rparr> else g1)
        in (if translibTime stats > 0
            then g2\<lparr>translibStat := opStat_add (translibTime stats) (translibStat g2)\<rparr> else g2))"

definition withStat ::
  "(request \<Rightarrow> 'n RequestContext \<Rightarrow> writer \<Rightarrow> serverStats \<Rightarrow> (writer \<times> 'n RequestContext) \<times> serverStats) \<Rightarrow>
   int \<Rightarrow> string \<Rightarrow> request \<Rightarrow> writer \<Rightarrow> serverStats \<Rightarrow> writer \<times> serverStats" where
  "withStat router tt rid r w g =
     (let ((w', rc'), g') = router r (newContext rid (Some noStats)) w g
      in (w', recordRequest tt (the (rc_stats rc')) g'))"

definition deleteStatsHandler :: "'n RequestContext \<Rightarrow> writer \<Rightarrow> serverStats \<Rightarrow> (writer \<times> 'n RequestContext) \<times> serverStats" where
  "deleteStatsHandler rc w g = ((WriteHeader 204 w, markInternal rc), clearAllStats g)"

subsection \<open>Counters\<close>

text \<open>What a counter holds: the number, the sum and the maximum of the samples since it was cleared.\<close>

definition counts :: "int list \<Rightarrow> opStat \<Rightarrow> bool" where
  "counts ts s \<longleftrightarrow> st_Hits s = length ts \<and> st_Time s = sum_list ts \<and> st_Peak s = foldr max ts 0"

lemma counts_add: "counts ts s \<Longrightarrow> counts (t # ts) (opStat_add t s)"
  by (auto simp: counts_def opStat_add_def)

lemma counts_clear: "counts [] (opStat_clear s)"
  by (simp add: counts_def opStat_clear_def)

lemma peak_bounds:
  "counts ts s \<Longrightarrow> \<forall>t \<in> set ts. 0 \<le> t \<Longrightarrow> 0 \<le> st_Peak s \<and> st_Peak s \<le> st_Time s \<and>
     st_Time s \<le> int (st_Hits s) * st_Peak s"
proof -
  have "\<forall>t \<in> set ts. 0 \<le> t \<Longrightarrow> 0 \<le> foldr max ts 0 \<and> foldr max ts 0 \<le> sum_list ts \<and>
      sum_list ts \<le> int (length ts) * foldr max ts (0::int)"
  proof (induction ts)
    case (Cons t ts)
    then have IH: "0 \<le> foldr max ts 0" "foldr max ts 0 \<le> sum_list ts"
      "sum_list ts \<le> int (length ts) * foldr max ts 0" "0 \<le> t" by auto
    have "int (length ts) * foldr max ts 0 \<le> int (length ts) * max t (foldr max ts 0)"
      by (rule mult_left_mono) auto
    with IH show ?case by (auto simp: algebra_simps)
  qed simp
  then show "counts ts s \<Longrightarrow> \<forall>t \<in> set ts. 0 \<le> t \<Longrightarrow> ?thesis" by (simp add: counts_def)
qed

text \<open>
  A server's history: for every finished request its total time and its own figures, newest first; a
  request that cleared the statistics starts a new history that holds only itself.
\<close>

datatype event = Request int apiStats | Cleared int

fun runEvent :: "event \<Rightarrow> serverStats \<Rightarrow> serverStats" where
  "runEvent (Request tt stats) g = recordRequest tt stats g"
| "runEvent (Cleared tt) g = recordRequest tt (noStats\<lparr>internal := True\<rparr>) (clearAllStats g)"

definition isService :: "apiStats \<Rightarrow> bool" where
  "isService st \<longleftrightarrow> internal st \<or> handlerTime st = 0"

fun svcTimes :: "event list \<Rightarrow> int list" where
  "svcTimes [] = []"
| "svcTimes (Cleared tt # es) = [tt]"
| "svcTimes (Request tt st # es) = (if isService st then tt # svcTimes es else svcTimes es)"

fun apiTimes :: "(int \<Rightarrow> apiStats \<Rightarrow> int option) \<Rightarrow> event list \<Rightarrow> int list" where
  "apiTimes f [] = []"
| "apiTimes f (Cleared tt # es) = []"
| "apiTimes f (Request tt st # es) =
     (if isService st then apiTimes f es
      else case f tt st of Some t \<Rightarrow> t # apiTimes f es | None \<Rightarrow> apiTimes f es)"

definition zeroStat :: opStat where
  "zeroStat = \<lparr>st_Hits = 0, st_Time = 0, st_Peak = 0\<rparr>"

definition zeroStats :: serverStats where
  "zeroStats = \<lparr>svcRequestStat = zeroStat, apiRequestStat = zeroStat, handlerStat = zeroStat,
     authStat = zeroStat, translibStat = zeroStat, cvlStat = zeroStat\<rparr>"

lemma withStat_request:
  "withStat (\<lambda>r rc w g. (h r rc w, g)) tt rid r w g =
    (fst (h r (newContext rid (Some noStats)) w),
     runEvent (Request tt (the (rc_stats (snd (h r (newContext rid (Some noStats)) w))))) g)"
  by (simp add: withStat_def split_def Let_def)

lemma withStat_delete:
  "withStat (\<lambda>r rc w g. deleteStatsHandler rc w g) tt rid r w g = (WriteHeader 204 w, runEvent (Cleared tt) g)"
  by (simp add: withStat_def deleteStatsHandler_def markInternal_def setStats_def newContext_def)

lemma counts_zero: "counts [] zeroStat"
  by (simp add: counts_def zeroStat_def)

text \<open>
  C31. The statistics are the history.  After any sequence of requests and of requests that clear the
  statistics, from a fresh server: each bucket's hits, total and peak are the number, sum and maximum
  of the matching times since the last clearing.  Built-in services (and requests that reach no
  handler) count in the service bucket only, REST requests in the API and handler buckets, and in
  the authentication and translib buckets when these took time.
\<close>

theorem stats_history:
  "let g = foldr runEvent es zeroStats in
    counts (svcTimes es) (svcRequestStat g) \<and>
    counts (apiTimes (\<lambda>tt st. Some tt) es) (apiRequestStat g) \<and>
    counts (apiTimes (\<lambda>tt st. Some (handlerTime st)) es) (handlerStat g) \<and>
    counts (apiTimes (\<lambda>tt st. if authTime st > 0 then Some (authTime st) else None) es) (authStat g) \<and>
    counts (apiTimes (\<lambda>tt st. if translibTime st > 0 then Some (translibTime st) else None) es) (translibStat g) \<and>
    snd (withStat (\<lambda>r rc w g. deleteStatsHandler rc w g) tt rid r w g) = runEvent (Cleared tt) g"
proof (induction es)
  case Nil
  show ?case by (simp add: zeroStats_def counts_zero withStat_delete)
next
  case (Cons e es)
  define g where "g = foldr runEvent es zeroStats"
  note IH = Cons [unfolded Let_def, folded g_def]
  show ?case
  proof (cases e)
    case (Request tt st)
    show ?thesis
      using IH unfolding foldr.simps o_apply g_def [symmetric] Request
      by (auto simp: recordRequest_def isService_def counts_add withStat_delete Let_def)
  next
    case (Cleared tt)
    show ?thesis
      unfolding foldr.simps o_apply g_def [symmetric] Cleared
      by (simp add: recordRequest_def clearAllStats_def noStats_def counts_clear counts_add withStat_delete Let_def)
  qed
qed

end
