(* ===== verification/Path_Info.thy ===== *)
theory Path_Info
  imports Prelude Go_Strconv
begin

text \<open>
  Parsed translib paths (\<^verbatim>\<open>translib/path_utils.go\<close>): the reader that splits a gNMI-style path into its
  template and its variables, and the accessors of the result.
\<close>

record PathInfo =
  pi_Path :: string
  pi_Template :: string
  pi_Vars :: "(string, string) gomap"

definition HasVar :: "PathInfo \<Rightarrow> string \<Rightarrow> bool" where
  "HasVar p name = mapHas (pi_Vars p) name"

definition Var :: "PathInfo \<Rightarrow> string \<Rightarrow> string" where
  "Var p name = mapStr (pi_Vars p) name"

definition IntVar :: "PathInfo \<Rightarrow> string \<Rightarrow> int option" where
  "IntVar p name =
     (let val = mapStr (pi_Vars p) name in if length val = 0 then Some 0 else atoi val)"

definition PathInfo_HasPrefix :: "PathInfo \<Rightarrow> string \<Rightarrow> bool" where
  "PathInfo_HasPrefix p s = hasPrefix (pi_Template p) s"

definition PathInfo_HasSuffix :: "PathInfo \<Rightarrow> string \<Rightarrow> bool" where
  "PathInfo_HasSuffix p s = hasSuffix (pi_Template p) s"

text \<open>
  \<^verbatim>\<open>readUntil\<close>: what was read and the rest of the reader.  \<open>escaped\<close> is the flag of the code; a
  backslash (\<^verbatim>\<open>0x5C\<close>) is dropped and protects the next byte.
\<close>

fun readUntil :: "char \<Rightarrow> bool \<Rightarrow> string \<Rightarrow> string \<times> string" where
  "readUntil delim escaped [] = ([], [])"
| "readUntil delim escaped (c # r) =
     (if c = delim \<and> \<not> escaped then ([], r)
      else if c = CHR 0x5C \<and> \<not> escaped then readUntil delim True r
      else let (buff, r') = readUntil delim False r in (c # buff, r'))"

lemma readUntil_length: "length (snd (readUntil d e r)) \<le> length r"
  by (induction d e r rule: readUntil.induct) (auto split: prod.splits)

text \<open>
  The name under which a variable is stored: a name in use gets the suffix \<^verbatim>\<open>#k\<close> for the first free
  \<open>k \<ge> 2\<close>; one of the first \<open>length vars\<close> candidates is free.
\<close>

definition uniqueVar :: "(string, string) gomap \<Rightarrow> string \<Rightarrow> string" where
  "uniqueVar vars name =
     (if mapHas vars name
      then case find (\<lambda>k. \<not> mapHas vars (name @ ''#'' @ natStr k)) [2..<length vars + 3] of
             Some k \<Rightarrow> name @ ''#'' @ natStr k
           | None \<Rightarrow> name
      else name)"

function parsePath :: "string \<Rightarrow> string \<Rightarrow> (string, string) gomap \<Rightarrow> string \<times> (string, string) gomap" where
  "parsePath [] template vars = (template, vars)"
| "parsePath (c # r) template vars =
     (if c \<noteq> CHR ''['' then parsePath r (template @ [c]) vars
      else
        let (name0, r1) = readUntil (CHR ''='') False r;
            (val, r2) = readUntil (CHR '']'') False r1;
            name = uniqueVar vars name0
        in if length name \<noteq> 0 then parsePath r2 (template @ ''{}'') (mapPut name val vars)
           else parsePath r2 template vars)"
  by pat_completeness auto
termination
proof (relation "measure (\<lambda>(r, _, _). length r)", goal_cases)
  case (3 c r template vars x name0 r1 y val r2 name)
  then have "length r2 \<le> length r"
    using readUntil_length [of "CHR ''=''" False r] readUntil_length [of "CHR '']''" False r1]
    by (metis le_trans snd_conv)
  then show ?case by simp
next
  case (4 c r template vars x name0 r1 y val r2 name)
  then have "length r2 \<le> length r"
    using readUntil_length [of "CHR ''=''" False r] readUntil_length [of "CHR '']''" False r1]
    by (metis le_trans snd_conv)
  then show ?case by simp
qed auto

definition NewPathInfo :: "string \<Rightarrow> PathInfo" where
  "NewPathInfo path =
     (let (template, vars) = parsePath path [] []
      in \<lparr>pi_Path = path, pi_Template = template, pi_Vars = vars\<rparr>)"

subsection \<open>Names of variables\<close>

lemma uniqueVar_free:
  assumes "gomap_wf vars"
  shows "\<not> mapHas vars (uniqueVar vars name)"
proof (cases "mapHas vars name")
  case True
  let ?c = "\<lambda>k. name @ ''#'' @ natStr k"
  have "\<exists>k \<in> set [2..<length vars + 3]. \<not> mapHas vars (?c k)"
  proof (rule ccontr)
    assume "\<not> ?thesis"
    then have "?c ` set [2..<length vars + 3] \<subseteq> fst ` set vars" by (auto simp: mapHas_iff)
    then have "card (?c ` set [2..<length vars + 3]) \<le> card (fst ` set vars)" by (intro card_mono) auto
    moreover have "inj_on ?c (set [2..<length vars + 3])" by (auto simp: inj_on_def natStr_inj)
    then have "card (?c ` set [2..<length vars + 3]) = length vars + 1" by (simp add: card_image)
    moreover have "card (fst ` set vars) \<le> length vars"
      by (metis card_image_le card_length finite_set le_trans)
    ultimately show False by simp
  qed
  then obtain k0 where k0: "k0 \<in> set [2..<length vars + 3]" "\<not> mapHas vars (?c k0)" by blast
  show ?thesis
  proof (cases "find (\<lambda>k. \<not> mapHas vars (?c k)) [2..<length vars + 3]")
    case None
    then have "\<not> (\<exists>k. k \<in> set [2..<length vars + 3] \<and> \<not> mapHas vars (?c k))"
      by (simp only: find_None_iff) simp
    with k0 show ?thesis by blast
  next
    case (Some k)
    then have "\<not> mapHas vars (?c k)" unfolding find_Some_iff by blast
    with Some True show ?thesis by (simp add: uniqueVar_def)
  qed
qed (simp add: uniqueVar_def)

lemma uniqueVar_id: "\<not> mapHas vars name \<Longrightarrow> uniqueVar vars name = name"
  by (simp add: uniqueVar_def)

subsection \<open>Reading back escaped text\<close>

lemma readUntil_plain:
  "CHR 0x5C \<notin> set a \<Longrightarrow> d \<notin> set a \<Longrightarrow> readUntil d False (a @ d # r) = (a, r)"
  by (induction a) auto

text \<open>A key value as \<^verbatim>\<open>escapeKeyValue\<close> writes it: every backslash and every bracket is protected.\<close>

definition escaped :: "string \<Rightarrow> string" where
  "escaped v = concat (map (\<lambda>c. if c = CHR 0x5C \<or> c = CHR '']'' then [CHR 0x5C, c] else [c]) v)"

lemma readUntil_escaped: "readUntil (CHR '']'') False (escaped v @ CHR '']'' # r) = (v, r)"
  by (induction v) (auto simp: escaped_def)

end
