(* ===== verification/Path_Roundtrip.thy ===== *)
theory Path_Roundtrip
  imports Rest_Handler Path_Info
begin

text \<open>
  From the REST path to translib's view of it: the translation of \<^verbatim>\<open>getPathForTranslib\<close> followed by
  the parser of \<^verbatim>\<open>NewPathInfo\<close> yields the template and the variables the client sent, independently of
  the order in which the code visits the map of path variables.
\<close>

subsection \<open>Replacing, character by character\<close>

lemma replaceAll_Cons:
  assumes "old \<noteq> []"
  shows "replaceAll (d # s) old new =
    (if hasPrefix (d # s) old then new @ replaceAll (drop (length old) (d # s)) old new
     else d # replaceAll s old new)"
proof (cases "hasPrefix (d # s) old")
  case True
  then have "index (d # s) old = Some 0" by simp
  then have "splitStr (d # s) old = [] # splitStr (drop (length old) (d # s)) old"
    using splitStr_Some [OF assms, of "d # s" 0] by simp
  with True show ?thesis by (simp add: replaceAll_def joinStr_Cons)
next
  case False
  show ?thesis
  proof (cases "index s old")
    case None
    with False show ?thesis by (simp add: replaceAll_None)
  next
    case (Some k)
    with False have i: "index (d # s) old = Some (Suc k)" by simp
    from splitStr_Some [OF assms i] splitStr_Some [OF assms Some] False show ?thesis
      by (simp add: replaceAll_def joinStr_Cons)
  qed
qed

lemma replaceAll_skip: "c \<notin> set a \<Longrightarrow> replaceAll (a @ s) (c # w) new = a @ replaceAll s (c # w) new"
  by (induction a) (auto simp: replaceAll_Cons)

lemma replaceAll_hit: "old \<noteq> [] \<Longrightarrow> replaceAll (old @ s) old new = new @ replaceAll s old new"
  by (cases old) (auto simp: replaceAll_Cons hasPrefix_def)

lemma replaceAll_empty [simp]: "old \<noteq> [] \<Longrightarrow> replaceAll [] old new = []"
  by (cases old) (simp_all add: replaceAll_None)

lemma replaceN_1_Cons:
  "replaceN (d # s) old new 1 =
    (if hasPrefix (d # s) old then new @ drop (length old) (d # s) else d # replaceN s old new 1)"
proof (cases "hasPrefix (d # s) old")
  case True
  then show ?thesis by (simp add: replaceN_def)
next
  case False
  then show ?thesis by (cases "index s old") (auto simp: replaceN_def)
qed

lemma replaceN_1_skip: "c \<notin> set a \<Longrightarrow> replaceN (a @ s) (c # w) new 1 = a @ replaceN s (c # w) new 1"
  by (induction a) (auto simp: replaceN_1_Cons simp del: One_nat_def)

lemma replaceN_1_hit: "old \<noteq> [] \<Longrightarrow> replaceN (old @ s) old new 1 = new @ s"
  by (cases old) (auto simp: replaceN_1_Cons hasPrefix_def simp del: One_nat_def)

lemma escapeKeyValue_escaped: "escapeKeyValue v = escaped v"
proof -
  have "escapeKeyValue v = concat (map (\<lambda>d. if d = CHR '']'' then [CHR 0x5C, CHR '']''] else [d])
      (concat (map (\<lambda>d. if d = CHR 0x5C then [CHR 0x5C, CHR 0x5C] else [d]) v)))"
    by (simp add: escapeKeyValue_def replaceAll_char)
  also have "\<dots> = escaped v" by (induction v) (auto simp: escaped_def)
  finally show ?thesis .
qed

subsection \<open>Templates\<close>

text \<open>A template as its elements: name and parameters.\<close>

type_synonym tmpl = "(string \<times> string list) list"

abbreviation brace :: "string \<Rightarrow> string" where
  "brace p \<equiv> CHR ''{'' # p @ [CHR 0x7D]"

definition elemStr :: "string \<times> string list \<Rightarrow> string" where
  "elemStr e = CHR ''/'' # fst e @ (if snd e = [] then [] else CHR ''='' # joinStr (snd e) '','')"

definition tmplStr :: "tmpl \<Rightarrow> string" where
  "tmplStr t = concat (map (\<lambda>(n, ps). elemStr (n, map brace ps)) t)"

definition nameOK :: "string \<Rightarrow> bool" where
  "nameOK n \<longleftrightarrow> n \<noteq> [] \<and> list_all (\<lambda>c. c \<notin> set ''/=,{['' \<and> c \<noteq> CHR 0x7D) n"

definition paramOK :: "string \<Rightarrow> bool" where
  "paramOK p \<longleftrightarrow> p \<noteq> [] \<and> list_all isIdentChar p"

definition tmplOK :: "tmpl \<Rightarrow> bool" where
  "tmplOK t \<longleftrightarrow> list_all (\<lambda>(n, ps). nameOK n \<and> list_all paramOK ps) t"

definition tparams :: "tmpl \<Rightarrow> string list" where
  "tparams t = concat (map snd t)"

lemma nameOK_chars:
  "nameOK n \<Longrightarrow> CHR ''/'' \<notin> set n \<and> CHR ''='' \<notin> set n \<and> CHR '','' \<notin> set n \<and> CHR ''{'' \<notin> set n \<and>
     CHR 0x7D \<notin> set n \<and> CHR ''['' \<notin> set n \<and> n \<noteq> []"
  by (auto simp: nameOK_def list_all_iff)

lemma identChar_not: "isIdentChar c \<Longrightarrow> c \<notin> set ''/=,{['' \<and> c \<noteq> CHR 0x7D"
proof -
  have "\<not> isIdentChar d" if "d \<in> set (CHR 0x7D # ''/=,{['')" for d
  proof -
    have "list_all (\<lambda>d. \<not> isIdentChar d) (CHR 0x7D # ''/=,{['')" by code_simp
    with that show ?thesis unfolding list_all_iff by blast
  qed
  then show "isIdentChar c \<Longrightarrow> ?thesis" by auto
qed

lemma paramOK_chars:
  "paramOK p \<Longrightarrow> CHR ''/'' \<notin> set p \<and> CHR ''='' \<notin> set p \<and> CHR '','' \<notin> set p \<and> CHR ''{'' \<notin> set p \<and>
     CHR 0x7D \<notin> set p \<and> p \<noteq> []"
  using identChar_not by (fastforce simp: paramOK_def list_all_iff)

subsection \<open>Templates and requests in the route tree\<close>

lemma pathSplit_elem:
  assumes "CHR ''/'' \<notin> set e"
  shows "pathSplit (CHR ''/'' # e) = (CHR ''/'' # e, [])"
    and "pathSplit (CHR ''/'' # e @ CHR ''/'' # s) = (CHR ''/'' # e, CHR ''/'' # s)"
proof -
  have "index e ''/'' = None" using assms containsStr_char [of e "CHR ''/''"] by (simp add: containsStr_def)
  then show "pathSplit (CHR ''/'' # e) = (CHR ''/'' # e, [])" by (simp add: pathSplit_def)
  have "index (e @ CHR ''/'' # s) ''/'' = Some (length e)"
    using index_first [of "CHR ''/''" e "[]" "[]" s] assms by simp
  then show "pathSplit (CHR ''/'' # e @ CHR ''/'' # s) = (CHR ''/'' # e, CHR ''/'' # s)"
    by (simp add: pathSplit_def)
qed

lemma segs_elems:
  "\<forall>e \<in> set es. CHR ''/'' \<notin> set e \<Longrightarrow> es \<noteq> [] \<Longrightarrow>
   segs (concat (map ((#) (CHR ''/'')) es)) = map ((#) (CHR ''/'')) es"
proof (induction es)
  case (Cons e es)
  show ?case
  proof (cases es)
    case Nil
    with Cons.prems show ?thesis by (simp add: segs.simps pathSplit_elem)
  next
    case (Cons e' es')
    with Cons.IH Cons.prems pathSplit_elem(2) [of e "e' @ concat (map ((#) (CHR ''/'')) es')"]
    show ?thesis by (simp add: segs.simps [of "CHR ''/'' # e @ _"])
  qed
qed simp

lemma pathNameValues_elem:
  assumes "CHR ''='' \<notin> set n" "\<forall>v \<in> set vs. CHR '','' \<notin> set v"
  shows "pathNameValues (elemStr (n, vs)) = (CHR ''/'' # n, vs)"
proof (cases "vs = []")
  case True
  have "index (CHR ''/'' # n) ''='' = None"
    using assms(1) containsStr_char [of "CHR ''/'' # n" "CHR ''=''"] by (simp add: containsStr_def)
  with True show ?thesis by (simp add: elemStr_def pathNameValues_def)
next
  case False
  have "index (CHR ''/'' # n @ CHR ''='' # joinStr vs '','') ''='' = Some (Suc (length n))"
    using index_first [of "CHR ''=''" "CHR ''/'' # n" "[]" "[]" "joinStr vs '',''"] assms(1) by simp
  with False assms(2) show ?thesis
    by (simp add: elemStr_def pathNameValues_def split_join_char)
qed

lemma takeWhile_param: "paramOK p \<Longrightarrow> takeWhile isIdentChar (p @ CHR 0x7D # s) = p \<and> dropWhile isIdentChar (p @ CHR 0x7D # s) = CHR 0x7D # s"
proof -
  assume "paramOK p"
  then have "\<forall>c \<in> set p. isIdentChar c" by (simp add: paramOK_def list_all_iff)
  moreover have "\<not> isIdentChar (CHR 0x7D)" by code_simp
  ultimately show ?thesis by (simp add: takeWhile_append2 dropWhile_append2)
qed

lemma pathParam_brace: "paramOK p \<Longrightarrow> pathParam (brace p) = Some p"
  using takeWhile_param [of p "[]"] by (simp add: paramOK_def)

lemma those_map_Some: "(\<forall>x \<in> set xs. f x = Some (g x)) \<Longrightarrow> those (map f xs) = Some (map g xs)"
  by (induction xs) auto

lemma tmpl_pathNameValues:
  assumes "nameOK n" "list_all paramOK ps"
  shows "pathNameValues (elemStr (n, map brace ps)) = (CHR ''/'' # n, map brace ps)"
    and "segParams (elemStr (n, map brace ps)) = Some ps"
proof -
  show *: "pathNameValues (elemStr (n, map brace ps)) = (CHR ''/'' # n, map brace ps)"
    using assms nameOK_chars paramOK_chars by (intro pathNameValues_elem) (auto simp: list_all_iff)
  have "those (map pathParam (map brace ps)) = Some ps"
    using those_map_Some [of ps "pathParam \<circ> brace" id] assms(2) pathParam_brace by (auto simp: list_all_iff)
  then show "segParams (elemStr (n, map brace ps)) = Some ps" by (simp add: segParams_def *)
qed

subsection \<open>The translated path\<close>

text \<open>
  Pieces of a path: literal text and parameters, rendered with a rendering of the parameters.
\<close>

definition render :: "(string \<Rightarrow> string) \<Rightarrow> (string + string) list \<Rightarrow> string" where
  "render f ps = concat (map (case_sum id f) ps)"

lemma render_simps [simp]:
  "render f [] = []"
  "render f (Inl l # ps) = l @ render f ps"
  "render f (Inr p # ps) = f p @ render f ps"
  "render f (ps @ qs) = render f ps @ render f qs"
  by (simp_all add: render_def)

definition pieces :: "tmpl \<Rightarrow> (string + string) list" where
  "pieces t = concat (map (\<lambda>(n, ps). Inl (CHR ''/'' # n) # map Inr ps) t)"

definition piecesOK :: "(string + string) list \<Rightarrow> bool" where
  "piecesOK ps \<longleftrightarrow> list_all (\<lambda>x. case x of Inl l \<Rightarrow> CHR ''{'' \<notin> set l \<and> CHR ''['' \<notin> set l | Inr p \<Rightarrow> paramOK p) ps"

definition pparams :: "(string + string) list \<Rightarrow> string list" where
  "pparams ps = concat (map (case_sum (\<lambda>_. []) (\<lambda>p. [p])) ps)"

lemma pparams_simps [simp]:
  "pparams [] = []" "pparams (Inl l # ps) = pparams ps" "pparams (Inr p # ps) = p # pparams ps"
  "pparams (ps @ qs) = pparams ps @ pparams qs"
  by (simp_all add: pparams_def)

lemma pparams_Inr [simp]: "pparams (map Inr ps) = ps"
  by (induction ps) auto

lemma pparams_pieces: "pparams (pieces t) = tparams t"
  by (induction t) (auto simp: pieces_def tparams_def)

lemma pieces_OK: "tmplOK t \<Longrightarrow> piecesOK (pieces t)"
  using nameOK_chars by (induction t) (auto simp: tmplOK_def pieces_def piecesOK_def list_all_iff)

lemma replace_open:
  assumes "tmplOK t"
  shows "replaceAll (tmplStr t) ''={'' ''{'' =
    concat (map (\<lambda>(n, ps). CHR ''/'' # n @ joinStr (map brace ps) '','') t)"
  using assms
proof (induction t)
  case Nil
  show ?case by (simp add: tmplStr_def)
next
  case (Cons e t)
  obtain n ps where e: "e = (n, ps)" by (cases e)
  from Cons.prems e have ok: "nameOK n" "list_all paramOK ps" by (auto simp: tmplOK_def)
  let ?rest = "replaceAll (tmplStr t) ''={'' ''{''"
  have "replaceAll (elemStr (n, map brace ps) @ tmplStr t) ''={'' ''{'' =
      CHR ''/'' # n @ joinStr (map brace ps) '','' @ ?rest"
  proof (cases ps)
    case Nil
    have "CHR ''='' \<notin> set (CHR ''/'' # n)" using nameOK_chars [OF ok(1)] by simp
    from replaceAll_skip [OF this, of "tmplStr t" "''{''" "''{''"] Nil show ?thesis
      by (simp add: elemStr_def)
  next
    case (Cons p ps')
    then have ne: "ps \<noteq> []" by simp
    obtain u where j: "joinStr (map brace ps) '','' = CHR ''{'' # u"
      using Cons by (cases ps') auto
    have "CHR ''='' \<notin> set (joinStr (map brace ps) '','')"
      using ok(2) paramOK_chars by (auto simp: list_all_iff dest!: joinStr_append_chars)
    then have tl: "CHR ''='' \<notin> set u" by (simp add: j)
    have n: "CHR ''='' \<notin> set (CHR ''/'' # n)" using nameOK_chars [OF ok(1)] by simp
    have "replaceAll (elemStr (n, map brace ps) @ tmplStr t) ''={'' ''{'' =
      replaceAll ((CHR ''/'' # n) @ ''={'' @ (u @ tmplStr t)) ''={'' ''{''"
      using ne by (simp add: elemStr_def j)
    also have "\<dots> = (CHR ''/'' # n) @ ''{'' @ u @ ?rest"
      by (simp only: replaceAll_skip [OF n] replaceAll_skip [OF tl] replaceAll_hit list.distinct(2) not_False_eq_True)
    finally show ?thesis using j by simp
  qed
  with Cons.IH Cons.prems e show ?case by (simp add: tmplStr_def tmplOK_def)
qed

lemma brace_miss: "paramOK p \<Longrightarrow> paramOK k \<Longrightarrow> p \<noteq> k \<Longrightarrow> \<not> hasPrefix (brace p @ s) (brace k)"
proof
  assume ok: "paramOK p" "paramOK k" "p \<noteq> k" and "hasPrefix (brace p @ s) (brace k)"
  then obtain t where "p @ CHR 0x7D # s = k @ CHR 0x7D # t" by (auto simp: hasPrefix_iff)
  then have "takeWhile isIdentChar (p @ CHR 0x7D # s) = takeWhile isIdentChar (k @ CHR 0x7D # t)" by simp
  with ok takeWhile_param show False by metis
qed

lemma replace_close_params:
  assumes "list_all paramOK ps" "\<not> hasPrefix s '',{''"
  shows "replaceAll (joinStr (map brace ps) '','' @ s) [CHR 0x7D, CHR '','', CHR ''{''] [CHR 0x7D, CHR ''{''] =
    concat (map brace ps) @ replaceAll s [CHR 0x7D, CHR '','', CHR ''{''] [CHR 0x7D, CHR ''{'']"
  using assms(1)
proof (induction ps)
  case (Cons p ps)
  let ?R = "\<lambda>x. replaceAll x [CHR 0x7D, CHR '','', CHR ''{''] [CHR 0x7D, CHR ''{'']"
  from Cons.prems have p: "CHR 0x7D \<notin> set (CHR ''{'' # p)" using paramOK_chars by simp
  show ?case
  proof (cases ps)
    case Nil
    have "?R ((CHR ''{'' # p) @ CHR 0x7D # s) = (CHR ''{'' # p) @ CHR 0x7D # ?R s"
      unfolding replaceAll_skip [OF p] using assms(2) by (simp add: replaceAll_Cons)
    with Nil show ?thesis by simp
  next
    case (Cons p' ps')
    then have ne: "ps \<noteq> []" by simp
    obtain t where j: "joinStr (map brace ps) '','' = CHR ''{'' # t"
      using Cons by (cases ps') auto
    have p': "CHR 0x7D \<notin> set p" using p by simp
    have open_skip: "?R (CHR ''{'' # x) = CHR ''{'' # ?R x" for x by (simp add: replaceAll_Cons)
    have eq: "joinStr (map brace (p # ps)) '','' @ s = (CHR ''{'' # p) @ [CHR 0x7D, CHR '','', CHR ''{''] @ t @ s"
      using ne by (simp add: joinStr_Cons j)
    have "?R (joinStr (map brace (p # ps)) '','' @ s) = (CHR ''{'' # p) @ [CHR 0x7D, CHR ''{''] @ ?R (t @ s)"
      unfolding eq
      by (simp only: replaceAll_skip [OF p] replaceAll_hit list.distinct(2) not_False_eq_True)
    moreover have "?R (joinStr (map brace ps) '','' @ s) = CHR ''{'' # ?R (t @ s)"
      by (simp add: open_skip j)
    ultimately show ?thesis using Cons.IH Cons.prems by simp
  qed
qed simp

lemma replace_close:
  assumes "tmplOK t"
  shows "replaceAll (concat (map (\<lambda>(n, ps). CHR ''/'' # n @ joinStr (map brace ps) '','') t))
      [CHR 0x7D, CHR '','', CHR ''{''] [CHR 0x7D, CHR ''{''] = render brace (pieces t)"
  using assms
proof (induction t)
  case Nil
  show ?case by (simp add: pieces_def)
next
  case (Cons e t)
  obtain n ps where e: "e = (n, ps)" by (cases e)
  from Cons.prems e have ok: "nameOK n" "list_all paramOK ps" by (auto simp: tmplOK_def)
  let ?s = "concat (map (\<lambda>(n, ps). CHR ''/'' # n @ joinStr (map brace ps) '','') t)"
  have n: "CHR 0x7D \<notin> set (CHR ''/'' # n)" using nameOK_chars [OF ok(1)] by simp
  have s: "\<not> hasPrefix ?s '',{''" by (cases t) auto
  have r: "render brace (map Inr ps) = concat (map brace ps)" by (induction ps) auto
  have "replaceAll ((CHR ''/'' # n) @ joinStr (map brace ps) '','' @ ?s)
      [CHR 0x7D, CHR '','', CHR ''{''] [CHR 0x7D, CHR ''{''] =
    (CHR ''/'' # n) @ concat (map brace ps) @ replaceAll ?s [CHR 0x7D, CHR '','', CHR ''{''] [CHR 0x7D, CHR ''{'']"
    by (simp only: replaceAll_skip [OF n] replace_close_params [OF ok(2) s])
  with Cons e r show ?case by (simp add: pieces_def tmplOK_def)
qed

lemma subst_one:
  assumes "piecesOK ps" "distinct (pparams ps)" "k \<in> set (pparams ps)" "f k = brace k"
    and "\<forall>p \<in> set (pparams ps). f p = brace p \<or> CHR ''{'' \<notin> set (f p)"
  shows "replaceN (render f ps) (brace k) g 1 = render (f(k := g)) ps"
  using assms
proof (induction ps)
  case (Cons x ps)
  have ok: "piecesOK ps" "distinct (pparams ps)" "\<forall>p \<in> set (pparams ps). f p = brace p \<or> CHR ''{'' \<notin> set (f p)"
    using Cons.prems(1,2,5) by (auto simp: piecesOK_def split: sum.splits)
  have kOK: "paramOK k" using Cons.prems(1,3) by (auto simp: piecesOK_def pparams_def list_all_iff split: sum.splits)
  show ?case
  proof (cases x)
    case (Inl l)
    with Cons.prems have "CHR ''{'' \<notin> set l" "k \<in> set (pparams ps)" by (auto simp: piecesOK_def)
    with Cons.IH [OF ok(1,2) _ Cons.prems(4) ok(3)] Inl show ?thesis
      by (simp add: replaceN_1_skip del: One_nat_def)
  next
    case (Inr p)
    show ?thesis
    proof (cases "p = k")
      case True
      have "k \<notin> set (pparams ps)" using Cons.prems(2) Inr True by simp
      then have "render (f(k := g)) ps = render f ps"
        by (auto simp: render_def pparams_def intro!: arg_cong [of _ _ concat] map_cong split: sum.split)
      then have "render (f(k := g)) (x # ps) = g @ render f ps" using Inr True by simp
      moreover have "replaceN (render f (x # ps)) (brace k) g 1 = g @ render f ps"
        using Inr True Cons.prems(4) replaceN_1_hit [of "brace k" "render f ps" g]
        by (simp del: One_nat_def)
      ultimately show ?thesis by (simp only:)
    next
      case False
      with Inr Cons.prems have kin: "k \<in> set (pparams ps)" and pOK: "paramOK p"
        and fp: "f p = brace p \<or> CHR ''{'' \<notin> set (f p)" by (auto simp: piecesOK_def)
      note IH = Cons.IH [OF ok(1,2) kin Cons.prems(4) ok(3)]
      have "replaceN (f p @ render f ps) (brace k) g 1 = f p @ replaceN (render f ps) (brace k) g 1"
      proof (cases "CHR ''{'' \<notin> set (f p)")
        case True
        then show ?thesis by (rule replaceN_1_skip)
      next
        case False
        with fp have fp: "f p = brace p" by simp
        have "CHR ''{'' \<notin> set (p @ [CHR 0x7D])" using paramOK_chars [OF pOK] by simp
        from replaceN_1_skip [OF this, of "render f ps" "k @ [CHR 0x7D]" g]
          brace_miss [OF pOK kOK \<open>p \<noteq> k\<close>, of "render f ps"] fp
        show ?thesis by (simp add: replaceN_1_Cons [of "CHR ''{''"] del: One_nat_def)
      qed
      with IH Inr False show ?thesis by simp
    qed
  qed
qed simp

definition gnmiKey :: "NameMap \<Rightarrow> string \<Rightarrow> string \<Rightarrow> string" where
  "gnmiKey pmap k v = CHR ''['' # NameMap_Get pmap k @ CHR ''='' # escaped (unescapeVar v) @ [CHR '']'']"

lemma substVar_eq: "substVar pmap (k, v) path = replaceN path (brace k) (gnmiKey pmap k v) 1"
  by (simp add: substVar_def gnmiKey_def escapeKeyValue_escaped Let_def del: One_nat_def)

lemma escaped_chars: "c \<notin> set v \<Longrightarrow> c \<noteq> CHR 0x5C \<Longrightarrow> c \<notin> set (escaped v)"
  by (auto simp: escaped_def)

lemma subst_all:
  assumes "piecesOK ps" "distinct (pparams ps)" "gomap_wf vars" "fst ` set vars \<subseteq> set (pparams ps)"
    and "\<forall>(k, v) \<in> set vars. CHR ''{'' \<notin> set (gnmiKey pmap k v)"
    and "\<forall>p \<in> set (pparams ps). f p = brace p \<or> CHR ''{'' \<notin> set (f p)"
    and "\<forall>k \<in> fst ` set vars. f k = brace k"
  shows "fold (substVar pmap) vars (render f ps) =
    render (\<lambda>p. case mapGet vars p of Some v \<Rightarrow> gnmiKey pmap p v | None \<Rightarrow> f p) ps"
  using assms(3-7)
proof (induction vars arbitrary: f)
  case (Cons kv vars)
  obtain k v where kv: "kv = (k, v)" by (cases kv)
  define f' where "f' = f(k := gnmiKey pmap k v)"
  from Cons.prems kv have k: "k \<in> set (pparams ps)" "f k = brace k" "k \<notin> fst ` set vars" by auto
  have "substVar pmap (k, v) (render f ps) = render f' ps"
    unfolding f'_def substVar_eq using assms(1,2) k Cons.prems(4) by (intro subst_one) auto
  moreover have "fold (substVar pmap) vars (render f' ps) =
      render (\<lambda>p. case mapGet vars p of Some v \<Rightarrow> gnmiKey pmap p v | None \<Rightarrow> f' p) ps"
    using Cons.prems k kv by (intro Cons.IH) (auto simp: f'_def)
  moreover have "(\<lambda>p. case mapGet vars p of Some v \<Rightarrow> gnmiKey pmap p v | None \<Rightarrow> f' p) =
      (\<lambda>p. case mapGet (kv # vars) p of Some v \<Rightarrow> gnmiKey pmap p v | None \<Rightarrow> f p)"
    using k(3) by (auto simp: kv f'_def fun_eq_iff mapGet_None_iff [of vars k, THEN iffD2] split: option.split)
  ultimately show ?case by (simp add: kv)
qed simp

lemma trim_data: "trimRestconfPrefix (''/restconf/data'' @ CHR ''/'' # s) = CHR ''/'' # s"
  by (simp add: trimRestconfPrefix_def restconfDataPathPrefix_def)

lemma tmplStr_slash: "t \<noteq> [] \<Longrightarrow> \<exists>s. tmplStr t = CHR ''/'' # s"
  by (cases t) (auto simp: tmplStr_def elemStr_def)

lemma tmplStr_no_params: "tparams t = [] \<Longrightarrow> tmplStr t = render f (pieces t)"
  by (induction t) (auto simp: tmplStr_def tparams_def pieces_def elemStr_def)

text \<open>The translated path of a well-formed template.\<close>

lemma getPath_render:
  assumes "tmplOK t" "t \<noteq> []" "distinct (tparams t)"
    and "gomap_wf vars" "fst ` set vars = set (tparams t)"
    and "\<forall>(k, v) \<in> set vars. CHR ''{'' \<notin> set (gnmiKey pmap k v)"
  shows "getPathForTranslib pmap \<lparr>rm_path = ''/restconf/data'' @ tmplStr t, rm_vars = vars, rm_node = nd\<rparr> =
    render (\<lambda>p. gnmiKey pmap p (mapStr vars p)) (pieces t)"
proof -
  obtain s where s: "tmplStr t = CHR ''/'' # s" using tmplStr_slash [OF assms(2)] by blast
  note trim = trim_data [of s, folded s]
  show ?thesis
  proof (cases "vars = []")
    case True
    with assms(5) have "tparams t = []" by simp
    with True trim show ?thesis by (simp add: getPathForTranslib_def tmplStr_no_params)
  next
    case False
    have "replaceAll (replaceAll (tmplStr t) ''={'' ''{'') ''},{'' ''}{'' = render brace (pieces t)"
      using replace_open [OF assms(1)] replace_close [OF assms(1)] by simp
    then have "getPathForTranslib pmap \<lparr>rm_path = ''/restconf/data'' @ tmplStr t, rm_vars = vars, rm_node = nd\<rparr> =
        fold (substVar pmap) vars (render brace (pieces t))"
      using False trim by (simp add: getPathForTranslib_def)
    also have "\<dots> = render (\<lambda>p. case mapGet vars p of Some v \<Rightarrow> gnmiKey pmap p v | None \<Rightarrow> brace p) (pieces t)"
      using assms by (intro subst_all pieces_OK) (auto simp: pparams_pieces)
    also have "\<dots> = render (\<lambda>p. gnmiKey pmap p (mapStr vars p)) (pieces t)"
    proof -
      have "(case mapGet vars p of Some v \<Rightarrow> gnmiKey pmap p v | None \<Rightarrow> brace p) = gnmiKey pmap p (mapStr vars p)"
        if "p \<in> set (pparams (pieces t))" for p
        using that assms(5) mapGet_None_iff [of vars p]
        by (auto simp: pparams_pieces mapStr_def split: option.split)
      then show ?thesis
        by (auto simp: render_def pparams_def intro!: arg_cong [of _ _ concat] map_cong split: sum.split)
    qed
    finally show ?thesis .
  qed
qed

subsection \<open>Parsing it back\<close>

lemma parsePath_literal:
  "CHR ''['' \<notin> set l \<Longrightarrow> parsePath (l @ r) template vars = parsePath r (template @ l) vars"
  by (induction l arbitrary: template) auto

lemma parsePath_key:
  assumes "name \<noteq> []" "CHR ''='' \<notin> set name" "CHR 0x5C \<notin> set name" "\<not> mapHas vars name"
  shows "parsePath (CHR ''['' # name @ CHR ''='' # escaped v @ CHR '']'' # r) template vars =
    parsePath r (template @ ''{}'') (mapPut name v vars)"
  using assms readUntil_plain [of name "CHR ''=''" "escaped v @ CHR '']'' # r"]
  by (simp add: readUntil_escaped uniqueVar_id)

definition keyNameOK :: "string \<Rightarrow> bool" where
  "keyNameOK n \<longleftrightarrow> n \<noteq> [] \<and> CHR ''='' \<notin> set n \<and> CHR 0x5C \<notin> set n \<and> CHR ''{'' \<notin> set n"

lemma mapPut_new: "k \<notin> fst ` set m \<Longrightarrow> mapPut k v m = m @ [(k, v)]"
  by (induction m) (auto simp: mapPut_def)

lemma parsePath_render:
  assumes "piecesOK ps" "\<forall>p \<in> set (pparams ps). keyNameOK (NameMap_Get pmap p)"
    and "distinct (map (NameMap_Get pmap) (pparams ps))"
    and "fst ` set vars \<inter> NameMap_Get pmap ` set (pparams ps) = {}"
  shows "parsePath (render (\<lambda>p. gnmiKey pmap p (f p)) ps) template vars =
    (template @ render (\<lambda>_. ''{}'') ps,
     vars @ map (\<lambda>p. (NameMap_Get pmap p, unescapeVar (f p))) (pparams ps))"
  using assms
proof (induction ps arbitrary: template vars)
  case (Cons x ps)
  show ?case
  proof (cases x)
    case (Inl l)
    with Cons.prems have "CHR ''['' \<notin> set l" by (simp add: piecesOK_def)
    with Cons.IH [of vars "template @ l"] Cons.prems Inl show ?thesis
      by (simp add: parsePath_literal piecesOK_def)
  next
    case (Inr p)
    let ?n = "NameMap_Get pmap p"
    from Inr Cons.prems have n: "keyNameOK ?n" "?n \<notin> fst ` set vars" by auto
    let ?vars = "mapPut ?n (unescapeVar (f p)) vars"
    have "parsePath (gnmiKey pmap p (f p) @ render (\<lambda>p. gnmiKey pmap p (f p)) ps) template vars =
        parsePath (render (\<lambda>p. gnmiKey pmap p (f p)) ps) (template @ ''{}'') ?vars"
      using n parsePath_key [of ?n vars "unescapeVar (f p)" "render (\<lambda>p. gnmiKey pmap p (f p)) ps" template]
      by (simp add: gnmiKey_def keyNameOK_def mapHas_iff)
    moreover have "parsePath (render (\<lambda>p. gnmiKey pmap p (f p)) ps) (template @ ''{}'') ?vars =
        ((template @ ''{}'') @ render (\<lambda>_. ''{}'') ps,
         ?vars @ map (\<lambda>p. (NameMap_Get pmap p, unescapeVar (f p))) (pparams ps))"
      using Cons.prems Inr by (intro Cons.IH) (auto simp: piecesOK_def)
    ultimately show ?thesis using Inr mapPut_new [OF n(2)] by simp
  qed
qed simp


definition aclTmpl :: tmpl where
  "aclTmpl = [(''acl'', []), (''set'', [''name'', ''type'']), (''seq'', [''id''])]"

definition aclVars :: "(string, string) gomap" where
  "aclVars = [(''id'', ''7''), (''type'', ''%5Bx%5D''), (''name'', ''a%2Fb'')]"


end
