(* ===== verification/Spec2Isabelle.thy ===== *)
theory Spec2Isabelle
  imports Swagger_Ui Swagger_Utf8 Swagger_Runtime Swagger_Tick Swagger_Autolink Translib_Props Translib_Access Translib_Subscribe_Run Cvl_Schema_Props Cvl_Tx Db_Props Db_Subscribe Rest_Auth Rest_Process Rest_Stats Path_Roundtrip
begin

text \<open>
  A verification development for the SONiC management framework: the Go packages under \<^verbatim>\<open>src/src\<close> (REST
  server, translib, database wrapper, configuration validation library) and some pieces of the
  JavaScript that the build ships beside the API documents.

  \<^bold>\<open>The program.\<close>  A REST request enters the route tree of \<^verbatim>\<open>rest/server/router.go\<close>, passes the middleware
  that authenticates it (\<^verbatim>\<open>auth.go\<close> and the three authenticators), and reaches \<^verbatim>\<open>Process\<close> (\<^verbatim>\<open>handler.go\<close>),
  which validates body and query, turns the request path into a path of translib and calls an entry point
  of \<^verbatim>\<open>translib/translib.go\<close>.  Translib checks the role of the user, finds the application module of the
  path (\<^verbatim>\<open>app_interface.go\<close>), opens database objects and, for a write, runs the module inside a
  check-and-set transaction of \<^verbatim>\<open>translib/db\<close>.  The database wrapper keeps the pending Redis commands and
  validates every change through a CVL session (\<^verbatim>\<open>cvl\<close>), which checks keys, references and table sizes
  against the YANG schema and the database.  Clients can subscribe to paths (\<^verbatim>\<open>translib/subscribe.go\<close>);
  key-space notifications of Redis (\<^verbatim>\<open>translib/db/subscribe.go\<close>) are turned into notifications of changed
  payloads.

  \<^bold>\<open>Conventions.\<close>  A Go string is a list of bytes, a Go map an association list with distinct keys whose
  order is the order in which a \<^verbatim>\<open>range\<close> loop visits it; statements hold for every order.  A nil error is
  \<^term>\<open>None\<close>.  A panic, where the code can have one, is \<^term>\<open>None\<close> of an option result.  Pointers that are
  shared and written through (subscription objects, database objects of a request) are indices into
  lists of the state.  Code outside the repository (go-redis, gorilla mux, libyang, ygot, JWT, PAM, JSON
  and MIME coding, toposort) and the generated types are arguments of the definitions: records of functions such
  as \<^verbatim>\<open>infra\<close>, \<^verbatim>\<open>appInterface\<close>, \<^verbatim>\<open>translib_api\<close>, \<^verbatim>\<open>layers\<close>.  What a statement needs of them is a named
  hypothesis (\<^verbatim>\<open>redis_hash\<close>, \<^verbatim>\<open>multi_exec\<close>, \<^verbatim>\<open>sess_ok\<close>, \<^verbatim>\<open>set_module\<close>, \<^verbatim>\<open>sorter_ok\<close>), each with an instance.

  \<^bold>\<open>Prelude, Go_Strconv, Errors.\<close>  Go's \<^verbatim>\<open>strings\<close>, \<^verbatim>\<open>strconv\<close> and maps as far as they are used, the locale of
  invariants of step relations; return codes, error records and Go errors (\<^verbatim>\<open>tlerr\<close>, \<^verbatim>\<open>cvl_api.go\<close>,
  \<^verbatim>\<open>yparser.go\<close>).

  \<^bold>\<open>Db_Keys, Db\<close> model \<^verbatim>\<open>translib/db/db.go\<close> and \<^verbatim>\<open>map.go\<close>: keys and values, the database object with its
  transaction state, pending commands and pending edit requests, and every operation on it.  Db_Tx has the
  lemmas on the state machine, Db_Spec what the package promises over a server with MULTI/EXEC: atomic
  commits, isolation before the commit, the invariant of all reachable states.  Db_Props has the
  functional properties of the entry operations, the effect of a rejection by CVL and the key round trips.
  Db_Subscribe models \<^verbatim>\<open>subscribe.go\<close> of the same package: exact dispatch of notifications, the end of a
  subscription.

  \<^bold>\<open>Cvl_Model\<close> models the schema maps of \<^verbatim>\<open>cvl/cvl.go\<close> and the functions on keys and fields, \<^bold>\<open>Cvl_Schema\<close> how
  the maps are built from what the parser returns; Cvl_Schema_Props proves that they agree with each other
  and that the reverse references are complete per table.  \<^bold>\<open>Cvl_Deps\<close> models
  the table order and the dependent entries of \<^verbatim>\<open>cvl_api.go\<close>; Cvl_Deps_Props proves, through one locale of
  closures over a reference relation, that the recursions end exactly without cycles and compute the
  closure, and that the order puts referring tables first.  \<^bold>\<open>Cvl_Edit\<close> models \<^verbatim>\<open>ValidateEditConfig\<close> with its
  session; Cvl_Edit_Props proves that it returns and what an accepted request guarantees, Cvl_Edit_Size
  what the tracked table sizes guarantee over a session, and Cvl_Tx composes it with the database wrapper.

  \<^bold>\<open>Translib_App, Translib\<close> model \<^verbatim>\<open>app_interface.go\<close>, \<^verbatim>\<open>authorize.go\<close> and \<^verbatim>\<open>translib.go\<close>; Api_Tests is the module
  \<^verbatim>\<open>api_tests_app.go\<close>.  Translib_Tx and Translib_Props show that single and bulk writes are all or nothing
  for modules that keep the contract of locale \<^verbatim>\<open>set_module\<close>; Translib_Access that unauthorized users and
  reads change nothing, and that write calls return.  \<^bold>\<open>Translib_Subscribe\<close> models the subscription
  registry; its \<^verbatim>\<open>_Props\<close>, \<^verbatim>\<open>_Start\<close> and \<^verbatim>\<open>_Run\<close> theories show the invariant of its maps, the
  outcome of \<^verbatim>\<open>Subscribe\<close>, and that only changes are notified and nothing after a stop.

  \<^bold>\<open>Path_Info\<close> models \<^verbatim>\<open>path_utils.go\<close>; Path_Roundtrip connects it with the path translation of the REST
  handler.  \<^bold>\<open>Rest_Error, Rest_Context, Rest_Handler, Rest_Routes, Rest_Server, Rest_Stats\<close> model the files of
  \<^verbatim>\<open>rest/server\<close>; Rest_Process has the properties of request processing (outcome, query parameters, HEAD),
  Rest_Routes those of route resolution, Rest_Auth those of authentication and dispatch.

  \<^bold>\<open>Swagger_Ui, Swagger_Utf8, Swagger_Buffer, Swagger_Runtime, Swagger_Tick, Swagger_Cookie, Swagger_Autolink\<close> model pieces of the vendored files
  of \<^verbatim>\<open>tools/swagger_codegen/ui-dist\<close>: recursive \<^verbatim>\<open>deep-extend\<close>, JSON-pointer escapes, \<^verbatim>\<open>repeat-string\<close>, UTF-8
  and number coding of the buffer module, webpack's module loader, the queue of \<^verbatim>\<open>process.nextTick\<close>, the
  parser and printer of cookies, and what Autolinker makes of the candidates its regular expression finds.

  \<^bold>\<open>Bounds and fuel.\<close>  Fuel bounds the depth of the recursions that the code leaves unbounded: any number
  above that of the tables of the schema is enough for \<^verbatim>\<open>addDepTables\<close>, and above that of the database keys
  for \<^verbatim>\<open>GetDepDataForDelete\<close>, when no cycle can be reached (Cvl_Deps_Props; with a cycle no number is); the
  module loader needs one more than there are modules (Swagger_Runtime).  All other recursions are
  structural or have a measure.  Integers of Go that are only compared or
  counted are \<^typ>\<open>int\<close>; depth parameters are checked against their 16-bit range; buffer numbers are
  bounded by six bytes, the range doubles represent exactly.

  \<^bold>\<open>Not modelled.\<close>  The transformer and the application modules other than \<^verbatim>\<open>api_tests_app.go\<close>: they work by
  reflection on generated ygot types and tables built from annotated YANG files, which are not in the
  repository as Go code; they enter as modules with a contract.  CVL's XML trees and expression
  evaluation, and libyang: cgo and a patched xpath engine; they enter as the record \<^verbatim>\<open>layers\<close>.  Request
  binding (ygot), JSON coding, logging and tracing; the goroutine scheduling below the granularity of the
  mutexes.  The CLI, host services, host account management, YANG models and build scripts hold no logic
  of the management server.  The rest of the Swagger UI files is third-party code in minified form.
\<close>

end
